theory Spec2Isabelle
  imports Main "HOL-Library.Word"
begin

unbundle bit_operations_syntax

section \<open>Python values\<close>

text \<open>
  The module \<^verbatim>\<open>kedro_viz.api.rest.responses\<close> declares the REST response types
  as pydantic models, assembles the default graph response from the data access manager
  and encodes plain data with \<^verbatim>\<open>orjson\<close>. All three work on dynamically typed Python
  values, so the embedding starts from a datatype of the values that can occur:
  \<^verbatim>\<open>None\<close>, booleans, unbounded integers, strings, lists, dictionaries (in insertion
  order, keyed by hashable values), numpy integer arrays, and instances of other classes
  seen through their attributes. Floating point numbers are left out of the universe.
\<close>

datatype pykey = KNone | KBool bool | KInt int | KStr string | KTuple "pykey list"

datatype ndarray = Scalar "64 word" | Axis "ndarray list"

datatype pyval =
    PNone
  | PBool bool
  | PInt int
  | PStr string
  | PList "pyval list"
  | PDict "(pykey \<times> pyval) list"
  | PNdarray ndarray
  | PObject "(string \<times> pyval) list"

type_synonym pydict = "(pykey \<times> pyval) list"

section \<open>Errors\<close>

datatype field_error = Missing string | WrongType string

datatype encode_error =
    IntegerExceeds64
  | TypeNotSerializable
  | DictKeyNotStr
  | DictKeyUnsupported
  | RecursionLimit

datatype error =
    ValidationError "field_error list"
  | AttributeError string
  | JSONEncodeError encode_error
  | Raised string
  | NotFound string

section \<open>Validation of pydantic fields\<close>

text \<open>
  Constructing a pydantic model validates every declared field and reports all the
  failures together. A validation result is either the list of field errors or the value.
\<close>

type_synonym 'a validated = "field_error list + 'a"

definition ap :: "('a \<Rightarrow> 'b) validated \<Rightarrow> 'a validated \<Rightarrow> 'b validated" where
  "ap f x =
     (case f of
        Inl e1 \<Rightarrow> (case x of Inl e2 \<Rightarrow> Inl (e1 @ e2) | Inr _ \<Rightarrow> Inl e1)
      | Inr g \<Rightarrow> (case x of Inl e2 \<Rightarrow> Inl e2 | Inr a \<Rightarrow> Inr (g a)))"

definition errors_of :: "'a validated \<Rightarrow> field_error list" where
  "errors_of r = (case r of Inl e \<Rightarrow> e | Inr _ \<Rightarrow> [])"

fun validate_all :: "(pyval \<Rightarrow> 'a validated) \<Rightarrow> pyval list \<Rightarrow> ('a list) validated" where
  "validate_all f [] = Inr []"
| "validate_all f (x # xs) = ap (ap (Inr (#)) (f x)) (validate_all f xs)"

text \<open>
  The input of a model is a dictionary with string keys or, since every response model
  derives from \<^verbatim>\<open>BaseAPIResponse\<close> (\<^verbatim>\<open>from_attributes=True\<close>, \<^verbatim>\<open>orm_mode\<close>), any
  object, read through its attributes. A numpy array is such an object, with none of the
  attributes a response model asks for; \<^verbatim>\<open>None\<close>, booleans, integers, strings and lists
  are not.
\<close>

fun str_items :: "pydict \<Rightarrow> (string \<times> pyval) list" where
  "str_items [] = []"
| "str_items ((KStr k, v) # kvs) = (k, v) # str_items kvs"
| "str_items (_ # kvs) = str_items kvs"

fun fields_of :: "pyval \<Rightarrow> (string \<times> pyval) list option" where
  "fields_of (PDict kvs) = Some (str_items kvs)"
| "fields_of (PObject attrs) = Some attrs"
| "fields_of (PNdarray a) = Some []"
| "fields_of _ = None"

definition required :: "(string \<times> pyval) list \<Rightarrow> string \<Rightarrow> (string \<Rightarrow> pyval \<Rightarrow> 'a validated) \<Rightarrow> 'a validated" where
  "required kw name f = (case map_of kw name of None \<Rightarrow> Inl [Missing name] | Some v \<Rightarrow> f name v)"

definition defaulted :: "(string \<times> pyval) list \<Rightarrow> string \<Rightarrow> (string \<Rightarrow> pyval \<Rightarrow> 'a validated) \<Rightarrow> 'a \<Rightarrow> 'a validated" where
  "defaulted kw name f d = (case map_of kw name of None \<Rightarrow> Inr d | Some v \<Rightarrow> f name v)"

fun validate_str :: "string \<Rightarrow> pyval \<Rightarrow> string validated" where
  "validate_str loc (PStr s) = Inr s"
| "validate_str loc _ = Inl [WrongType loc]"

fun validate_Dict :: "string \<Rightarrow> pyval \<Rightarrow> pydict validated" where
  "validate_Dict loc (PDict kvs) = Inr kvs"
| "validate_Dict loc _ = Inl [WrongType loc]"

fun validate_List :: "(string \<Rightarrow> pyval \<Rightarrow> 'a validated) \<Rightarrow> string \<Rightarrow> pyval \<Rightarrow> ('a list) validated" where
  "validate_List f loc (PList xs) = validate_all (f loc) xs"
| "validate_List f loc _ = Inl [WrongType loc]"

fun validate_Optional :: "(string \<Rightarrow> pyval \<Rightarrow> 'a validated) \<Rightarrow> string \<Rightarrow> pyval \<Rightarrow> ('a option) validated" where
  "validate_Optional f loc PNone = Inr None"
| "validate_Optional f loc v = ap (Inr Some) (f loc v)"

definition model_input :: "string \<Rightarrow> pyval \<Rightarrow> ((string \<times> pyval) list \<Rightarrow> 'a validated) \<Rightarrow> 'a validated" where
  "model_input loc v build = (case fields_of v of None \<Rightarrow> Inl [WrongType loc] | Some kw \<Rightarrow> build kw)"

section \<open>Response models\<close>

subsection \<open>Node metadata\<close>

record TaskNodeMetadataAPIResponse =
  tm_code :: "string option"
  tm_filepath :: "string option"
  tm_parameters :: "pydict option"
  tm_inputs :: "string list"
  tm_outputs :: "string list"
  tm_run_command :: "string option"

definition new_TaskNodeMetadataAPIResponse :: "(string \<times> pyval) list \<Rightarrow> TaskNodeMetadataAPIResponse validated" where
  "new_TaskNodeMetadataAPIResponse kw =
     ap (ap (ap (ap (ap (ap (Inr TaskNodeMetadataAPIResponse.make)
       (defaulted kw ''code'' (validate_Optional validate_str) None))
       (defaulted kw ''filepath'' (validate_Optional validate_str) None))
       (defaulted kw ''parameters'' (validate_Optional validate_Dict) None))
       (required kw ''inputs'' (validate_List validate_str)))
       (required kw ''outputs'' (validate_List validate_str)))
       (defaulted kw ''run_command'' (validate_Optional validate_str) None)"

definition validate_TaskNodeMetadataAPIResponse :: "string \<Rightarrow> pyval \<Rightarrow> TaskNodeMetadataAPIResponse validated" where
  "validate_TaskNodeMetadataAPIResponse loc v = model_input loc v new_TaskNodeMetadataAPIResponse"

record DataNodeMetadataAPIResponse =
  dm_filepath :: "string option"
  dm_type :: string
  dm_plot :: "pydict option"
  dm_image :: "string option"
  dm_tracking_data :: "pydict option"
  dm_run_command :: "string option"
  dm_preview :: "pydict option"
  dm_stats :: "pydict option"

definition new_DataNodeMetadataAPIResponse :: "(string \<times> pyval) list \<Rightarrow> DataNodeMetadataAPIResponse validated" where
  "new_DataNodeMetadataAPIResponse kw =
     ap (ap (ap (ap (ap (ap (ap (ap (Inr DataNodeMetadataAPIResponse.make)
       (defaulted kw ''filepath'' (validate_Optional validate_str) None))
       (required kw ''type'' validate_str))
       (defaulted kw ''plot'' (validate_Optional validate_Dict) None))
       (defaulted kw ''image'' (validate_Optional validate_str) None))
       (defaulted kw ''tracking_data'' (validate_Optional validate_Dict) None))
       (defaulted kw ''run_command'' (validate_Optional validate_str) None))
       (defaulted kw ''preview'' (validate_Optional validate_Dict) None))
       (defaulted kw ''stats'' (validate_Optional validate_Dict) None)"

definition validate_DataNodeMetadataAPIResponse :: "string \<Rightarrow> pyval \<Rightarrow> DataNodeMetadataAPIResponse validated" where
  "validate_DataNodeMetadataAPIResponse loc v = model_input loc v new_DataNodeMetadataAPIResponse"

record TranscodedDataNodeMetadataAPIReponse =
  xm_filepath :: string
  xm_original_type :: string
  xm_transcoded_types :: "string list"
  xm_run_command :: "string option"
  xm_stats :: "pydict option"

definition new_TranscodedDataNodeMetadataAPIReponse :: "(string \<times> pyval) list \<Rightarrow> TranscodedDataNodeMetadataAPIReponse validated" where
  "new_TranscodedDataNodeMetadataAPIReponse kw =
     ap (ap (ap (ap (ap (Inr TranscodedDataNodeMetadataAPIReponse.make)
       (required kw ''filepath'' validate_str))
       (required kw ''original_type'' validate_str))
       (required kw ''transcoded_types'' (validate_List validate_str)))
       (defaulted kw ''run_command'' (validate_Optional validate_str) None))
       (defaulted kw ''stats'' (validate_Optional validate_Dict) None)"

definition validate_TranscodedDataNodeMetadataAPIReponse :: "string \<Rightarrow> pyval \<Rightarrow> TranscodedDataNodeMetadataAPIReponse validated" where
  "validate_TranscodedDataNodeMetadataAPIReponse loc v = model_input loc v new_TranscodedDataNodeMetadataAPIReponse"

record ParametersNodeMetadataAPIResponse =
  pm_parameters :: pydict

definition new_ParametersNodeMetadataAPIResponse :: "(string \<times> pyval) list \<Rightarrow> ParametersNodeMetadataAPIResponse validated" where
  "new_ParametersNodeMetadataAPIResponse kw =
     ap (Inr ParametersNodeMetadataAPIResponse.make) (required kw ''parameters'' validate_Dict)"

definition validate_ParametersNodeMetadataAPIResponse :: "string \<Rightarrow> pyval \<Rightarrow> ParametersNodeMetadataAPIResponse validated" where
  "validate_ParametersNodeMetadataAPIResponse loc v = model_input loc v new_ParametersNodeMetadataAPIResponse"

text \<open>
  A \<^verbatim>\<open>Union\<close> of models is resolved in the smart mode of pydantic 2: every member is
  tried, in the order of the declaration, and of the members that accept the input the one
  with the most fields set from the input wins, the leftmost among equals. When no member
  accepts, the errors of all members are reported. A field counts as set when the input
  has it, whatever its value.
\<close>

definition fields_set :: "string list \<Rightarrow> pyval \<Rightarrow> nat" where
  "fields_set names v =
     (case fields_of v of
        None \<Rightarrow> 0
      | Some kw \<Rightarrow> length (filter (\<lambda>name. map_of kw name \<noteq> None) names))"

fun pick :: "('a \<times> nat) option \<Rightarrow> 'a validated \<times> nat \<Rightarrow> ('a \<times> nat) option" where
  "pick best (Inl e, n) = best"
| "pick None (Inr a, n) = Some (a, n)"
| "pick (Some (b, m)) (Inr a, n) = (if m < n then Some (a, n) else Some (b, m))"

definition smart_union :: "('a validated \<times> nat) list \<Rightarrow> 'a validated" where
  "smart_union members =
     (case foldl pick None members of
        Some (a, n) \<Rightarrow> Inr a
      | None \<Rightarrow> Inl (concat (map (\<lambda>m. errors_of (fst m)) members)))"

definition TaskNodeMetadataAPIResponse_fields :: "string list" where
  "TaskNodeMetadataAPIResponse_fields =
     [''code'', ''filepath'', ''parameters'', ''inputs'', ''outputs'', ''run_command'']"

definition DataNodeMetadataAPIResponse_fields :: "string list" where
  "DataNodeMetadataAPIResponse_fields =
     [''filepath'', ''type'', ''plot'', ''image'', ''tracking_data'', ''run_command'', ''preview'',
      ''stats'']"

definition TranscodedDataNodeMetadataAPIReponse_fields :: "string list" where
  "TranscodedDataNodeMetadataAPIReponse_fields =
     [''filepath'', ''original_type'', ''transcoded_types'', ''run_command'', ''stats'']"

definition ParametersNodeMetadataAPIResponse_fields :: "string list" where
  "ParametersNodeMetadataAPIResponse_fields = [''parameters'']"

datatype NodeMetadataAPIResponse =
    TaskNodeMetadata TaskNodeMetadataAPIResponse
  | DataNodeMetadata DataNodeMetadataAPIResponse
  | TranscodedDataNodeMetadata TranscodedDataNodeMetadataAPIReponse
  | ParametersNodeMetadata ParametersNodeMetadataAPIResponse

definition validate_NodeMetadataAPIResponse :: "string \<Rightarrow> pyval \<Rightarrow> NodeMetadataAPIResponse validated" where
  "validate_NodeMetadataAPIResponse loc v =
     smart_union
       [(ap (Inr TaskNodeMetadata) (validate_TaskNodeMetadataAPIResponse loc v),
         fields_set TaskNodeMetadataAPIResponse_fields v),
        (ap (Inr DataNodeMetadata) (validate_DataNodeMetadataAPIResponse loc v),
         fields_set DataNodeMetadataAPIResponse_fields v),
        (ap (Inr TranscodedDataNodeMetadata) (validate_TranscodedDataNodeMetadataAPIReponse loc v),
         fields_set TranscodedDataNodeMetadataAPIReponse_fields v),
        (ap (Inr ParametersNodeMetadata) (validate_ParametersNodeMetadataAPIResponse loc v),
         fields_set ParametersNodeMetadataAPIResponse_fields v)]"

subsection \<open>Flat graph nodes\<close>

record BaseGraphNodeAPIResponse =
  n_id :: string
  n_name :: string
  n_tags :: "string list"
  n_pipelines :: "string list"
  n_type :: string
  n_modular_pipelines :: "string list option"

record TaskNodeAPIResponse = BaseGraphNodeAPIResponse +
  tn_parameters :: pydict

record DataNodeAPIResponse = BaseGraphNodeAPIResponse +
  dn_layer :: "string option"
  dn_dataset_type :: "string option"
  dn_stats :: "pydict option"

definition new_TaskNodeAPIResponse :: "(string \<times> pyval) list \<Rightarrow> TaskNodeAPIResponse validated" where
  "new_TaskNodeAPIResponse kw =
     ap (ap (ap (ap (ap (ap (ap (Inr TaskNodeAPIResponse.make)
       (required kw ''id'' validate_str))
       (required kw ''name'' validate_str))
       (required kw ''tags'' (validate_List validate_str)))
       (required kw ''pipelines'' (validate_List validate_str)))
       (required kw ''type'' validate_str))
       (defaulted kw ''modular_pipelines'' (validate_Optional (validate_List validate_str)) None))
       (required kw ''parameters'' validate_Dict)"

definition new_DataNodeAPIResponse :: "(string \<times> pyval) list \<Rightarrow> DataNodeAPIResponse validated" where
  "new_DataNodeAPIResponse kw =
     ap (ap (ap (ap (ap (ap (ap (ap (ap (Inr DataNodeAPIResponse.make)
       (required kw ''id'' validate_str))
       (required kw ''name'' validate_str))
       (required kw ''tags'' (validate_List validate_str)))
       (required kw ''pipelines'' (validate_List validate_str)))
       (required kw ''type'' validate_str))
       (defaulted kw ''modular_pipelines'' (validate_Optional (validate_List validate_str)) None))
       (defaulted kw ''layer'' (validate_Optional validate_str) None))
       (defaulted kw ''dataset_type'' (validate_Optional validate_str) None))
       (defaulted kw ''stats'' (validate_Optional validate_Dict) None)"

definition TaskNodeAPIResponse_fields :: "string list" where
  "TaskNodeAPIResponse_fields =
     [''id'', ''name'', ''tags'', ''pipelines'', ''type'', ''modular_pipelines'', ''parameters'']"

definition DataNodeAPIResponse_fields :: "string list" where
  "DataNodeAPIResponse_fields =
     [''id'', ''name'', ''tags'', ''pipelines'', ''type'', ''modular_pipelines'', ''layer'',
      ''dataset_type'', ''stats'']"

datatype NodeAPIResponse =
    TaskNode TaskNodeAPIResponse
  | DataNode DataNodeAPIResponse

definition validate_NodeAPIResponse :: "string \<Rightarrow> pyval \<Rightarrow> NodeAPIResponse validated" where
  "validate_NodeAPIResponse loc v =
     smart_union
       [(ap (Inr TaskNode) (model_input loc v new_TaskNodeAPIResponse),
         fields_set TaskNodeAPIResponse_fields v),
        (ap (Inr DataNode) (model_input loc v new_DataNodeAPIResponse),
         fields_set DataNodeAPIResponse_fields v)]"

subsection \<open>Edges, named entities and the modular pipelines tree\<close>

record GraphEdgeAPIResponse =
  e_source :: string
  e_target :: string

definition new_GraphEdgeAPIResponse :: "(string \<times> pyval) list \<Rightarrow> GraphEdgeAPIResponse validated" where
  "new_GraphEdgeAPIResponse kw =
     ap (ap (Inr GraphEdgeAPIResponse.make)
       (required kw ''source'' validate_str))
       (required kw ''target'' validate_str)"

record NamedEntityAPIResponse =
  ne_id :: string
  ne_name :: "string option"

definition new_NamedEntityAPIResponse :: "(string \<times> pyval) list \<Rightarrow> NamedEntityAPIResponse validated" where
  "new_NamedEntityAPIResponse kw =
     ap (ap (Inr NamedEntityAPIResponse.make)
       (required kw ''id'' validate_str))
       (defaulted kw ''name'' (validate_Optional validate_str) None)"

record ModularPipelineChildAPIResponse =
  mc_id :: string
  mc_type :: string

definition new_ModularPipelineChildAPIResponse :: "(string \<times> pyval) list \<Rightarrow> ModularPipelineChildAPIResponse validated" where
  "new_ModularPipelineChildAPIResponse kw =
     ap (ap (Inr ModularPipelineChildAPIResponse.make)
       (required kw ''id'' validate_str))
       (required kw ''type'' validate_str)"

record ModularPipelinesTreeNodeAPIResponse =
  mt_id :: string
  mt_name :: string
  mt_inputs :: "string list"
  mt_outputs :: "string list"
  mt_children :: "ModularPipelineChildAPIResponse list"

definition new_ModularPipelinesTreeNodeAPIResponse :: "(string \<times> pyval) list \<Rightarrow> ModularPipelinesTreeNodeAPIResponse validated" where
  "new_ModularPipelinesTreeNodeAPIResponse kw =
     ap (ap (ap (ap (ap (Inr ModularPipelinesTreeNodeAPIResponse.make)
       (required kw ''id'' validate_str))
       (required kw ''name'' validate_str))
       (required kw ''inputs'' (validate_List validate_str)))
       (required kw ''outputs'' (validate_List validate_str)))
       (required kw ''children''
          (validate_List (\<lambda>loc v. model_input loc v new_ModularPipelineChildAPIResponse)))"

type_synonym ModularPipelinesTreeAPIResponse = "(string \<times> ModularPipelinesTreeNodeAPIResponse) list"

fun validate_tree_items :: "string \<Rightarrow> pydict \<Rightarrow> ModularPipelinesTreeAPIResponse validated" where
  "validate_tree_items loc [] = Inr []"
| "validate_tree_items loc ((k, v) # kvs) =
     ap (ap (Inr (#))
          (ap (ap (Inr Pair) (case k of KStr s \<Rightarrow> Inr s | _ \<Rightarrow> Inl [WrongType loc]))
              (model_input loc v new_ModularPipelinesTreeNodeAPIResponse)))
        (validate_tree_items loc kvs)"

fun validate_ModularPipelinesTreeAPIResponse :: "string \<Rightarrow> pyval \<Rightarrow> ModularPipelinesTreeAPIResponse validated" where
  "validate_ModularPipelinesTreeAPIResponse loc (PDict kvs) = validate_tree_items loc kvs"
| "validate_ModularPipelinesTreeAPIResponse loc _ = Inl [WrongType loc]"

subsection \<open>The graph response\<close>

record GraphAPIResponse =
  nodes :: "NodeAPIResponse list"
  edges :: "GraphEdgeAPIResponse list"
  layers :: "string list"
  tags :: "NamedEntityAPIResponse list"
  pipelines :: "NamedEntityAPIResponse list"
  modular_pipelines :: ModularPipelinesTreeAPIResponse
  selected_pipeline :: string

definition new_GraphAPIResponse :: "(string \<times> pyval) list \<Rightarrow> GraphAPIResponse validated" where
  "new_GraphAPIResponse kw =
     ap (ap (ap (ap (ap (ap (ap (Inr GraphAPIResponse.make)
       (required kw ''nodes'' (validate_List validate_NodeAPIResponse)))
       (required kw ''edges''
          (validate_List (\<lambda>loc v. model_input loc v new_GraphEdgeAPIResponse))))
       (required kw ''layers'' (validate_List validate_str)))
       (required kw ''tags''
          (validate_List (\<lambda>loc v. model_input loc v new_NamedEntityAPIResponse))))
       (required kw ''pipelines''
          (validate_List (\<lambda>loc v. model_input loc v new_NamedEntityAPIResponse))))
       (required kw ''modular_pipelines'' validate_ModularPipelinesTreeAPIResponse))
       (required kw ''selected_pipeline'' validate_str)"

section \<open>Assembling the default response\<close>

text \<open>
  \<^verbatim>\<open>get_default_response\<close> reads everything from the module-level
  \<^verbatim>\<open>data_access_manager\<close>, which lives outside this module. It is a parameter here: a
  record of the queries the function calls, each of which returns a Python value or
  raises. The queries read the index and do not change it.
\<close>

record data_access_manager =
  get_default_selected_pipeline :: "error + pyval"
  create_modular_pipelines_tree_for_registered_pipeline :: "pyval \<Rightarrow> error + pyval"
  get_nodes_for_registered_pipeline :: "pyval \<Rightarrow> error + pyval"
  get_edges_for_registered_pipeline :: "pyval \<Rightarrow> error + pyval"
  tags_as_list :: "error + pyval"
  get_sorted_layers_for_registered_pipeline :: "pyval \<Rightarrow> error + pyval"
  registered_pipelines_as_list :: "error + pyval"

fun getattr :: "pyval \<Rightarrow> string \<Rightarrow> error + pyval" where
  "getattr (PObject attrs) a =
     (case map_of attrs a of None \<Rightarrow> Inl (AttributeError a) | Some v \<Rightarrow> Inr v)"
| "getattr _ a = Inl (AttributeError a)"

definition and_then :: "error + 'a \<Rightarrow> ('a \<Rightarrow> error + 'b) \<Rightarrow> error + 'b" where
  "and_then r k = (case r of Inl e \<Rightarrow> Inl e | Inr a \<Rightarrow> k a)"

definition construct :: "'a validated \<Rightarrow> error + 'a" where
  "construct r = (case r of Inl errs \<Rightarrow> Inl (ValidationError errs) | Inr a \<Rightarrow> Inr a)"

definition get_default_response :: "data_access_manager \<Rightarrow> error + GraphAPIResponse" where
  "get_default_response dam =
     and_then (get_default_selected_pipeline dam) (\<lambda>default_pipeline.
     and_then (getattr default_pipeline ''id'') (\<lambda>default_selected_pipeline_id.
     and_then (create_modular_pipelines_tree_for_registered_pipeline dam default_selected_pipeline_id)
       (\<lambda>modular_pipelines_tree.
     and_then (get_nodes_for_registered_pipeline dam default_selected_pipeline_id) (\<lambda>ns.
     and_then (get_edges_for_registered_pipeline dam default_selected_pipeline_id) (\<lambda>es.
     and_then (tags_as_list dam) (\<lambda>ts.
     and_then (get_sorted_layers_for_registered_pipeline dam default_selected_pipeline_id) (\<lambda>ls.
     and_then (registered_pipelines_as_list dam) (\<lambda>ps.
       construct (new_GraphAPIResponse
         [(''nodes'', ns), (''edges'', es), (''tags'', ts), (''layers'', ls),
          (''pipelines'', ps), (''modular_pipelines'', modular_pipelines_tree),
          (''selected_pipeline'', default_selected_pipeline_id)])))))))))"

section \<open>A response for a selected pipeline\<close>

text \<open>
  Modelled from the spec: the assembly of a response for a pipeline id that the caller
  selects is not part of this module, which has the default case only. The specification
  gives its contract: given a selected pipeline id, defaulting to the designated default
  pipeline of the index when absent, pull nodes, edges, layers, tags and registered
  pipelines from the index, build the tree and assemble one response; an id that does not
  exist in the index is a not-found error. The registered pipelines of the index are the
  ones \<^verbatim>\<open>registered_pipelines_as_list\<close> gives, and the queries and the constructor call
  are those of \<^verbatim>\<open>get_default_response\<close>, for the selected id.
\<close>

definition registered_pipeline_ids :: "data_access_manager \<Rightarrow> error + string list" where
  "registered_pipeline_ids dam =
     and_then (registered_pipelines_as_list dam) (\<lambda>ps.
       construct (ap (Inr (map ne_id))
         (validate_List (\<lambda>loc v. model_input loc v new_NamedEntityAPIResponse) ''pipelines'' ps)))"

definition assemble_response :: "data_access_manager \<Rightarrow> pyval \<Rightarrow> error + GraphAPIResponse" where
  "assemble_response dam pipeline_id =
     and_then (create_modular_pipelines_tree_for_registered_pipeline dam pipeline_id)
       (\<lambda>modular_pipelines_tree.
     and_then (get_nodes_for_registered_pipeline dam pipeline_id) (\<lambda>ns.
     and_then (get_edges_for_registered_pipeline dam pipeline_id) (\<lambda>es.
     and_then (tags_as_list dam) (\<lambda>ts.
     and_then (get_sorted_layers_for_registered_pipeline dam pipeline_id) (\<lambda>ls.
     and_then (registered_pipelines_as_list dam) (\<lambda>ps.
       construct (new_GraphAPIResponse
         [(''nodes'', ns), (''edges'', es), (''tags'', ts), (''layers'', ls),
          (''pipelines'', ps), (''modular_pipelines'', modular_pipelines_tree),
          (''selected_pipeline'', pipeline_id)])))))))"

definition get_selected_pipeline_response ::
  "data_access_manager \<Rightarrow> string option \<Rightarrow> error + GraphAPIResponse" where
  "get_selected_pipeline_response dam selected =
     (case selected of
        None \<Rightarrow> get_default_response dam
      | Some i \<Rightarrow>
          and_then (registered_pipeline_ids dam) (\<lambda>ids.
            if i \<in> set ids then assemble_response dam (PStr i) else Inl (NotFound i)))"

section \<open>Plain data of a response\<close>

text \<open>
  Before a response is encoded it is turned into plain data: a dictionary with one entry
  for every declared field, in the order of declaration (the fields of the base class
  first), where a field that is \<^verbatim>\<open>None\<close> stays in the dictionary.
\<close>

definition dump_strs :: "string list \<Rightarrow> pyval" where
  "dump_strs xs = PList (map PStr xs)"

fun dump_Optional :: "('a \<Rightarrow> pyval) \<Rightarrow> 'a option \<Rightarrow> pyval" where
  "dump_Optional f None = PNone"
| "dump_Optional f (Some x) = f x"

definition model_dump_TaskNodeAPIResponse :: "TaskNodeAPIResponse \<Rightarrow> pyval" where
  "model_dump_TaskNodeAPIResponse t = PDict
     [(KStr ''id'', PStr (n_id t)),
      (KStr ''name'', PStr (n_name t)),
      (KStr ''tags'', dump_strs (n_tags t)),
      (KStr ''pipelines'', dump_strs (n_pipelines t)),
      (KStr ''type'', PStr (n_type t)),
      (KStr ''modular_pipelines'', dump_Optional dump_strs (n_modular_pipelines t)),
      (KStr ''parameters'', PDict (tn_parameters t))]"

definition model_dump_DataNodeAPIResponse :: "DataNodeAPIResponse \<Rightarrow> pyval" where
  "model_dump_DataNodeAPIResponse d = PDict
     [(KStr ''id'', PStr (n_id d)),
      (KStr ''name'', PStr (n_name d)),
      (KStr ''tags'', dump_strs (n_tags d)),
      (KStr ''pipelines'', dump_strs (n_pipelines d)),
      (KStr ''type'', PStr (n_type d)),
      (KStr ''modular_pipelines'', dump_Optional dump_strs (n_modular_pipelines d)),
      (KStr ''layer'', dump_Optional PStr (dn_layer d)),
      (KStr ''dataset_type'', dump_Optional PStr (dn_dataset_type d)),
      (KStr ''stats'', dump_Optional PDict (dn_stats d))]"

fun model_dump_NodeAPIResponse :: "NodeAPIResponse \<Rightarrow> pyval" where
  "model_dump_NodeAPIResponse (TaskNode t) = model_dump_TaskNodeAPIResponse t"
| "model_dump_NodeAPIResponse (DataNode d) = model_dump_DataNodeAPIResponse d"

definition model_dump_GraphEdgeAPIResponse :: "GraphEdgeAPIResponse \<Rightarrow> pyval" where
  "model_dump_GraphEdgeAPIResponse e = PDict
     [(KStr ''source'', PStr (e_source e)), (KStr ''target'', PStr (e_target e))]"

definition model_dump_NamedEntityAPIResponse :: "NamedEntityAPIResponse \<Rightarrow> pyval" where
  "model_dump_NamedEntityAPIResponse x = PDict
     [(KStr ''id'', PStr (ne_id x)), (KStr ''name'', dump_Optional PStr (ne_name x))]"

definition model_dump_ModularPipelineChildAPIResponse :: "ModularPipelineChildAPIResponse \<Rightarrow> pyval" where
  "model_dump_ModularPipelineChildAPIResponse c = PDict
     [(KStr ''id'', PStr (mc_id c)), (KStr ''type'', PStr (mc_type c))]"

definition model_dump_ModularPipelinesTreeNodeAPIResponse :: "ModularPipelinesTreeNodeAPIResponse \<Rightarrow> pyval" where
  "model_dump_ModularPipelinesTreeNodeAPIResponse m = PDict
     [(KStr ''id'', PStr (mt_id m)),
      (KStr ''name'', PStr (mt_name m)),
      (KStr ''inputs'', dump_strs (mt_inputs m)),
      (KStr ''outputs'', dump_strs (mt_outputs m)),
      (KStr ''children'', PList (map model_dump_ModularPipelineChildAPIResponse (mt_children m)))]"

definition model_dump_ModularPipelinesTreeAPIResponse :: "ModularPipelinesTreeAPIResponse \<Rightarrow> pyval" where
  "model_dump_ModularPipelinesTreeAPIResponse t =
     PDict (map (\<lambda>(k, m). (KStr k, model_dump_ModularPipelinesTreeNodeAPIResponse m)) t)"

definition model_dump_GraphAPIResponse :: "GraphAPIResponse \<Rightarrow> pyval" where
  "model_dump_GraphAPIResponse g = PDict
     [(KStr ''nodes'', PList (map model_dump_NodeAPIResponse (nodes g))),
      (KStr ''edges'', PList (map model_dump_GraphEdgeAPIResponse (edges g))),
      (KStr ''layers'', dump_strs (layers g)),
      (KStr ''tags'', PList (map model_dump_NamedEntityAPIResponse (tags g))),
      (KStr ''pipelines'', PList (map model_dump_NamedEntityAPIResponse (pipelines g))),
      (KStr ''modular_pipelines'', model_dump_ModularPipelinesTreeAPIResponse (modular_pipelines g)),
      (KStr ''selected_pipeline'', PStr (selected_pipeline g))]"

section \<open>Example indexes\<close>

text \<open>
  A small index: the pipeline \<^verbatim>\<open>__default__\<close> with a task node \<^verbatim>\<open>A\<close>, a data node
  \<^verbatim>\<open>B\<close>, the edge between them and no modular pipelines. The queries answer for the
  registered pipeline and return nothing for any other id.
\<close>

definition example_task_node :: pyval where
  "example_task_node = PObject
     [(''id'', PStr ''A''), (''name'', PStr ''split_data_node''), (''type'', PStr ''task''),
      (''tags'', PList []), (''pipelines'', PList [PStr ''__default__'']),
      (''modular_pipelines'', PList []),
      (''parameters'', PDict [(KStr ''random_state'', PInt 3)])]"

definition example_data_node :: pyval where
  "example_data_node = PObject
     [(''id'', PStr ''B''), (''name'', PStr ''master_table''), (''type'', PStr ''data''),
      (''tags'', PList []), (''pipelines'', PList [PStr ''__default__'']),
      (''modular_pipelines'', PList []),
      (''layer'', PStr ''primary''), (''dataset_type'', PNone), (''stats'', PNone)]"

definition example_tree :: pyval where
  "example_tree = PDict
     [(KStr ''__root__'', PObject
        [(''id'', PStr ''__root__''), (''name'', PStr ''__root__''),
         (''inputs'', PList []), (''outputs'', PList []),
         (''children'', PList
            [PObject [(''id'', PStr ''A''), (''type'', PStr ''task'')],
             PObject [(''id'', PStr ''B''), (''type'', PStr ''data'')]])])]"

definition example_index :: data_access_manager where
  "example_index =
     \<lparr>get_default_selected_pipeline =
        Inr (PObject [(''id'', PStr ''__default__''), (''name'', PStr ''__default__'')]),
      create_modular_pipelines_tree_for_registered_pipeline =
        (\<lambda>i. Inr (if i = PStr ''__default__'' then example_tree else PDict [])),
      get_nodes_for_registered_pipeline =
        (\<lambda>i. Inr (if i = PStr ''__default__'' then PList [example_task_node, example_data_node]
                    else PList [])),
      get_edges_for_registered_pipeline =
        (\<lambda>i. Inr (if i = PStr ''__default__''
                    then PList [PObject [(''source'', PStr ''A''), (''target'', PStr ''B'')]]
                    else PList [])),
      tags_as_list = Inr (PList []),
      get_sorted_layers_for_registered_pipeline =
        (\<lambda>i. Inr (if i = PStr ''__default__'' then PList [PStr ''primary''] else PList [])),
      registered_pipelines_as_list =
        Inr (PList [PObject [(''id'', PStr ''__default__''), (''name'', PStr ''__default__'')]])\<rparr>"

definition example_response :: GraphAPIResponse where
  "example_response =
     \<lparr>nodes =
        [TaskNode \<lparr>n_id = ''A'', n_name = ''split_data_node'', n_tags = [],
                    n_pipelines = [''__default__''], n_type = ''task'',
                    n_modular_pipelines = Some [],
                    tn_parameters = [(KStr ''random_state'', PInt 3)]\<rparr>,
         DataNode \<lparr>n_id = ''B'', n_name = ''master_table'', n_tags = [],
                    n_pipelines = [''__default__''], n_type = ''data'',
                    n_modular_pipelines = Some [],
                    dn_layer = Some ''primary'', dn_dataset_type = None, dn_stats = None\<rparr>],
      edges = [\<lparr>e_source = ''A'', e_target = ''B''\<rparr>],
      layers = [''primary''],
      tags = [],
      pipelines = [\<lparr>ne_id = ''__default__'', ne_name = Some ''__default__''\<rparr>],
      modular_pipelines =
        [(''__root__'', \<lparr>mt_id = ''__root__'', mt_name = ''__root__'', mt_inputs = [],
                          mt_outputs = [],
                          mt_children = [\<lparr>mc_id = ''A'', mc_type = ''task''\<rparr>,
                                         \<lparr>mc_id = ''B'', mc_type = ''data''\<rparr>]\<rparr>)],
      selected_pipeline = ''__default__''\<rparr>"

section \<open>Metadata of a dataset\<close>

text \<open>
  Modelled from the spec: the function that chooses the metadata variant of a dataset
  is not part of this module. The specification gives its rule: a dataset registered
  under more than one concrete read-back type is described by the transcoded fields
  (\<^verbatim>\<open>filepath\<close>, \<^verbatim>\<open>original_type\<close>, \<^verbatim>\<open>transcoded_types\<close>, \<^verbatim>\<open>run_command\<close>,
  \<^verbatim>\<open>stats\<close>), a dataset with one type by the plain data fields (\<^verbatim>\<open>filepath\<close>,
  \<^verbatim>\<open>type\<close>, \<^verbatim>\<open>run_command\<close>, \<^verbatim>\<open>stats\<close>). The object it returns is then validated
  against \<^verbatim>\<open>NodeMetadataAPIResponse\<close>.
\<close>

record dataset =
  ds_filepath :: string
  ds_original_type :: string
  ds_types :: "string list"
  ds_run_command :: "string option"
  ds_stats :: "pydict option"

definition dataset_metadata :: "dataset \<Rightarrow> pyval option" where
  "dataset_metadata ds =
     (case ds_types ds of
        [] \<Rightarrow> None
      | [t] \<Rightarrow> Some (PObject
          [(''filepath'', PStr (ds_filepath ds)),
           (''type'', PStr t),
           (''run_command'', dump_Optional PStr (ds_run_command ds)),
           (''stats'', dump_Optional PDict (ds_stats ds))])
      | _ \<Rightarrow> Some (PObject
          [(''filepath'', PStr (ds_filepath ds)),
           (''original_type'', PStr (ds_original_type ds)),
           (''transcoded_types'', dump_strs (ds_types ds)),
           (''run_command'', dump_Optional PStr (ds_run_command ds)),
           (''stats'', dump_Optional PDict (ds_stats ds))]))"

definition dataset_metadata_response :: "dataset \<Rightarrow> (NodeMetadataAPIResponse validated) option" where
  "dataset_metadata_response ds =
     map_option (validate_NodeMetadataAPIResponse ''response'') (dataset_metadata ds)"

definition example_dataset :: dataset where
  "example_dataset =
     \<lparr>ds_filepath = ''data/01_raw/cars.csv'', ds_original_type = ''spark.SparkDataSet'',
      ds_types = [''pandas.ParquetDataSet'', ''spark.SparkDataSet''],
      ds_run_command = None, ds_stats = None\<rparr>"

definition failing_index :: data_access_manager where
  "failing_index =
     example_index\<lparr>get_nodes_for_registered_pipeline := (\<lambda>i. Inl (Raised ''KeyError''))\<rparr>"

definition example_parameters_node :: "(string \<times> pyval) list" where
  "example_parameters_node =
     [(''id'', PStr ''f1f1425b''), (''name'', PStr ''params:model_options''),
      (''type'', PStr ''parameters''), (''tags'', PList []),
      (''pipelines'', PList [PStr ''__default__'']),
      (''modular_pipelines'', PList []), (''layer'', PNone)]"

definition example_hybrid_node :: "(string \<times> pyval) list" where
  "example_hybrid_node =
     [(''id'', PStr ''C''), (''name'', PStr ''both''), (''type'', PStr ''task''),
      (''tags'', PList []), (''pipelines'', PList [PStr ''__default__'']),
      (''modular_pipelines'', PList []), (''parameters'', PDict []),
      (''layer'', PStr ''raw''), (''dataset_type'', PNone), (''stats'', PNone)]"

definition example_task_metadata :: "(string \<times> pyval) list" where
  "example_task_metadata =
     [(''code'', PStr ''def split_data(data): ...''), (''filepath'', PStr ''src/nodes.py''),
      (''parameters'', PDict [(KStr ''test_size'', PInt 2)]),
      (''inputs'', PList [PStr ''model_input_table'']),
      (''outputs'', PList [PStr ''X_train'', PStr ''X_test'']),
      (''run_command'', PStr ''kedro run --to-nodes=split_data_node'')]"

definition example_data_metadata :: "(string \<times> pyval) list" where
  "example_data_metadata =
     [(''filepath'', PStr ''data/01_raw/companies.csv''), (''type'', PStr ''pandas.CSVDataSet''),
      (''plot'', PNone), (''image'', PNone), (''tracking_data'', PNone),
      (''run_command'', PStr ''kedro run --to-outputs=companies''), (''preview'', PNone),
      (''stats'', PDict [(KStr ''rows'', PInt 29768)])]"

definition example_transcoded_metadata :: "(string \<times> pyval) list" where
  "example_transcoded_metadata =
     [(''filepath'', PStr ''data/01_raw/cars.pq''), (''original_type'', PStr ''spark.SparkDataSet''),
      (''transcoded_types'', PList [PStr ''pandas.ParquetDataSet'', PStr ''spark.SparkDataSet'']),
      (''run_command'', PNone), (''stats'', PNone)]"

definition dumped_field :: "pyval \<Rightarrow> string \<Rightarrow> pyval option" where
  "dumped_field v name = (case fields_of v of None \<Rightarrow> None | Some kw \<Rightarrow> map_of kw name)"

definition dumped_names :: "pyval \<Rightarrow> string list" where
  "dumped_names v = (case fields_of v of None \<Rightarrow> [] | Some kw \<Rightarrow> map fst kw)"



section \<open>Encoding with orjson\<close>

text \<open>
  \<^verbatim>\<open>encode_to_human_readable\<close> is one call of \<^verbatim>\<open>orjson.dumps\<close> with three options.
  The library is modelled on the values of the universe above, as its documentation
  describes it: options are bits of an integer; \<^verbatim>\<open>None\<close>, booleans, strings, lists and
  dictionaries are written as JSON; an integer must fit in 64 bits; a dictionary key that
  is not a string is an error unless \<^verbatim>\<open>OPT_NON_STR_KEYS\<close> is set, and then \<^verbatim>\<open>None\<close>,
  booleans and integers are written as strings while other keys are rejected; a numpy
  array is an error unless \<^verbatim>\<open>OPT_SERIALIZE_NUMPY\<close> is set; an instance of another class
  is not serializable; containers nested deeper than the recursion limit are rejected.
  Dictionary entries are written in the order of the dictionary unless
  \<^verbatim>\<open>OPT_SORT_KEYS\<close> is set. With \<^verbatim>\<open>OPT_INDENT_2\<close> every element of a non-empty
  container starts on a line of its own, indented by two spaces per level of nesting, and
  a key is followed by a colon and a space; without it nothing is inserted.
\<close>

definition OPT_INDENT_2 :: int where "OPT_INDENT_2 = 1"
definition OPT_NON_STR_KEYS :: int where "OPT_NON_STR_KEYS = 4"
definition OPT_SERIALIZE_NUMPY :: int where "OPT_SERIALIZE_NUMPY = 16"
definition OPT_SORT_KEYS :: int where "OPT_SORT_KEYS = 32"

definition has_opt :: "int \<Rightarrow> int \<Rightarrow> bool" where
  "has_opt option flag = (option AND flag \<noteq> 0)"

definition RECURSION_LIMIT :: nat where "RECURSION_LIMIT = 254"

definition in64 :: "int \<Rightarrow> bool" where
  "in64 i = (- (2 ^ 63) \<le> i \<and> i < 2 ^ 64)"

definition digit_char :: "nat \<Rightarrow> char" where
  "digit_char n = char_of (48 + n)"

function dec :: "nat \<Rightarrow> string" where
  "dec n = (if n < 10 then [digit_char n] else dec (n div 10) @ [digit_char (n mod 10)])"
  by pat_completeness auto
termination
  by (relation "measure id") auto

declare dec.simps [simp del]

definition show_int :: "int \<Rightarrow> string" where
  "show_int i = (if i < 0 then CHR ''-'' # dec (nat (- i)) else dec (nat i))"

definition hex_char :: "nat \<Rightarrow> char" where
  "hex_char n = (if n < 10 then char_of (48 + n) else char_of (87 + n))"

definition escape_char :: "char \<Rightarrow> string" where
  "escape_char c =
     (if c = CHR 0x22 then [CHR 0x5C, CHR 0x22]
      else if c = CHR 0x5C then [CHR 0x5C, CHR 0x5C]
      else if c = CHR 0x08 then [CHR 0x5C, CHR ''b'']
      else if c = CHR 0x09 then [CHR 0x5C, CHR ''t'']
      else if c = CHR 0x0A then [CHR 0x5C, CHR ''n'']
      else if c = CHR 0x0C then [CHR 0x5C, CHR ''f'']
      else if c = CHR 0x0D then [CHR 0x5C, CHR ''r'']
      else if (of_char c :: nat) < 32
        then [CHR 0x5C, CHR ''u'', CHR ''0'', CHR ''0'',
              hex_char (of_char c div 16), hex_char (of_char c mod 16)]
      else [c])"

definition quote :: "string \<Rightarrow> string" where
  "quote s = CHR 0x22 # concat (map escape_char s) @ [CHR 0x22]"

definition nl :: "nat \<Rightarrow> string" where
  "nl d = CHR 0x0A # replicate (2 * d) (CHR '' '')"

fun join_items :: "string \<Rightarrow> string list \<Rightarrow> string" where
  "join_items sep [] = []"
| "join_items sep [x] = x"
| "join_items sep (x # y # ys) = x @ CHR '','' # sep @ join_items sep (y # ys)"

definition container :: "bool \<Rightarrow> nat \<Rightarrow> char \<Rightarrow> char \<Rightarrow> string list \<Rightarrow> string" where
  "container pretty d l r items =
     (if items = [] then [l, r]
      else if pretty then l # nl (Suc d) @ join_items (nl (Suc d)) items @ nl d @ [r]
      else l # join_items [] items @ [r])"

fun key_text :: "pykey \<Rightarrow> string" where
  "key_text KNone = ''null''"
| "key_text (KBool b) = (if b then ''true'' else ''false'')"
| "key_text (KInt i) = show_int i"
| "key_text (KStr s) = s"
| "key_text (KTuple ks) = []"

fun dumps_key :: "int \<Rightarrow> pykey \<Rightarrow> encode_error + string" where
  "dumps_key opt (KStr s) = Inr s"
| "dumps_key opt k =
     (if \<not> has_opt opt OPT_NON_STR_KEYS then Inl DictKeyNotStr
      else case k of
        KInt i \<Rightarrow> if in64 i then Inr (key_text k) else Inl IntegerExceeds64
      | KTuple ks \<Rightarrow> Inl DictKeyUnsupported
      | _ \<Rightarrow> Inr (key_text k))"

fun str_le :: "string \<Rightarrow> string \<Rightarrow> bool" where
  "str_le [] ys = True"
| "str_le (x # xs) [] = False"
| "str_le (x # xs) (y # ys) =
     ((of_char x :: nat) < of_char y \<or> (x = y \<and> str_le xs ys))"

fun insert_by_key :: "string \<times> string \<Rightarrow> (string \<times> string) list \<Rightarrow> (string \<times> string) list" where
  "insert_by_key p [] = [p]"
| "insert_by_key p (q # qs) = (if str_le (fst p) (fst q) then p # q # qs else q # insert_by_key p qs)"

definition sort_by_key :: "(string \<times> string) list \<Rightarrow> (string \<times> string) list" where
  "sort_by_key ps = foldr insert_by_key ps []"

definition member :: "bool \<Rightarrow> string \<times> string \<Rightarrow> string" where
  "member pretty p = quote (fst p) @ (if pretty then '': '' else '':'') @ snd p"

fun dumps_nd :: "bool \<Rightarrow> nat \<Rightarrow> ndarray \<Rightarrow> string" where
  "dumps_nd pretty d (Scalar w) = show_int (sint w)"
| "dumps_nd pretty d (Axis xs) =
     container pretty d (CHR ''['') (CHR '']'') (map (dumps_nd pretty (Suc d)) xs)"

fun tolist :: "ndarray \<Rightarrow> pyval" where
  "tolist (Scalar w) = PInt (sint w)"
| "tolist (Axis xs) = PList (map tolist xs)"

fun dumps_val :: "int \<Rightarrow> nat \<Rightarrow> pyval \<Rightarrow> encode_error + string"
  and dumps_list :: "int \<Rightarrow> nat \<Rightarrow> pyval list \<Rightarrow> encode_error + string list"
  and dumps_dict :: "int \<Rightarrow> nat \<Rightarrow> (pykey \<times> pyval) list \<Rightarrow> encode_error + (string \<times> string) list"
where
  "dumps_val opt d PNone = Inr ''null''"
| "dumps_val opt d (PBool b) = Inr (if b then ''true'' else ''false'')"
| "dumps_val opt d (PInt i) = (if in64 i then Inr (show_int i) else Inl IntegerExceeds64)"
| "dumps_val opt d (PStr s) = Inr (quote s)"
| "dumps_val opt d (PList xs) =
     (if RECURSION_LIMIT \<le> d then Inl RecursionLimit
      else case dumps_list opt (Suc d) xs of
        Inl e \<Rightarrow> Inl e
      | Inr items \<Rightarrow> Inr (container (has_opt opt OPT_INDENT_2) d (CHR ''['') (CHR '']'') items))"
| "dumps_val opt d (PDict kvs) =
     (if RECURSION_LIMIT \<le> d then Inl RecursionLimit
      else case dumps_dict opt (Suc d) kvs of
        Inl e \<Rightarrow> Inl e
      | Inr ms \<Rightarrow> Inr (container (has_opt opt OPT_INDENT_2) d (CHR ''{'') (CHR ''}'')
          (map (member (has_opt opt OPT_INDENT_2))
             (if has_opt opt OPT_SORT_KEYS then sort_by_key ms else ms))))"
| "dumps_val opt d (PNdarray a) =
     (if has_opt opt OPT_SERIALIZE_NUMPY then Inr (dumps_nd (has_opt opt OPT_INDENT_2) d a)
      else Inl TypeNotSerializable)"
| "dumps_val opt d (PObject attrs) = Inl TypeNotSerializable"
| "dumps_list opt d [] = Inr []"
| "dumps_list opt d (x # xs) =
     (case dumps_val opt d x of
        Inl e \<Rightarrow> Inl e
      | Inr s \<Rightarrow> (case dumps_list opt d xs of Inl e \<Rightarrow> Inl e | Inr ss \<Rightarrow> Inr (s # ss)))"
| "dumps_dict opt d [] = Inr []"
| "dumps_dict opt d (kv # kvs) =
     (case dumps_key opt (fst kv) of
        Inl e \<Rightarrow> Inl e
      | Inr k \<Rightarrow> (case dumps_val opt d (snd kv) of
          Inl e \<Rightarrow> Inl e
        | Inr s \<Rightarrow> (case dumps_dict opt d kvs of Inl e \<Rightarrow> Inl e | Inr ms \<Rightarrow> Inr ((k, s) # ms))))"

definition orjson_dumps :: "pyval \<Rightarrow> int \<Rightarrow> error + string" where
  "orjson_dumps content option =
     (case dumps_val option 0 content of Inl e \<Rightarrow> Inl (JSONEncodeError e) | Inr s \<Rightarrow> Inr s)"

definition encode_to_human_readable :: "pyval \<Rightarrow> error + string" where
  "encode_to_human_readable content =
     orjson_dumps content (OPT_INDENT_2 OR OPT_NON_STR_KEYS OR OPT_SERIALIZE_NUMPY)"


section \<open>Decoding JSON\<close>

text \<open>
  The module has no decoder. Where the specification speaks of decoding the encoder's
  output, it is read as parsing the JSON text the way \<^verbatim>\<open>json.loads\<close> does: literals,
  integers, strings with their escapes, arrays, and objects, whose keys are strings and of
  which a repeated key keeps its first position and its last value. Numbers with a
  fraction or an exponent and \<^verbatim>\<open>\u\<close> escapes beyond ASCII are not covered and give
  \<open>None\<close>. The parser is driven by a counter that every call decreases; \<open>decode\<close> starts
  it at the length of the text, which is always enough.
\<close>

definition is_ws :: "char \<Rightarrow> bool" where
  "is_ws c = (c = CHR '' '' \<or> c = CHR 0x0A \<or> c = CHR 0x0D \<or> c = CHR 0x09)"

definition is_digit :: "char \<Rightarrow> bool" where
  "is_digit c = (48 \<le> (of_char c :: nat) \<and> (of_char c :: nat) \<le> 57)"

definition skip_ws :: "string \<Rightarrow> string" where
  "skip_ws s = dropWhile is_ws s"

definition digits_val :: "string \<Rightarrow> nat" where
  "digits_val ds = foldl (\<lambda>acc c. 10 * acc + (of_char c - 48)) 0 ds"

definition parse_number :: "string \<Rightarrow> (int \<times> string) option" where
  "parse_number s =
     (let neg = (s \<noteq> [] \<and> hd s = CHR ''-'');
          body = (if neg then tl s else s);
          ds = takeWhile is_digit body;
          rest = dropWhile is_digit body
      in if ds = [] \<or> (1 < length ds \<and> hd ds = CHR ''0'') \<or>
            (rest \<noteq> [] \<and> hd rest \<in> {CHR ''.'', CHR ''e'', CHR ''E''})
         then None
         else Some (if neg then - int (digits_val ds) else int (digits_val ds), rest))"

definition hex_val :: "char \<Rightarrow> nat option" where
  "hex_val c =
     (let n = (of_char c :: nat)
      in if 48 \<le> n \<and> n \<le> 57 then Some (n - 48)
         else if 97 \<le> n \<and> n \<le> 102 then Some (n - 87)
         else if 65 \<le> n \<and> n \<le> 70 then Some (n - 55)
         else None)"

definition unescape :: "char \<Rightarrow> char option" where
  "unescape e =
     (if e = CHR 0x22 then Some (CHR 0x22)
      else if e = CHR 0x5C then Some (CHR 0x5C)
      else if e = CHR ''/'' then Some (CHR ''/'')
      else if e = CHR ''b'' then Some (CHR 0x08)
      else if e = CHR ''t'' then Some (CHR 0x09)
      else if e = CHR ''n'' then Some (CHR 0x0A)
      else if e = CHR ''f'' then Some (CHR 0x0C)
      else if e = CHR ''r'' then Some (CHR 0x0D)
      else None)"

definition unicode_escape :: "string \<Rightarrow> char option" where
  "unicode_escape hs =
     (case map hex_val hs of
        [Some a, Some b, Some c, Some d] \<Rightarrow>
          if a = 0 \<and> b = 0 \<and> c < 8 then Some (char_of (16 * c + d)) else None
      | _ \<Rightarrow> None)"

fun parse_chars :: "string \<Rightarrow> (string \<times> string) option" where
  "parse_chars [] = None"
| "parse_chars (c # cs) =
     (if c = CHR 0x22 then Some ([], cs)
      else if c = CHR 0x5C then
        (case cs of
           [] \<Rightarrow> None
         | e # cs' \<Rightarrow>
             if e = CHR ''u'' then
               (case unicode_escape (take 4 cs') of
                  None \<Rightarrow> None
                | Some ch \<Rightarrow> map_option (\<lambda>(t, r). (ch # t, r)) (parse_chars (drop 4 cs')))
             else
               (case unescape e of
                  None \<Rightarrow> None
                | Some ch \<Rightarrow> map_option (\<lambda>(t, r). (ch # t, r)) (parse_chars cs')))
      else if (of_char c :: nat) < 32 then None
      else map_option (\<lambda>(t, r). (c # t, r)) (parse_chars cs))"

definition literal :: "string \<Rightarrow> pyval \<Rightarrow> string \<Rightarrow> (pyval \<times> string) option" where
  "literal w v s = (if take (length w) s = w then Some (v, drop (length w) s) else None)"

fun dict_set :: "pydict \<Rightarrow> pykey \<Rightarrow> pyval \<Rightarrow> pydict" where
  "dict_set [] k v = [(k, v)]"
| "dict_set (p # ps) k v = (if fst p = k then (k, v) # ps else p # dict_set ps k v)"

definition dict_of_pairs :: "(string \<times> pyval) list \<Rightarrow> pydict" where
  "dict_of_pairs ps = foldl (\<lambda>acc p. dict_set acc (KStr (fst p)) (snd p)) [] ps"

fun parse_value :: "nat \<Rightarrow> string \<Rightarrow> (pyval \<times> string) option"
  and parse_elems :: "nat \<Rightarrow> string \<Rightarrow> (pyval list \<times> string) option"
  and parse_members :: "nat \<Rightarrow> string \<Rightarrow> ((string \<times> pyval) list \<times> string) option"
where
  "parse_value 0 s = None"
| "parse_value (Suc n) s =
     (case skip_ws s of
        [] \<Rightarrow> None
      | c # cs \<Rightarrow>
          if c = CHR ''n'' then literal ''null'' PNone (c # cs)
          else if c = CHR ''t'' then literal ''true'' (PBool True) (c # cs)
          else if c = CHR ''f'' then literal ''false'' (PBool False) (c # cs)
          else if c = CHR 0x22 then map_option (\<lambda>(t, r). (PStr t, r)) (parse_chars cs)
          else if c = CHR ''-'' \<or> is_digit c then
            map_option (\<lambda>(i, r). (PInt i, r)) (parse_number (c # cs))
          else if c = CHR ''['' then
            (case skip_ws cs of
               [] \<Rightarrow> None
             | c' # cs' \<Rightarrow>
                 if c' = CHR '']'' then Some (PList [], cs')
                 else map_option (\<lambda>(vs, r). (PList vs, r)) (parse_elems n cs))
          else if c = CHR ''{'' then
            (case skip_ws cs of
               [] \<Rightarrow> None
             | c' # cs' \<Rightarrow>
                 if c' = CHR ''}'' then Some (PDict [], cs')
                 else map_option (\<lambda>(ps, r). (PDict (dict_of_pairs ps), r)) (parse_members n cs))
          else None)"
| "parse_elems 0 s = None"
| "parse_elems (Suc n) s =
     (case parse_value n s of
        None \<Rightarrow> None
      | Some (v, rest) \<Rightarrow>
          (case skip_ws rest of
             [] \<Rightarrow> None
           | c # cs \<Rightarrow>
               if c = CHR '','' then map_option (\<lambda>(vs, r). (v # vs, r)) (parse_elems n cs)
               else if c = CHR '']'' then Some ([v], cs)
               else None))"
| "parse_members 0 s = None"
| "parse_members (Suc n) s =
     (case skip_ws s of
        [] \<Rightarrow> None
      | q # s1 \<Rightarrow>
          if q \<noteq> CHR 0x22 then None
          else (case parse_chars s1 of
             None \<Rightarrow> None
           | Some (k, s2) \<Rightarrow>
               (case skip_ws s2 of
                  [] \<Rightarrow> None
                | c # s3 \<Rightarrow>
                    if c \<noteq> CHR '':'' then None
                    else (case parse_value n s3 of
                       None \<Rightarrow> None
                     | Some (v, rest) \<Rightarrow>
                         (case skip_ws rest of
                            [] \<Rightarrow> None
                          | c' # cs \<Rightarrow>
                              if c' = CHR '','' then
                                map_option (\<lambda>(ps, r). ((k, v) # ps, r)) (parse_members n cs)
                              else if c' = CHR ''}'' then Some ([(k, v)], cs)
                              else None)))))"

definition decode :: "string \<Rightarrow> pyval option" where
  "decode s =
     (case parse_value (length s) s of
        None \<Rightarrow> None
      | Some (v, rest) \<Rightarrow> if skip_ws rest = [] then Some v else None)"

definition roundtrip :: "pyval \<Rightarrow> pyval option" where
  "roundtrip v = (case encode_to_human_readable v of Inl e \<Rightarrow> None | Inr s \<Rightarrow> decode s)"


section \<open>What decoding gives back\<close>

text \<open>
  \<open>norm\<close> is the value a decoder can get back from the encoding of a value: the keys of
  every dictionary are the strings they were coerced to and an array is the nested list
  of its elements. \<open>plain_json\<close> holds of the values that are their own \<open>norm\<close>,
  \<open>encodable\<close> of the values \<^verbatim>\<open>orjson\<close> accepts with the options of this module, and
  \<open>indents\<close> lists, for every line break of a text, the number of spaces that follow it.
\<close>

fun norm :: "pyval \<Rightarrow> pyval" where
  "norm (PList xs) = PList (map norm xs)"
| "norm (PDict kvs) = PDict (dict_of_pairs (map (\<lambda>p. (key_text (fst p), norm (snd p))) kvs))"
| "norm (PNdarray a) = tolist a"
| "norm v = v"

fun fuel_nd :: "ndarray \<Rightarrow> nat" where
  "fuel_nd (Scalar w) = 1"
| "fuel_nd (Axis xs) = Suc (sum_list (map (\<lambda>x. Suc (fuel_nd x)) xs))"

fun fuel :: "pyval \<Rightarrow> nat" where
  "fuel (PList xs) = Suc (sum_list (map (\<lambda>x. Suc (fuel x)) xs))"
| "fuel (PDict kvs) = Suc (sum_list (map (\<lambda>p. Suc (fuel (snd p))) kvs))"
| "fuel (PNdarray a) = fuel_nd a"
| "fuel v = 1"

fun plain_json :: "pyval \<Rightarrow> bool" where
  "plain_json (PList xs) = list_all plain_json xs"
| "plain_json (PDict kvs) =
     (list_all (\<lambda>p. (case fst p of KStr s \<Rightarrow> True | _ \<Rightarrow> False) \<and> plain_json (snd p)) kvs \<and>
      distinct (map fst kvs))"
| "plain_json (PNdarray a) = False"
| "plain_json (PObject attrs) = False"
| "plain_json v = True"

fun key_ok :: "pykey \<Rightarrow> bool" where
  "key_ok (KInt i) = in64 i"
| "key_ok (KTuple ks) = False"
| "key_ok k = True"

fun encodable :: "nat \<Rightarrow> pyval \<Rightarrow> bool" where
  "encodable d (PInt i) = in64 i"
| "encodable d (PList xs) = (d < RECURSION_LIMIT \<and> list_all (encodable (Suc d)) xs)"
| "encodable d (PDict kvs) =
     (d < RECURSION_LIMIT \<and> list_all (\<lambda>p. key_ok (fst p) \<and> encodable (Suc d) (snd p)) kvs)"
| "encodable d (PObject attrs) = False"
| "encodable d v = True"

fun indents :: "nat option \<Rightarrow> string \<Rightarrow> nat list" where
  "indents st [] = (case st of None \<Rightarrow> [] | Some k \<Rightarrow> [k])"
| "indents st (c # cs) =
     (if c = CHR 0x0A then (case st of None \<Rightarrow> [] | Some k \<Rightarrow> [k]) @ indents (Some 0) cs
      else case st of
        None \<Rightarrow> indents None cs
      | Some k \<Rightarrow> if c = CHR '' '' then indents (Some (Suc k)) cs else k # indents None cs)"


text \<open>A number in a text ends where the text ends or a character follows that cannot continue it.\<close>

definition num_end :: "string \<Rightarrow> bool" where
  "num_end rest = (rest = [] \<or> (\<not> is_digit (hd rest) \<and> hd rest \<notin> {CHR ''.'', CHR ''e'', CHR ''E''}))"

text \<open>A piece of output that neither starts nor ends with a space or a line break.\<close>

definition token :: "string \<Rightarrow> bool" where
  "token s = (s \<noteq> [] \<and> hd s \<noteq> CHR 0x0A \<and> hd s \<noteq> CHR '' '' \<and>
              last s \<noteq> CHR 0x0A \<and> last s \<noteq> CHR '' '')"

section \<open>Validation lemmas\<close>

lemma ap_Inr_iff: "ap f x = Inr y \<longleftrightarrow> (\<exists>g a. f = Inr g \<and> x = Inr a \<and> y = g a)"
  by (auto simp: ap_def split: sum.splits)

lemma ap_Inr_Inr: "ap (Inr g) (Inr a) = Inr (g a)"
  by (simp add: ap_def)

lemma errors_of_ap: "errors_of (ap f x) = errors_of f @ errors_of x"
  by (auto simp: ap_def errors_of_def split: sum.splits)

lemma errors_of_simps: "errors_of (Inl e) = e" "errors_of (Inr a) = []"
  by (simp_all add: errors_of_def)

lemma isl_ap: "isl (ap f x) \<longleftrightarrow> isl f \<or> isl x"
  by (auto simp: ap_def split: sum.splits)

lemma pick_isl: "isl a \<Longrightarrow> pick best (a, n) = best"
  by (cases a) simp_all

lemma smart_union_two:
  "smart_union [(a, m), (b, n)] = Inr y \<longleftrightarrow>
     (a = Inr y \<and> (isl b \<or> \<not> m < n)) \<or> (b = Inr y \<and> (isl a \<or> m < n))"
  by (cases a; cases b) (auto simp: smart_union_def)

lemma smart_union_first: "n \<le> m \<Longrightarrow> smart_union [(Inr x, m), (b, n)] = Inr x"
  by (cases b) (auto simp: smart_union_def)

lemma smart_union_skip: "isl a \<Longrightarrow> smart_union ((a, n) # members) = Inr y \<longleftrightarrow> smart_union members = Inr y"
  by (cases a) (auto simp: smart_union_def split: option.splits)

lemma foldl_pick_member:
  "foldl pick best members = Some (y, k) \<Longrightarrow>
   best = Some (y, k) \<or> (Inr y, k) \<in> set members"
proof (induction members arbitrary: best)
  case Nil
  then show ?case by simp
next
  case (Cons m members)
  from Cons.IH [OF Cons.prems [simplified]]
  show ?case
  proof
    assume p: "pick best m = Some (y, k)"
    obtain r n where m: "m = (r, n)" by (cases m)
    show ?thesis
    proof (cases r)
      case (Inl e)
      with p m show ?thesis by simp
    next
      case (Inr a)
      with p m show ?thesis
        by (cases best) (auto split: if_splits)
    qed
  qed simp
qed

lemma smart_union_member: "smart_union members = Inr y \<Longrightarrow> \<exists>k. (Inr y, k) \<in> set members"
proof -
  assume "smart_union members = Inr y"
  then obtain k where "foldl pick None members = Some (y, k)"
    by (auto simp: smart_union_def split: option.splits)
  from foldl_pick_member [OF this] show ?thesis by auto
qed

lemma fields_set_PObject:
  "fields_set names (PObject kw) = length (filter (\<lambda>name. map_of kw name \<noteq> None) names)"
  by (simp add: fields_set_def)

lemma fields_set_PDict:
  "fields_set names (PDict kvs) = length (filter (\<lambda>name. map_of (str_items kvs) name \<noteq> None) names)"
  by (simp add: fields_set_def)

lemma fields_set_le: "fields_set names v \<le> length names"
  by (simp add: fields_set_def split: option.splits)

lemma foldl_pick_keep:
  "\<forall>p\<in>set members. isl (fst p) \<or> snd p \<le> m \<Longrightarrow>
   foldl pick (Some (x, m)) members = Some (x, m)"
proof (induction members)
  case Nil
  then show ?case by simp
next
  case (Cons p members)
  obtain r n where p: "p = (r, n)" by (cases p)
  have "pick (Some (x, m)) p = Some (x, m)"
    using Cons.prems p by (cases r) auto
  with Cons show ?case by simp
qed

lemma foldl_pick_low:
  "\<forall>p\<in>set members. isl (fst p) \<or> snd p < m \<Longrightarrow>
   best = None \<or> (\<exists>b k. best = Some (b, k) \<and> k < m) \<Longrightarrow>
   foldl pick best members = None \<or> (\<exists>b k. foldl pick best members = Some (b, k) \<and> k < m)"
proof (induction members arbitrary: best)
  case Nil
  then show ?case by simp
next
  case (Cons p members)
  obtain r n where p: "p = (r, n)" by (cases p)
  have "pick best p = None \<or> (\<exists>b k. pick best p = Some (b, k) \<and> k < m)"
    using Cons.prems p by (cases r; cases best) (auto split: if_splits)
  with Cons show ?case by simp
qed

lemma smart_union_winner:
  assumes "\<forall>p\<in>set pre. isl (fst p) \<or> snd p < m"
    and "\<forall>p\<in>set post. isl (fst p) \<or> snd p \<le> m"
  shows "smart_union (pre @ (Inr x, m) # post) = Inr x"
proof -
  have "foldl pick None pre = None \<or> (\<exists>b k. foldl pick None pre = Some (b, k) \<and> k < m)"
    using foldl_pick_low [OF assms(1), of None] by simp
  then have "pick (foldl pick None pre) (Inr x, m) = Some (x, m)"
    by auto
  then show ?thesis
    using foldl_pick_keep [OF assms(2)] by (simp add: smart_union_def)
qed

lemma smart_union_1of4:
  "isl b \<or> nb \<le> m \<Longrightarrow> isl c \<or> nc \<le> m \<Longrightarrow> isl d \<or> nd \<le> m \<Longrightarrow>
   smart_union [(Inr x, m), (b, nb), (c, nc), (d, nd)] = Inr x"
  using smart_union_winner [of "[]" m "[(b, nb), (c, nc), (d, nd)]" x] by simp

lemma smart_union_2of4:
  "isl a \<Longrightarrow> isl c \<or> nc \<le> m \<Longrightarrow> isl d \<or> nd \<le> m \<Longrightarrow>
   smart_union [(a, na), (Inr x, m), (c, nc), (d, nd)] = Inr x"
  using smart_union_winner [of "[(a, na)]" m "[(c, nc), (d, nd)]" x] by simp

lemma smart_union_3of4:
  "isl a \<Longrightarrow> isl b \<Longrightarrow> isl d \<or> nd \<le> m \<Longrightarrow>
   smart_union [(a, na), (b, nb), (Inr x, m), (d, nd)] = Inr x"
  using smart_union_winner [of "[(a, na), (b, nb)]" m "[(d, nd)]" x] by simp

lemma smart_union_4of4:
  "isl a \<Longrightarrow> isl b \<Longrightarrow> isl c \<Longrightarrow>
   smart_union [(a, na), (b, nb), (c, nc), (Inr x, m)] = Inr x"
  using smart_union_winner [of "[(a, na), (b, nb), (c, nc)]" m "[]" x] by simp

lemma required_missing: "map_of kw name = None \<Longrightarrow> required kw name f = Inl [Missing name]"
  by (simp add: required_def)

lemma required_Some: "map_of kw name = Some v \<Longrightarrow> required kw name f = f name v"
  by (simp add: required_def)

lemma required_Inr_iff:
  "required kw name f = Inr y \<longleftrightarrow> (\<exists>v. map_of kw name = Some v \<and> f name v = Inr y)"
  by (auto simp: required_def split: option.splits)

lemma defaulted_missing: "map_of kw name = None \<Longrightarrow> defaulted kw name f d = Inr d"
  by (simp add: defaulted_def)

lemma defaulted_Some: "map_of kw name = Some v \<Longrightarrow> defaulted kw name f d = f name v"
  by (simp add: defaulted_def)

lemma model_input_PObject: "model_input loc (PObject kw) build = build kw"
  by (simp add: model_input_def)

lemma model_input_PDict: "model_input loc (PDict kvs) build = build (str_items kvs)"
  by (simp add: model_input_def)

lemma validate_str_Inr_iff: "validate_str loc v = Inr s \<longleftrightarrow> v = PStr s"
  by (cases v) auto

lemma validate_all_strs: "validate_all (validate_str loc) (map PStr xs) = Inr xs"
  by (induction xs) (simp_all add: ap_def)

lemma validate_all_map:
  "(\<And>x. x \<in> set xs \<Longrightarrow> f (d x) = Inr x) \<Longrightarrow> validate_all f (map d xs) = Inr xs"
  by (induction xs) (simp_all add: ap_def)

lemma and_then_Inr_iff: "and_then r k = Inr y \<longleftrightarrow> (\<exists>a. r = Inr a \<and> k a = Inr y)"
  by (auto simp: and_then_def split: sum.splits)

lemma and_then_Inl_iff:
  "and_then r k = Inl e \<longleftrightarrow> r = Inl e \<or> (\<exists>a. r = Inr a \<and> k a = Inl e)"
  by (auto simp: and_then_def split: sum.splits)

lemma construct_Inr_iff: "construct v = Inr y \<longleftrightarrow> v = Inr y"
  by (auto simp: construct_def split: sum.splits)

lemma construct_Inl_iff:
  "construct v = Inl e \<longleftrightarrow> (\<exists>errs. v = Inl errs \<and> e = ValidationError errs)"
  by (auto simp: construct_def split: sum.splits)

section \<open>Task node metadata\<close>

text \<open>
  C10. A task node metadata record cannot be constructed without \<^verbatim>\<open>inputs\<close> and
  \<^verbatim>\<open>outputs\<close>: when either is not given, construction fails and the error list names
  the missing field. The fields \<^verbatim>\<open>code\<close>, \<^verbatim>\<open>filepath\<close>, \<^verbatim>\<open>parameters\<close> and
  \<^verbatim>\<open>run_command\<close> may be left out, and each one left out is \<^verbatim>\<open>None\<close> in the record;
  with only the two lists given, construction succeeds.
\<close>

theorem task_node_metadata_construction:
  "(map_of kw ''inputs'' = None \<or> map_of kw ''outputs'' = None \<longrightarrow>
      isl (new_TaskNodeMetadataAPIResponse kw)) \<and>
   (map_of kw ''inputs'' = None \<longrightarrow>
      Missing ''inputs'' \<in> set (errors_of (new_TaskNodeMetadataAPIResponse kw))) \<and>
   (map_of kw ''outputs'' = None \<longrightarrow>
      Missing ''outputs'' \<in> set (errors_of (new_TaskNodeMetadataAPIResponse kw))) \<and>
   (\<forall>r. new_TaskNodeMetadataAPIResponse kw = Inr r \<longrightarrow>
      (map_of kw ''code'' = None \<longrightarrow> tm_code r = None) \<and>
      (map_of kw ''filepath'' = None \<longrightarrow> tm_filepath r = None) \<and>
      (map_of kw ''parameters'' = None \<longrightarrow> tm_parameters r = None) \<and>
      (map_of kw ''run_command'' = None \<longrightarrow> tm_run_command r = None)) \<and>
   new_TaskNodeMetadataAPIResponse
       [(''inputs'', PList (map PStr ins)), (''outputs'', PList (map PStr outs))] =
     Inr \<lparr>tm_code = None, tm_filepath = None, tm_parameters = None,
          tm_inputs = ins, tm_outputs = outs, tm_run_command = None\<rparr>"
  unfolding new_TaskNodeMetadataAPIResponse_def
  by (auto simp: errors_of_ap isl_ap ap_Inr_iff errors_of_simps required_missing defaulted_missing
      required_def defaulted_def validate_all_strs TaskNodeMetadataAPIResponse.make_def)

theorem task_node_metadata_construction_witness:
  "isl (new_TaskNodeMetadataAPIResponse [(''code'', PStr ''def f(): pass'')]) \<and>
   Missing ''inputs'' \<in> set (errors_of (new_TaskNodeMetadataAPIResponse [(''outputs'', PList [])])) \<and>
   Missing ''outputs'' \<in> set (errors_of (new_TaskNodeMetadataAPIResponse [(''inputs'', PList [])])) \<and>
   new_TaskNodeMetadataAPIResponse
       [(''inputs'', PList [PStr ''params:input1'', PStr ''input2'']),
        (''outputs'', PList [PStr ''output1''])] =
     Inr \<lparr>tm_code = None, tm_filepath = None, tm_parameters = None,
          tm_inputs = [''params:input1'', ''input2''], tm_outputs = [''output1''],
          tm_run_command = None\<rparr>"
  using task_node_metadata_construction [of "[(''code'', PStr ''def f(): pass'')]"]
    task_node_metadata_construction [of "[(''outputs'', PList [])]"]
    task_node_metadata_construction [of "[(''inputs'', PList [])]"]
    task_node_metadata_construction [of _ "[''params:input1'', ''input2'']" "[''output1'']"]
  by simp

section \<open>The default response\<close>

lemma new_GraphAPIResponse_Inr_iff:
  "new_GraphAPIResponse
     [(''nodes'', ns), (''edges'', es), (''tags'', ts), (''layers'', ls),
      (''pipelines'', ps), (''modular_pipelines'', tree), (''selected_pipeline'', pid)] = Inr r \<longleftrightarrow>
   validate_List validate_NodeAPIResponse ''nodes'' ns = Inr (nodes r) \<and>
   validate_List (\<lambda>loc v. model_input loc v new_GraphEdgeAPIResponse) ''edges'' es = Inr (edges r) \<and>
   validate_List validate_str ''layers'' ls = Inr (layers r) \<and>
   validate_List (\<lambda>loc v. model_input loc v new_NamedEntityAPIResponse) ''tags'' ts = Inr (tags r) \<and>
   validate_List (\<lambda>loc v. model_input loc v new_NamedEntityAPIResponse) ''pipelines'' ps = Inr (pipelines r) \<and>
   validate_ModularPipelinesTreeAPIResponse ''modular_pipelines'' tree = Inr (modular_pipelines r) \<and>
   pid = PStr (selected_pipeline r)"
  unfolding new_GraphAPIResponse_def
  apply (simp add: ap_Inr_iff required_def validate_str_Inr_iff GraphAPIResponse.make_def)
  apply (cases r)
  apply (auto simp: GraphAPIResponse.make_def)
  done

lemmas model_defs =
  new_GraphAPIResponse_def validate_NodeAPIResponse_def smart_union_def fields_set_def
  TaskNodeAPIResponse_fields_def DataNodeAPIResponse_fields_def model_input_def
  new_TaskNodeAPIResponse_def new_DataNodeAPIResponse_def new_GraphEdgeAPIResponse_def
  new_NamedEntityAPIResponse_def new_ModularPipelinesTreeNodeAPIResponse_def
  new_ModularPipelineChildAPIResponse_def required_def defaulted_def ap_def
  TaskNodeAPIResponse.make_def DataNodeAPIResponse.make_def GraphEdgeAPIResponse.make_def
  NamedEntityAPIResponse.make_def ModularPipelinesTreeNodeAPIResponse.make_def
  ModularPipelineChildAPIResponse.make_def GraphAPIResponse.make_def

lemmas example_defs =
  example_index_def example_response_def example_task_node_def example_data_node_def
  example_tree_def

lemma example_index_run: "get_default_response example_index = Inr example_response"
  by (simp add: get_default_response_def example_defs and_then_def construct_def model_defs)

text \<open>
  C1. \<^verbatim>\<open>get_default_response\<close> returns a response exactly when the index gives a
  default pipeline whose \<^verbatim>\<open>id\<close> is a string, every query succeeds and the answers
  validate. The response then has that id as \<^verbatim>\<open>selected_pipeline\<close>, its nodes, edges,
  layers and modular pipelines tree are the index's answers for that same id, and its tags
  and pipelines are the index's tag list and registered pipeline list.
\<close>

theorem get_default_response_default_id:
  "get_default_response dam = Inr r \<longleftrightarrow>
   (\<exists>p ns es ts ls ps tree.
      get_default_selected_pipeline dam = Inr p \<and>
      getattr p ''id'' = Inr (PStr (selected_pipeline r)) \<and>
      create_modular_pipelines_tree_for_registered_pipeline dam (PStr (selected_pipeline r)) = Inr tree \<and>
      get_nodes_for_registered_pipeline dam (PStr (selected_pipeline r)) = Inr ns \<and>
      get_edges_for_registered_pipeline dam (PStr (selected_pipeline r)) = Inr es \<and>
      tags_as_list dam = Inr ts \<and>
      get_sorted_layers_for_registered_pipeline dam (PStr (selected_pipeline r)) = Inr ls \<and>
      registered_pipelines_as_list dam = Inr ps \<and>
      validate_List validate_NodeAPIResponse ''nodes'' ns = Inr (nodes r) \<and>
      validate_List (\<lambda>loc v. model_input loc v new_GraphEdgeAPIResponse) ''edges'' es = Inr (edges r) \<and>
      validate_List validate_str ''layers'' ls = Inr (layers r) \<and>
      validate_List (\<lambda>loc v. model_input loc v new_NamedEntityAPIResponse) ''tags'' ts = Inr (tags r) \<and>
      validate_List (\<lambda>loc v. model_input loc v new_NamedEntityAPIResponse) ''pipelines'' ps = Inr (pipelines r) \<and>
      validate_ModularPipelinesTreeAPIResponse ''modular_pipelines'' tree = Inr (modular_pipelines r))"
  unfolding get_default_response_def
  by (simp add: and_then_Inr_iff construct_Inr_iff new_GraphAPIResponse_Inr_iff) blast

theorem get_default_response_default_id_witness:
  "get_default_response example_index = Inr example_response \<and>
   selected_pipeline example_response = ''__default__'' \<and>
   get_nodes_for_registered_pipeline example_index (PStr ''__default__'') =
     Inr (PList [example_task_node, example_data_node]) \<and>
   validate_List validate_NodeAPIResponse ''nodes'' (PList [example_task_node, example_data_node]) =
     Inr (nodes example_response)"
  using get_default_response_default_id [of example_index example_response] example_index_run
  by (auto simp: example_index_def example_response_def)

lemma get_default_response_first_failure:
  "get_default_response dam = Inl e \<longleftrightarrow>
   get_default_selected_pipeline dam = Inl e \<or>
   (\<exists>p. get_default_selected_pipeline dam = Inr p \<and>
     (getattr p ''id'' = Inl e \<or>
     (\<exists>i. getattr p ''id'' = Inr i \<and>
       (create_modular_pipelines_tree_for_registered_pipeline dam i = Inl e \<or>
       (\<exists>tree. create_modular_pipelines_tree_for_registered_pipeline dam i = Inr tree \<and>
         (get_nodes_for_registered_pipeline dam i = Inl e \<or>
         (\<exists>ns. get_nodes_for_registered_pipeline dam i = Inr ns \<and>
           (get_edges_for_registered_pipeline dam i = Inl e \<or>
           (\<exists>es. get_edges_for_registered_pipeline dam i = Inr es \<and>
             (tags_as_list dam = Inl e \<or>
             (\<exists>ts. tags_as_list dam = Inr ts \<and>
               (get_sorted_layers_for_registered_pipeline dam i = Inl e \<or>
               (\<exists>ls. get_sorted_layers_for_registered_pipeline dam i = Inr ls \<and>
                 (registered_pipelines_as_list dam = Inl e \<or>
                 (\<exists>ps. registered_pipelines_as_list dam = Inr ps \<and>
                   (\<exists>errs. new_GraphAPIResponse
                       [(''nodes'', ns), (''edges'', es), (''tags'', ts), (''layers'', ls),
                        (''pipelines'', ps), (''modular_pipelines'', tree),
                        (''selected_pipeline'', i)] = Inl errs \<and>
                     e = ValidationError errs))))))))))))))))"
  unfolding get_default_response_def
  by (simp add: and_then_Inl_iff construct_Inl_iff)

lemma failing_index_run: "get_default_response failing_index = Inl (Raised ''KeyError'')"
  by (simp add: get_default_response_first_failure failing_index_def example_index_def)

section \<open>A selected pipeline that the index does not have\<close>

lemma get_default_response_assemble:
  "get_default_response dam =
     and_then (get_default_selected_pipeline dam) (\<lambda>default_pipeline.
     and_then (getattr default_pipeline ''id'') (assemble_response dam))"
  by (simp add: get_default_response_def assemble_response_def [abs_def])

lemma assemble_response_Inr_iff:
  "assemble_response dam pid = Inr r \<longleftrightarrow>
   pid = PStr (selected_pipeline r) \<and>
   (\<exists>ns es ts ls ps tree.
      create_modular_pipelines_tree_for_registered_pipeline dam pid = Inr tree \<and>
      get_nodes_for_registered_pipeline dam pid = Inr ns \<and>
      get_edges_for_registered_pipeline dam pid = Inr es \<and>
      tags_as_list dam = Inr ts \<and>
      get_sorted_layers_for_registered_pipeline dam pid = Inr ls \<and>
      registered_pipelines_as_list dam = Inr ps \<and>
      validate_List validate_NodeAPIResponse ''nodes'' ns = Inr (nodes r) \<and>
      validate_List (\<lambda>loc v. model_input loc v new_GraphEdgeAPIResponse) ''edges'' es = Inr (edges r) \<and>
      validate_List validate_str ''layers'' ls = Inr (layers r) \<and>
      validate_List (\<lambda>loc v. model_input loc v new_NamedEntityAPIResponse) ''tags'' ts = Inr (tags r) \<and>
      validate_List (\<lambda>loc v. model_input loc v new_NamedEntityAPIResponse) ''pipelines'' ps = Inr (pipelines r) \<and>
      validate_ModularPipelinesTreeAPIResponse ''modular_pipelines'' tree = Inr (modular_pipelines r))"
  unfolding assemble_response_def
  by (simp add: and_then_Inr_iff construct_Inr_iff new_GraphAPIResponse_Inr_iff) blast

lemma example_index_ids: "registered_pipeline_ids example_index = Inr [''__default__'']"
  by (simp add: registered_pipeline_ids_def example_index_def and_then_def construct_def model_defs)

lemma example_index_assemble:
  "assemble_response example_index (PStr ''__default__'') = Inr example_response"
  by (simp add: assemble_response_def example_defs and_then_def construct_def model_defs)

lemma failing_index_ids: "registered_pipeline_ids failing_index = Inr [''__default__'']"
  by (simp add: registered_pipeline_ids_def failing_index_def example_index_def and_then_def
      construct_def model_defs)

text \<open>
  C5. When the selected pipeline id is not one of the registered pipelines of the index,
  the assembly fails with the not-found error for that id and returns no response, so
  neither a partly filled one nor one with empty nodes. A response is only returned for a
  registered id; it has that id as \<^verbatim>\<open>selected_pipeline\<close> and every one of its fields is
  the validated answer of the index for that id, each query having succeeded. Without a
  selected id the assembly is \<^verbatim>\<open>get_default_response\<close>, which does the same for the id
  of the default pipeline.
\<close>

theorem selected_pipeline_not_found:
  "(registered_pipeline_ids dam = Inr ids \<and> i \<notin> set ids \<longrightarrow>
      get_selected_pipeline_response dam (Some i) = Inl (NotFound i) \<and>
      (\<forall>r. get_selected_pipeline_response dam (Some i) \<noteq> Inr r)) \<and>
   (get_selected_pipeline_response dam (Some i) = Inr r \<longrightarrow>
      (\<exists>ids. registered_pipeline_ids dam = Inr ids \<and> i \<in> set ids) \<and>
      selected_pipeline r = i \<and>
      (\<exists>ns es ts ls ps tree.
         create_modular_pipelines_tree_for_registered_pipeline dam (PStr i) = Inr tree \<and>
         get_nodes_for_registered_pipeline dam (PStr i) = Inr ns \<and>
         get_edges_for_registered_pipeline dam (PStr i) = Inr es \<and>
         tags_as_list dam = Inr ts \<and>
         get_sorted_layers_for_registered_pipeline dam (PStr i) = Inr ls \<and>
         registered_pipelines_as_list dam = Inr ps \<and>
         validate_List validate_NodeAPIResponse ''nodes'' ns = Inr (nodes r) \<and>
         validate_List (\<lambda>loc v. model_input loc v new_GraphEdgeAPIResponse) ''edges'' es = Inr (edges r) \<and>
         validate_List validate_str ''layers'' ls = Inr (layers r) \<and>
         validate_List (\<lambda>loc v. model_input loc v new_NamedEntityAPIResponse) ''tags'' ts = Inr (tags r) \<and>
         validate_List (\<lambda>loc v. model_input loc v new_NamedEntityAPIResponse) ''pipelines'' ps = Inr (pipelines r) \<and>
         validate_ModularPipelinesTreeAPIResponse ''modular_pipelines'' tree = Inr (modular_pipelines r))) \<and>
   get_selected_pipeline_response dam None = get_default_response dam \<and>
   get_default_response dam =
     and_then (get_default_selected_pipeline dam) (\<lambda>default_pipeline.
     and_then (getattr default_pipeline ''id'') (assemble_response dam))"
proof -
  have A: "get_selected_pipeline_response dam (Some i) = Inl (NotFound i)"
    if "registered_pipeline_ids dam = Inr ids" "i \<notin> set ids"
    using that by (simp add: get_selected_pipeline_response_def and_then_def)
  have B: "(\<exists>ids. registered_pipeline_ids dam = Inr ids \<and> i \<in> set ids) \<and>
      assemble_response dam (PStr i) = Inr r"
    if "get_selected_pipeline_response dam (Some i) = Inr r"
    using that by (auto simp: get_selected_pipeline_response_def and_then_Inr_iff split: if_splits)
  have C: "get_selected_pipeline_response dam None = get_default_response dam"
    by (simp add: get_selected_pipeline_response_def)
  show ?thesis
    using A B C get_default_response_assemble [of dam] assemble_response_Inr_iff [of dam "PStr i" r]
    by (simp (no_asm_simp)) blast
qed

theorem selected_pipeline_not_found_witness:
  "registered_pipeline_ids example_index = Inr [''__default__''] \<and>
   get_selected_pipeline_response example_index (Some ''ghost'') = Inl (NotFound ''ghost'') \<and>
   get_selected_pipeline_response example_index (Some ''__default__'') = Inr example_response \<and>
   selected_pipeline example_response = ''__default__'' \<and>
   get_nodes_for_registered_pipeline example_index (PStr ''__default__'') =
     Inr (PList [example_task_node, example_data_node]) \<and>
   get_selected_pipeline_response example_index None = Inr example_response \<and>
   get_selected_pipeline_response failing_index (Some ''__default__'') = Inl (Raised ''KeyError'')"
proof -
  have s: "get_selected_pipeline_response example_index (Some ''__default__'') = Inr example_response"
    unfolding get_selected_pipeline_response_def option.case example_index_ids
    by (simp add: and_then_def example_index_assemble)
  have f: "get_selected_pipeline_response failing_index (Some ''__default__'') =
      Inl (Raised ''KeyError'')"
    unfolding get_selected_pipeline_response_def option.case failing_index_ids
    by (simp add: and_then_def assemble_response_def failing_index_def example_index_def)
  show ?thesis
    using selected_pipeline_not_found [of example_index "[''__default__'']" "''ghost''" example_response]
      selected_pipeline_not_found [of example_index "[''__default__'']" "''__default__''" example_response]
      example_index_ids example_index_run s f
    by (simp add: example_index_def example_response_def)
qed

section \<open>Plain data and validation\<close>

lemma validate_strs_dump: "validate_List validate_str loc (dump_strs xs) = Inr xs"
  by (simp add: dump_strs_def validate_all_map)

lemma validate_opt_strs_dump:
  "validate_Optional (validate_List validate_str) loc (dump_Optional dump_strs x) = Inr x"
  by (cases x) (simp_all add: dump_strs_def validate_all_map ap_def)

lemma validate_opt_str_dump:
  "validate_Optional validate_str loc (dump_Optional PStr x) = Inr x"
  by (cases x) (simp_all add: ap_def)

lemma validate_opt_dict_dump:
  "validate_Optional validate_Dict loc (dump_Optional PDict x) = Inr x"
  by (cases x) (simp_all add: ap_def)

lemmas dump_field_simps = validate_strs_dump validate_opt_strs_dump validate_opt_str_dump
  validate_opt_dict_dump model_input_PDict required_def defaulted_def ap_def

lemma validate_task_node_dump:
  "model_input loc (model_dump_TaskNodeAPIResponse t) new_TaskNodeAPIResponse = Inr t"
  by (cases t) (simp add: dump_field_simps model_dump_TaskNodeAPIResponse_def
      new_TaskNodeAPIResponse_def TaskNodeAPIResponse.make_def)

lemma validate_data_node_dump:
  "model_input loc (model_dump_DataNodeAPIResponse t) new_DataNodeAPIResponse = Inr t"
  by (cases t) (simp add: dump_field_simps model_dump_DataNodeAPIResponse_def
      new_DataNodeAPIResponse_def DataNodeAPIResponse.make_def)

lemma task_needs_parameters:
  "map_of kw ''parameters'' = None \<Longrightarrow> isl (new_TaskNodeAPIResponse kw)"
  by (simp add: new_TaskNodeAPIResponse_def isl_ap required_missing)

lemma data_node_dump_not_task:
  "isl (model_input loc (model_dump_DataNodeAPIResponse t) new_TaskNodeAPIResponse)"
  by (simp add: model_input_PDict model_dump_DataNodeAPIResponse_def task_needs_parameters)

lemma validate_node_dump:
  "validate_NodeAPIResponse loc (model_dump_NodeAPIResponse n) = Inr n"
proof (cases n)
  case (TaskNode t)
  have c: "fields_set DataNodeAPIResponse_fields (model_dump_TaskNodeAPIResponse t) \<le>
      fields_set TaskNodeAPIResponse_fields (model_dump_TaskNodeAPIResponse t)"
    by (simp add: fields_set_PDict model_dump_TaskNodeAPIResponse_def
        TaskNodeAPIResponse_fields_def DataNodeAPIResponse_fields_def)
  from TaskNode show ?thesis
    by (simp add: validate_NodeAPIResponse_def validate_task_node_dump ap_Inr_Inr
        smart_union_first [OF c])
next
  case (DataNode d)
  have "isl (ap (Inr TaskNode)
      (model_input loc (model_dump_DataNodeAPIResponse d) new_TaskNodeAPIResponse))"
    by (simp add: isl_ap data_node_dump_not_task)
  with DataNode show ?thesis
    by (simp add: validate_NodeAPIResponse_def validate_data_node_dump smart_union_two ap_Inr_Inr)
qed

lemma validate_edge_dump:
  "model_input loc (model_dump_GraphEdgeAPIResponse t) new_GraphEdgeAPIResponse = Inr t"
  by (cases t) (simp add: dump_field_simps model_dump_GraphEdgeAPIResponse_def
      new_GraphEdgeAPIResponse_def GraphEdgeAPIResponse.make_def)

lemma validate_entity_dump:
  "model_input loc (model_dump_NamedEntityAPIResponse t) new_NamedEntityAPIResponse = Inr t"
  by (cases t) (simp add: dump_field_simps model_dump_NamedEntityAPIResponse_def
      new_NamedEntityAPIResponse_def NamedEntityAPIResponse.make_def)

lemma validate_child_dump:
  "model_input loc (model_dump_ModularPipelineChildAPIResponse t)
     new_ModularPipelineChildAPIResponse = Inr t"
  by (cases t) (simp add: dump_field_simps model_dump_ModularPipelineChildAPIResponse_def
      new_ModularPipelineChildAPIResponse_def ModularPipelineChildAPIResponse.make_def)

lemma validate_nodes_dump:
  "validate_all (validate_NodeAPIResponse loc) (map model_dump_NodeAPIResponse xs) = Inr xs"
  by (simp add: validate_all_map validate_node_dump)

lemma validate_edges_dump:
  "validate_all (\<lambda>v. model_input loc v new_GraphEdgeAPIResponse)
     (map model_dump_GraphEdgeAPIResponse xs) = Inr xs"
  by (simp add: validate_all_map validate_edge_dump)

lemma validate_entities_dump:
  "validate_all (\<lambda>v. model_input loc v new_NamedEntityAPIResponse)
     (map model_dump_NamedEntityAPIResponse xs) = Inr xs"
  by (simp add: validate_all_map validate_entity_dump)

lemma validate_children_dump:
  "validate_all (\<lambda>v. model_input loc v new_ModularPipelineChildAPIResponse)
     (map model_dump_ModularPipelineChildAPIResponse xs) = Inr xs"
  by (simp add: validate_all_map validate_child_dump)

lemma validate_tree_node_dump:
  "model_input loc (model_dump_ModularPipelinesTreeNodeAPIResponse t)
     new_ModularPipelinesTreeNodeAPIResponse = Inr t"
  by (cases t) (simp add: dump_field_simps model_dump_ModularPipelinesTreeNodeAPIResponse_def
      new_ModularPipelinesTreeNodeAPIResponse_def validate_children_dump
      ModularPipelinesTreeNodeAPIResponse.make_def)

lemma validate_tree_dump:
  "validate_ModularPipelinesTreeAPIResponse loc (model_dump_ModularPipelinesTreeAPIResponse t) = Inr t"
  unfolding model_dump_ModularPipelinesTreeAPIResponse_def
  by (induction t) (auto simp: validate_tree_node_dump ap_def)

lemma validate_graph_dump:
  "model_input loc (model_dump_GraphAPIResponse g) new_GraphAPIResponse = Inr g"
  by (cases g) (simp add: dump_field_simps model_dump_GraphAPIResponse_def
      new_GraphAPIResponse_def validate_nodes_dump validate_edges_dump
      validate_entities_dump validate_tree_dump GraphAPIResponse.make_def)

lemma graph_field_missing:
  "name \<in> set [''nodes'', ''edges'', ''layers'', ''tags'', ''pipelines'', ''modular_pipelines'',
       ''selected_pipeline''] \<Longrightarrow> map_of kw name = None \<Longrightarrow>
     Missing name \<in> set (errors_of (new_GraphAPIResponse kw))"
  by (auto simp: new_GraphAPIResponse_def errors_of_ap required_def errors_of_simps)

text \<open>
  C9. A graph response has exactly the seven fields \<^verbatim>\<open>nodes\<close>, \<^verbatim>\<open>edges\<close>,
  \<^verbatim>\<open>layers\<close>, \<^verbatim>\<open>tags\<close>, \<^verbatim>\<open>pipelines\<close>, \<^verbatim>\<open>modular_pipelines\<close> and
  \<^verbatim>\<open>selected_pipeline\<close>: its plain data has these names in this order, with the nodes a
  list of task or data nodes, the edges a list, the layers a list of strings, the tags and
  pipelines lists of id and optional name, the modular pipelines a dictionary with string
  keys and the selected pipeline a string; the response is recovered from that plain
  data, and construction fails when any of the seven is not given.
\<close>

theorem graph_response_fields:
  "dumped_names (model_dump_GraphAPIResponse g) =
     [''nodes'', ''edges'', ''layers'', ''tags'', ''pipelines'', ''modular_pipelines'',
      ''selected_pipeline''] \<and>
   dumped_field (model_dump_GraphAPIResponse g) ''nodes'' =
     Some (PList (map model_dump_NodeAPIResponse (nodes g))) \<and>
   dumped_field (model_dump_GraphAPIResponse g) ''edges'' =
     Some (PList (map model_dump_GraphEdgeAPIResponse (edges g))) \<and>
   dumped_field (model_dump_GraphAPIResponse g) ''layers'' = Some (PList (map PStr (layers g))) \<and>
   dumped_field (model_dump_GraphAPIResponse g) ''tags'' =
     Some (PList (map model_dump_NamedEntityAPIResponse (tags g))) \<and>
   dumped_field (model_dump_GraphAPIResponse g) ''pipelines'' =
     Some (PList (map model_dump_NamedEntityAPIResponse (pipelines g))) \<and>
   dumped_field (model_dump_GraphAPIResponse g) ''modular_pipelines'' =
     Some (PDict (map (\<lambda>(k, m). (KStr k, model_dump_ModularPipelinesTreeNodeAPIResponse m))
       (modular_pipelines g))) \<and>
   dumped_field (model_dump_GraphAPIResponse g) ''selected_pipeline'' =
     Some (PStr (selected_pipeline g)) \<and>
   model_input loc (model_dump_GraphAPIResponse g) new_GraphAPIResponse = Inr g \<and>
   (name \<in> set [''nodes'', ''edges'', ''layers'', ''tags'', ''pipelines'', ''modular_pipelines'',
       ''selected_pipeline''] \<and> map_of kw name = None \<longrightarrow>
     Missing name \<in> set (errors_of (new_GraphAPIResponse kw)))"
  using validate_graph_dump [of loc g] graph_field_missing [of name kw]
  by (simp add: dumped_names_def dumped_field_def model_dump_GraphAPIResponse_def dump_strs_def
      model_dump_ModularPipelinesTreeAPIResponse_def)

theorem graph_response_fields_witness:
  "dumped_names (model_dump_GraphAPIResponse example_response) =
     [''nodes'', ''edges'', ''layers'', ''tags'', ''pipelines'', ''modular_pipelines'',
      ''selected_pipeline''] \<and>
   model_input ''response'' (model_dump_GraphAPIResponse example_response) new_GraphAPIResponse =
     Inr example_response \<and>
   Missing ''layers'' \<in> set (errors_of (new_GraphAPIResponse
     [(''nodes'', PList []), (''edges'', PList []), (''tags'', PList []), (''pipelines'', PList []),
      (''modular_pipelines'', PDict []), (''selected_pipeline'', PStr ''__default__'')]))"
  using graph_response_fields [of example_response "''response''" "''layers''"
    "[(''nodes'', PList []), (''edges'', PList []), (''tags'', PList []), (''pipelines'', PList []),
      (''modular_pipelines'', PDict []), (''selected_pipeline'', PStr ''__default__'')]"]
  by simp

section \<open>Node variants\<close>

lemma data_node_type:
  "new_DataNodeAPIResponse kw = Inr d \<Longrightarrow> map_of kw ''type'' = Some (PStr (n_type d))"
  unfolding new_DataNodeAPIResponse_def
  by (auto simp: ap_Inr_iff required_Inr_iff validate_str_Inr_iff DataNodeAPIResponse.make_def)

lemma node_without_parameters:
  assumes "map_of kw ''parameters'' = None"
    and "validate_NodeAPIResponse loc (PObject kw) = Inr r"
  shows "\<exists>d. r = DataNode d \<and> map_of kw ''type'' = Some (PStr (n_type d))"
proof -
  have "\<not> ap (Inr TaskNode) (new_TaskNodeAPIResponse kw) = Inr r"
    using task_needs_parameters [OF assms(1)] by (auto simp: ap_Inr_iff)
  with assms(2) obtain d where "new_DataNodeAPIResponse kw = Inr d" "r = DataNode d"
    by (auto simp: validate_NodeAPIResponse_def smart_union_two model_input_PObject ap_Inr_iff)
  then show ?thesis using data_node_type by blast
qed

lemma parameters_node_is_data:
  assumes h: "map_of kw ''parameters'' = None \<and>
    map_of kw ''id'' = Some (PStr i) \<and> map_of kw ''name'' = Some (PStr nm) \<and>
    map_of kw ''tags'' = Some (PList (map PStr ts)) \<and>
    map_of kw ''pipelines'' = Some (PList (map PStr ps)) \<and>
    map_of kw ''type'' = Some (PStr ''parameters'') \<and>
    map_of kw ''modular_pipelines'' = Some (PList (map PStr mps)) \<and>
    map_of kw ''layer'' = Some PNone \<and>
    map_of kw ''dataset_type'' = None \<and> map_of kw ''stats'' = None"
  shows "validate_NodeAPIResponse loc (PObject kw) =
        Inr (DataNode \<lparr>n_id = i, n_name = nm, n_tags = ts, n_pipelines = ps,
               n_type = ''parameters'', n_modular_pipelines = Some mps,
               dn_layer = None, dn_dataset_type = None, dn_stats = None\<rparr>)"
proof -
  have t: "isl (ap (Inr TaskNode) (new_TaskNodeAPIResponse kw))"
    using h by (simp add: isl_ap task_needs_parameters)
  have d: "new_DataNodeAPIResponse kw = Inr \<lparr>n_id = i, n_name = nm, n_tags = ts, n_pipelines = ps,
               n_type = ''parameters'', n_modular_pipelines = Some mps,
               dn_layer = None, dn_dataset_type = None, dn_stats = None\<rparr>"
    using h by (simp add: new_DataNodeAPIResponse_def required_Some defaulted_Some defaulted_missing
        ap_Inr_Inr validate_all_strs DataNodeAPIResponse.make_def)
  show ?thesis
    unfolding validate_NodeAPIResponse_def model_input_PObject
    using t by (simp add: smart_union_two d ap_Inr_Inr)
qed

lemma task_object_is_task:
  assumes h: "map_of kw ''parameters'' = Some (PDict prm) \<and>
    map_of kw ''id'' = Some (PStr i) \<and> map_of kw ''name'' = Some (PStr nm) \<and>
    map_of kw ''tags'' = Some (PList (map PStr ts)) \<and>
    map_of kw ''pipelines'' = Some (PList (map PStr ps)) \<and>
    map_of kw ''type'' = Some (PStr ty) \<and>
    map_of kw ''modular_pipelines'' = Some (PList (map PStr mps)) \<and>
    map_of kw ''layer'' = None \<and> map_of kw ''dataset_type'' = None \<and> map_of kw ''stats'' = None"
  shows "validate_NodeAPIResponse loc (PObject kw) =
        Inr (TaskNode \<lparr>n_id = i, n_name = nm, n_tags = ts, n_pipelines = ps,
               n_type = ty, n_modular_pipelines = Some mps, tn_parameters = prm\<rparr>)"
proof -
  have t: "new_TaskNodeAPIResponse kw = Inr \<lparr>n_id = i, n_name = nm, n_tags = ts, n_pipelines = ps,
               n_type = ty, n_modular_pipelines = Some mps, tn_parameters = prm\<rparr>"
    using h by (simp add: new_TaskNodeAPIResponse_def required_Some defaulted_Some
        ap_Inr_Inr validate_all_strs TaskNodeAPIResponse.make_def)
  have c: "fields_set DataNodeAPIResponse_fields (PObject kw) \<le>
      fields_set TaskNodeAPIResponse_fields (PObject kw)"
    using h by (simp add: fields_set_PObject TaskNodeAPIResponse_fields_def
        DataNodeAPIResponse_fields_def)
  show ?thesis
    unfolding validate_NodeAPIResponse_def model_input_PObject t ap_Inr_Inr
    by (rule smart_union_first [OF c])
qed

lemma hybrid_object_is_data:
  assumes h: "map_of kw ''parameters'' = Some (PDict prm) \<and>
    map_of kw ''id'' = Some (PStr i) \<and> map_of kw ''name'' = Some (PStr nm) \<and>
    map_of kw ''tags'' = Some (PList (map PStr ts)) \<and>
    map_of kw ''pipelines'' = Some (PList (map PStr ps)) \<and>
    map_of kw ''type'' = Some (PStr ty) \<and>
    map_of kw ''modular_pipelines'' = Some (PList (map PStr mps)) \<and>
    map_of kw ''layer'' = Some (dump_Optional PStr ly) \<and>
    map_of kw ''dataset_type'' = Some (dump_Optional PStr dt) \<and>
    map_of kw ''stats'' = Some (dump_Optional PDict st)"
  shows "validate_NodeAPIResponse loc (PObject kw) =
        Inr (DataNode \<lparr>n_id = i, n_name = nm, n_tags = ts, n_pipelines = ps,
               n_type = ty, n_modular_pipelines = Some mps,
               dn_layer = ly, dn_dataset_type = dt, dn_stats = st\<rparr>)"
proof -
  have t: "new_TaskNodeAPIResponse kw = Inr \<lparr>n_id = i, n_name = nm, n_tags = ts, n_pipelines = ps,
               n_type = ty, n_modular_pipelines = Some mps, tn_parameters = prm\<rparr>"
    using h by (simp add: new_TaskNodeAPIResponse_def required_Some defaulted_Some
        ap_Inr_Inr validate_all_strs TaskNodeAPIResponse.make_def)
  have d: "new_DataNodeAPIResponse kw = Inr \<lparr>n_id = i, n_name = nm, n_tags = ts, n_pipelines = ps,
               n_type = ty, n_modular_pipelines = Some mps,
               dn_layer = ly, dn_dataset_type = dt, dn_stats = st\<rparr>"
    using h by (simp add: new_DataNodeAPIResponse_def required_Some defaulted_Some
        ap_Inr_Inr validate_all_strs validate_opt_str_dump validate_opt_dict_dump
        DataNodeAPIResponse.make_def)
  have c: "fields_set TaskNodeAPIResponse_fields (PObject kw) = 7"
      "fields_set DataNodeAPIResponse_fields (PObject kw) = 9"
    using h by (simp_all add: fields_set_PObject TaskNodeAPIResponse_fields_def
        DataNodeAPIResponse_fields_def)
  show ?thesis
    unfolding validate_NodeAPIResponse_def model_input_PObject t d ap_Inr_Inr c
    by (simp add: smart_union_two)
qed

lemma task_metadata_variant:
  assumes h: "map_of kw ''inputs'' = Some (PList (map PStr ins)) \<and>
    map_of kw ''outputs'' = Some (PList (map PStr outs)) \<and>
    map_of kw ''code'' = Some (dump_Optional PStr code) \<and>
    map_of kw ''filepath'' = Some (dump_Optional PStr fp) \<and>
    map_of kw ''parameters'' = Some (dump_Optional PDict prm) \<and>
    map_of kw ''run_command'' = Some (dump_Optional PStr rc) \<and>
    map_of kw ''type'' = None \<and> map_of kw ''original_type'' = None"
  shows "validate_NodeMetadataAPIResponse loc (PObject kw) =
        Inr (TaskNodeMetadata \<lparr>tm_code = code, tm_filepath = fp, tm_parameters = prm,
               tm_inputs = ins, tm_outputs = outs, tm_run_command = rc\<rparr>)"
proof -
  have t: "validate_TaskNodeMetadataAPIResponse loc (PObject kw) =
      Inr \<lparr>tm_code = code, tm_filepath = fp, tm_parameters = prm,
               tm_inputs = ins, tm_outputs = outs, tm_run_command = rc\<rparr>"
    using h by (simp add: validate_TaskNodeMetadataAPIResponse_def model_input_PObject
        new_TaskNodeMetadataAPIResponse_def required_Some defaulted_Some ap_Inr_Inr
        validate_all_strs validate_opt_str_dump validate_opt_dict_dump
        TaskNodeMetadataAPIResponse.make_def)
  have d: "isl (ap (Inr DataNodeMetadata) (validate_DataNodeMetadataAPIResponse loc (PObject kw)))"
    using h by (simp add: isl_ap validate_DataNodeMetadataAPIResponse_def model_input_PObject
        new_DataNodeMetadataAPIResponse_def required_missing)
  have x: "isl (ap (Inr TranscodedDataNodeMetadata)
      (validate_TranscodedDataNodeMetadataAPIReponse loc (PObject kw)))"
    using h by (simp add: isl_ap validate_TranscodedDataNodeMetadataAPIReponse_def
        model_input_PObject new_TranscodedDataNodeMetadataAPIReponse_def required_missing)
  have c: "fields_set TaskNodeMetadataAPIResponse_fields (PObject kw) = 6"
    using h by (simp add: fields_set_PObject TaskNodeMetadataAPIResponse_fields_def)
  have p: "fields_set ParametersNodeMetadataAPIResponse_fields (PObject kw) \<le> 6"
    using fields_set_le [of ParametersNodeMetadataAPIResponse_fields "PObject kw"]
    by (simp add: ParametersNodeMetadataAPIResponse_fields_def)
  show ?thesis
    unfolding validate_NodeMetadataAPIResponse_def t ap_Inr_Inr c
    by (rule smart_union_1of4) (use d x p in simp_all)
qed

lemma data_metadata_variant:
  assumes h: "map_of kw ''type'' = Some (PStr ty) \<and>
    map_of kw ''filepath'' = Some (dump_Optional PStr fp) \<and>
    map_of kw ''plot'' = Some (dump_Optional PDict pl) \<and>
    map_of kw ''image'' = Some (dump_Optional PStr im) \<and>
    map_of kw ''tracking_data'' = Some (dump_Optional PDict td) \<and>
    map_of kw ''run_command'' = Some (dump_Optional PStr rc) \<and>
    map_of kw ''preview'' = Some (dump_Optional PDict pv) \<and>
    map_of kw ''stats'' = Some (dump_Optional PDict st) \<and>
    map_of kw ''inputs'' = None \<and> map_of kw ''original_type'' = None"
  shows "validate_NodeMetadataAPIResponse loc (PObject kw) =
        Inr (DataNodeMetadata \<lparr>dm_filepath = fp, dm_type = ty, dm_plot = pl, dm_image = im,
               dm_tracking_data = td, dm_run_command = rc, dm_preview = pv, dm_stats = st\<rparr>)"
proof -
  have t: "isl (ap (Inr TaskNodeMetadata) (validate_TaskNodeMetadataAPIResponse loc (PObject kw)))"
    using h by (simp add: isl_ap validate_TaskNodeMetadataAPIResponse_def model_input_PObject
        new_TaskNodeMetadataAPIResponse_def required_missing)
  have d: "validate_DataNodeMetadataAPIResponse loc (PObject kw) =
      Inr \<lparr>dm_filepath = fp, dm_type = ty, dm_plot = pl, dm_image = im,
               dm_tracking_data = td, dm_run_command = rc, dm_preview = pv, dm_stats = st\<rparr>"
    using h by (simp add: validate_DataNodeMetadataAPIResponse_def model_input_PObject
        new_DataNodeMetadataAPIResponse_def required_Some defaulted_Some ap_Inr_Inr
        validate_opt_str_dump validate_opt_dict_dump DataNodeMetadataAPIResponse.make_def)
  have x: "isl (ap (Inr TranscodedDataNodeMetadata)
      (validate_TranscodedDataNodeMetadataAPIReponse loc (PObject kw)))"
    using h by (simp add: isl_ap validate_TranscodedDataNodeMetadataAPIReponse_def
        model_input_PObject new_TranscodedDataNodeMetadataAPIReponse_def required_missing)
  have c: "fields_set DataNodeMetadataAPIResponse_fields (PObject kw) = 8"
    using h by (simp add: fields_set_PObject DataNodeMetadataAPIResponse_fields_def)
  have p: "fields_set ParametersNodeMetadataAPIResponse_fields (PObject kw) \<le> 8"
    using fields_set_le [of ParametersNodeMetadataAPIResponse_fields "PObject kw"]
    by (simp add: ParametersNodeMetadataAPIResponse_fields_def)
  show ?thesis
    unfolding validate_NodeMetadataAPIResponse_def d ap_Inr_Inr c
    by (rule smart_union_2of4) (use t x p in simp_all)
qed

lemma parameters_metadata_variant:
  assumes h: "map_of kw ''parameters'' = Some (PDict prm) \<and> map_of kw ''inputs'' = None \<and>
    map_of kw ''type'' = None \<and> map_of kw ''filepath'' = None"
  shows "validate_NodeMetadataAPIResponse loc (PObject kw) =
        Inr (ParametersNodeMetadata \<lparr>pm_parameters = prm\<rparr>)"
proof -
  have t: "isl (ap (Inr TaskNodeMetadata) (validate_TaskNodeMetadataAPIResponse loc (PObject kw)))"
    using h by (simp add: isl_ap validate_TaskNodeMetadataAPIResponse_def model_input_PObject
        new_TaskNodeMetadataAPIResponse_def required_missing)
  have d: "isl (ap (Inr DataNodeMetadata) (validate_DataNodeMetadataAPIResponse loc (PObject kw)))"
    using h by (simp add: isl_ap validate_DataNodeMetadataAPIResponse_def model_input_PObject
        new_DataNodeMetadataAPIResponse_def required_missing)
  have x: "isl (ap (Inr TranscodedDataNodeMetadata)
      (validate_TranscodedDataNodeMetadataAPIReponse loc (PObject kw)))"
    using h by (simp add: isl_ap validate_TranscodedDataNodeMetadataAPIReponse_def
        model_input_PObject new_TranscodedDataNodeMetadataAPIReponse_def required_missing)
  have p: "validate_ParametersNodeMetadataAPIResponse loc (PObject kw) = Inr \<lparr>pm_parameters = prm\<rparr>"
    using h by (simp add: validate_ParametersNodeMetadataAPIResponse_def model_input_PObject
        new_ParametersNodeMetadataAPIResponse_def required_Some ap_Inr_Inr
        ParametersNodeMetadataAPIResponse.make_def)
  show ?thesis
    unfolding validate_NodeMetadataAPIResponse_def p ap_Inr_Inr
    by (rule smart_union_4of4) (use t d x in simp_all)
qed

lemma transcoded_metadata_variant:
  assumes h: "map_of kw ''inputs'' = None \<and> map_of kw ''type'' = None \<and>
    map_of kw ''filepath'' = Some (PStr fp) \<and> map_of kw ''original_type'' = Some (PStr ot) \<and>
    map_of kw ''transcoded_types'' = Some (PList (map PStr tys)) \<and>
    map_of kw ''run_command'' = Some (dump_Optional PStr rc) \<and>
    map_of kw ''stats'' = Some (dump_Optional PDict st)"
  shows "validate_NodeMetadataAPIResponse loc (PObject kw) =
    Inr (TranscodedDataNodeMetadata
      \<lparr>xm_filepath = fp, xm_original_type = ot, xm_transcoded_types = tys,
       xm_run_command = rc, xm_stats = st\<rparr>)"
proof -
  have t: "isl (ap (Inr TaskNodeMetadata) (validate_TaskNodeMetadataAPIResponse loc (PObject kw)))"
    using h by (simp add: isl_ap validate_TaskNodeMetadataAPIResponse_def model_input_PObject
        new_TaskNodeMetadataAPIResponse_def required_missing)
  have d: "isl (ap (Inr DataNodeMetadata) (validate_DataNodeMetadataAPIResponse loc (PObject kw)))"
    using h by (simp add: isl_ap validate_DataNodeMetadataAPIResponse_def model_input_PObject
        new_DataNodeMetadataAPIResponse_def required_missing)
  have x: "validate_TranscodedDataNodeMetadataAPIReponse loc (PObject kw) =
      Inr \<lparr>xm_filepath = fp, xm_original_type = ot, xm_transcoded_types = tys,
       xm_run_command = rc, xm_stats = st\<rparr>"
    using h by (simp add: validate_TranscodedDataNodeMetadataAPIReponse_def model_input_PObject
        new_TranscodedDataNodeMetadataAPIReponse_def required_Some defaulted_Some ap_Inr_Inr
        validate_all_strs validate_opt_str_dump validate_opt_dict_dump
        TranscodedDataNodeMetadataAPIReponse.make_def)
  have c: "fields_set TranscodedDataNodeMetadataAPIReponse_fields (PObject kw) = 5"
    using h by (simp add: fields_set_PObject TranscodedDataNodeMetadataAPIReponse_fields_def)
  have p: "fields_set ParametersNodeMetadataAPIResponse_fields (PObject kw) \<le> 5"
    using fields_set_le [of ParametersNodeMetadataAPIResponse_fields "PObject kw"]
    by (simp add: ParametersNodeMetadataAPIResponse_fields_def)
  show ?thesis
    unfolding validate_NodeMetadataAPIResponse_def x ap_Inr_Inr c
    by (rule smart_union_3of4) (use t d p in simp_all)
qed

text \<open>
  C6. A flat node is a task node or a data node and never both, and validation gives
  each: an object with the common fields and a \<^verbatim>\<open>parameters\<close> dictionary, and none of
  \<^verbatim>\<open>layer\<close>, \<^verbatim>\<open>dataset_type\<close>, \<^verbatim>\<open>stats\<close>, is the task node of those fields; an object
  without \<^verbatim>\<open>parameters\<close>, as a parameters node is, can only be a data node, which keeps
  the object's \<^verbatim>\<open>type\<close>, and with \<^verbatim>\<open>type = "parameters"\<close> it is the data node of that
  type; an object that has the fields of both is the data node, which sets more fields.
  The metadata union has four variants, the parameters variant distinct from the other
  three, and validation gives each: the task variant for an object with
  \<^verbatim>\<open>inputs\<close> and \<^verbatim>\<open>outputs\<close>, the data variant for one with a \<^verbatim>\<open>type\<close>, the transcoded
  variant for one with \<^verbatim>\<open>original_type\<close> and \<^verbatim>\<open>transcoded_types\<close>, and the parameters
  variant for one that has only a \<^verbatim>\<open>parameters\<close> dictionary.
\<close>

theorem node_variants:
  "((\<exists>t. n = TaskNode t) \<noteq> (\<exists>d. n = DataNode d)) \<and>
   ((\<exists>a. m = TaskNodeMetadata a) \<or> (\<exists>b. m = DataNodeMetadata b) \<or>
    (\<exists>c. m = TranscodedDataNodeMetadata c) \<or> (\<exists>p. m = ParametersNodeMetadata p)) \<and>
   ParametersNodeMetadata p \<noteq> TaskNodeMetadata a \<and>
   ParametersNodeMetadata p \<noteq> DataNodeMetadata b \<and>
   ParametersNodeMetadata p \<noteq> TranscodedDataNodeMetadata c \<and>
   (map_of kw ''parameters'' = Some (PDict prm) \<and>
    map_of kw ''id'' = Some (PStr i) \<and> map_of kw ''name'' = Some (PStr nm) \<and>
    map_of kw ''tags'' = Some (PList (map PStr ts)) \<and>
    map_of kw ''pipelines'' = Some (PList (map PStr ps)) \<and>
    map_of kw ''type'' = Some (PStr ty) \<and>
    map_of kw ''modular_pipelines'' = Some (PList (map PStr mps)) \<and>
    map_of kw ''layer'' = None \<and> map_of kw ''dataset_type'' = None \<and>
    map_of kw ''stats'' = None \<longrightarrow>
      validate_NodeAPIResponse loc (PObject kw) =
        Inr (TaskNode \<lparr>n_id = i, n_name = nm, n_tags = ts, n_pipelines = ps,
               n_type = ty, n_modular_pipelines = Some mps, tn_parameters = prm\<rparr>)) \<and>
   (map_of kw ''parameters'' = None \<longrightarrow>
      (\<forall>r. validate_NodeAPIResponse loc (PObject kw) = Inr r \<longrightarrow>
         (\<exists>d. r = DataNode d \<and> map_of kw ''type'' = Some (PStr (n_type d))))) \<and>
   (map_of kw ''parameters'' = None \<and>
    map_of kw ''id'' = Some (PStr i) \<and> map_of kw ''name'' = Some (PStr nm) \<and>
    map_of kw ''tags'' = Some (PList (map PStr ts)) \<and>
    map_of kw ''pipelines'' = Some (PList (map PStr ps)) \<and>
    map_of kw ''type'' = Some (PStr ''parameters'') \<and>
    map_of kw ''modular_pipelines'' = Some (PList (map PStr mps)) \<and>
    map_of kw ''layer'' = Some PNone \<and>
    map_of kw ''dataset_type'' = None \<and> map_of kw ''stats'' = None \<longrightarrow>
      validate_NodeAPIResponse loc (PObject kw) =
        Inr (DataNode \<lparr>n_id = i, n_name = nm, n_tags = ts, n_pipelines = ps,
               n_type = ''parameters'', n_modular_pipelines = Some mps,
               dn_layer = None, dn_dataset_type = None, dn_stats = None\<rparr>)) \<and>
   (map_of kw ''parameters'' = Some (PDict prm) \<and>
    map_of kw ''id'' = Some (PStr i) \<and> map_of kw ''name'' = Some (PStr nm) \<and>
    map_of kw ''tags'' = Some (PList (map PStr ts)) \<and>
    map_of kw ''pipelines'' = Some (PList (map PStr ps)) \<and>
    map_of kw ''type'' = Some (PStr ty) \<and>
    map_of kw ''modular_pipelines'' = Some (PList (map PStr mps)) \<and>
    map_of kw ''layer'' = Some (dump_Optional PStr ly) \<and>
    map_of kw ''dataset_type'' = Some (dump_Optional PStr dt) \<and>
    map_of kw ''stats'' = Some (dump_Optional PDict st) \<longrightarrow>
      validate_NodeAPIResponse loc (PObject kw) =
        Inr (DataNode \<lparr>n_id = i, n_name = nm, n_tags = ts, n_pipelines = ps,
               n_type = ty, n_modular_pipelines = Some mps,
               dn_layer = ly, dn_dataset_type = dt, dn_stats = st\<rparr>)) \<and>
   (map_of kw' ''inputs'' = Some (PList (map PStr ins)) \<and>
    map_of kw' ''outputs'' = Some (PList (map PStr outs)) \<and>
    map_of kw' ''code'' = Some (dump_Optional PStr code) \<and>
    map_of kw' ''filepath'' = Some (dump_Optional PStr fp) \<and>
    map_of kw' ''parameters'' = Some (dump_Optional PDict oprm) \<and>
    map_of kw' ''run_command'' = Some (dump_Optional PStr rc) \<and>
    map_of kw' ''type'' = None \<and> map_of kw' ''original_type'' = None \<longrightarrow>
      validate_NodeMetadataAPIResponse loc' (PObject kw') =
        Inr (TaskNodeMetadata \<lparr>tm_code = code, tm_filepath = fp, tm_parameters = oprm,
               tm_inputs = ins, tm_outputs = outs, tm_run_command = rc\<rparr>)) \<and>
   (map_of kw' ''type'' = Some (PStr ty) \<and>
    map_of kw' ''filepath'' = Some (dump_Optional PStr fp) \<and>
    map_of kw' ''plot'' = Some (dump_Optional PDict pl) \<and>
    map_of kw' ''image'' = Some (dump_Optional PStr im) \<and>
    map_of kw' ''tracking_data'' = Some (dump_Optional PDict td) \<and>
    map_of kw' ''run_command'' = Some (dump_Optional PStr rc) \<and>
    map_of kw' ''preview'' = Some (dump_Optional PDict pv) \<and>
    map_of kw' ''stats'' = Some (dump_Optional PDict st) \<and>
    map_of kw' ''inputs'' = None \<and> map_of kw' ''original_type'' = None \<longrightarrow>
      validate_NodeMetadataAPIResponse loc' (PObject kw') =
        Inr (DataNodeMetadata \<lparr>dm_filepath = fp, dm_type = ty, dm_plot = pl, dm_image = im,
               dm_tracking_data = td, dm_run_command = rc, dm_preview = pv, dm_stats = st\<rparr>)) \<and>
   (map_of kw' ''inputs'' = None \<and> map_of kw' ''type'' = None \<and>
    map_of kw' ''filepath'' = Some (PStr path) \<and> map_of kw' ''original_type'' = Some (PStr ot) \<and>
    map_of kw' ''transcoded_types'' = Some (PList (map PStr tys)) \<and>
    map_of kw' ''run_command'' = Some (dump_Optional PStr rc) \<and>
    map_of kw' ''stats'' = Some (dump_Optional PDict st) \<longrightarrow>
      validate_NodeMetadataAPIResponse loc' (PObject kw') =
        Inr (TranscodedDataNodeMetadata
          \<lparr>xm_filepath = path, xm_original_type = ot, xm_transcoded_types = tys,
           xm_run_command = rc, xm_stats = st\<rparr>)) \<and>
   (map_of kw' ''parameters'' = Some (PDict prm) \<and> map_of kw' ''inputs'' = None \<and>
    map_of kw' ''type'' = None \<and> map_of kw' ''filepath'' = None \<longrightarrow>
      validate_NodeMetadataAPIResponse loc' (PObject kw') =
        Inr (ParametersNodeMetadata \<lparr>pm_parameters = prm\<rparr>))"
proof -
  have A: "(\<exists>t. n = TaskNode t) \<noteq> (\<exists>d. n = DataNode d)"
    by (cases n) auto
  have B: "(\<exists>a. m = TaskNodeMetadata a) \<or> (\<exists>b. m = DataNodeMetadata b) \<or>
    (\<exists>c. m = TranscodedDataNodeMetadata c) \<or> (\<exists>p. m = ParametersNodeMetadata p)"
    by (cases m) auto
  show ?thesis
    apply (intro conjI impI allI)
    subgoal by (rule A)
    subgoal by (rule B)
    subgoal by simp
    subgoal by simp
    subgoal by simp
    subgoal by (rule task_object_is_task)
    subgoal for r using node_without_parameters [of kw loc r] by blast
    subgoal by (rule parameters_node_is_data)
    subgoal by (rule hybrid_object_is_data)
    subgoal by (rule task_metadata_variant)
    subgoal by (rule data_metadata_variant)
    subgoal by (rule transcoded_metadata_variant)
    subgoal by (rule parameters_metadata_variant)
    done
qed

theorem node_variants_witness:
  "validate_NodeAPIResponse ''nodes'' example_task_node =
     Inr (TaskNode \<lparr>n_id = ''A'', n_name = ''split_data_node'', n_tags = [],
            n_pipelines = [''__default__''], n_type = ''task'', n_modular_pipelines = Some [],
            tn_parameters = [(KStr ''random_state'', PInt 3)]\<rparr>) \<and>
   validate_NodeAPIResponse ''nodes'' (PObject example_parameters_node) =
     Inr (DataNode \<lparr>n_id = ''f1f1425b'', n_name = ''params:model_options'', n_tags = [],
            n_pipelines = [''__default__''], n_type = ''parameters'',
            n_modular_pipelines = Some [],
            dn_layer = None, dn_dataset_type = None, dn_stats = None\<rparr>) \<and>
   validate_NodeAPIResponse ''nodes'' (PObject example_hybrid_node) =
     Inr (DataNode \<lparr>n_id = ''C'', n_name = ''both'', n_tags = [],
            n_pipelines = [''__default__''], n_type = ''task'', n_modular_pipelines = Some [],
            dn_layer = Some ''raw'', dn_dataset_type = None, dn_stats = None\<rparr>) \<and>
   validate_NodeMetadataAPIResponse ''response'' (PObject example_task_metadata) =
     Inr (TaskNodeMetadata
       \<lparr>tm_code = Some ''def split_data(data): ...'', tm_filepath = Some ''src/nodes.py'',
        tm_parameters = Some [(KStr ''test_size'', PInt 2)],
        tm_inputs = [''model_input_table''], tm_outputs = [''X_train'', ''X_test''],
        tm_run_command = Some ''kedro run --to-nodes=split_data_node''\<rparr>) \<and>
   validate_NodeMetadataAPIResponse ''response'' (PObject example_data_metadata) =
     Inr (DataNodeMetadata
       \<lparr>dm_filepath = Some ''data/01_raw/companies.csv'', dm_type = ''pandas.CSVDataSet'',
        dm_plot = None, dm_image = None, dm_tracking_data = None,
        dm_run_command = Some ''kedro run --to-outputs=companies'', dm_preview = None,
        dm_stats = Some [(KStr ''rows'', PInt 29768)]\<rparr>) \<and>
   validate_NodeMetadataAPIResponse ''response'' (PObject example_transcoded_metadata) =
     Inr (TranscodedDataNodeMetadata
       \<lparr>xm_filepath = ''data/01_raw/cars.pq'', xm_original_type = ''spark.SparkDataSet'',
        xm_transcoded_types = [''pandas.ParquetDataSet'', ''spark.SparkDataSet''],
        xm_run_command = None, xm_stats = None\<rparr>) \<and>
   validate_NodeMetadataAPIResponse ''response''
       (PObject [(''parameters'', PDict [(KStr ''test_size'', PInt 2)])]) =
     Inr (ParametersNodeMetadata \<lparr>pm_parameters = [(KStr ''test_size'', PInt 2)]\<rparr>)"
proof -
  note a1 = node_variants [where 
        kw = "[(''id'', PStr ''A''), (''name'', PStr ''split_data_node''), (''type'', PStr ''task''), (''tags'', PList []), (''pipelines'', PList [PStr ''__default__'']), (''modular_pipelines'', PList []), (''parameters'', PDict [(KStr ''random_state'', PInt 3)])]"
        and prm = "[(KStr ''random_state'', PInt 3)]" and i = "''A''"
        and nm = "''split_data_node''" and ts = "[]" and ps = "[''__default__'']"
        and ty = "''task''" and mps = "[]" and loc = "''nodes''" and ly = None
        and dt = None and st = None and kw' = "[]" and ins = "[]" and outs = "[]"
        and code = None and fp = None and oprm = None and rc = None
        and loc' = "''response''" and pl = None and im = None and td = None
        and pv = None and path = "''''" and ot = "''''" and tys = "[]"]
  note a2 = node_variants [where kw = example_parameters_node and prm = "[]" and i = "''f1f1425b''"
        and nm = "''params:model_options''" and ts = "[]" and ps = "[''__default__'']"
        and ty = "''parameters''" and mps = "[]" and loc = "''nodes''" and ly = None
        and dt = None and st = None and kw' = "[]" and ins = "[]" and outs = "[]"
        and code = None and fp = None and oprm = None and rc = None
        and loc' = "''response''" and pl = None and im = None and td = None
        and pv = None and path = "''''" and ot = "''''" and tys = "[]"]
  note a3 = node_variants [where kw = example_hybrid_node and prm = "[]" and i = "''C''" and nm = "''both''"
        and ts = "[]" and ps = "[''__default__'']" and ty = "''task''" and mps = "[]"
        and loc = "''nodes''" and ly = "Some ''raw''" and dt = None and st = None
        and kw' = "[]" and ins = "[]" and outs = "[]" and code = None and fp = None
        and oprm = None and rc = None and loc' = "''response''" and pl = None
        and im = None and td = None and pv = None and path = "''''" and ot = "''''"
        and tys = "[]"]
  note a4 = node_variants [where kw = "[]" and prm = "[]" and i = "''''" and nm = "''''" and ts = "[]"
        and ps = "[]" and ty = "''''" and mps = "[]" and loc = "''nodes''" and ly = None
        and dt = None and st = None and kw' = example_task_metadata
        and ins = "[''model_input_table'']" and outs = "[''X_train'', ''X_test'']"
        and code = "Some ''def split_data(data): ...''" and fp = "Some ''src/nodes.py''"
        and oprm = "Some [(KStr ''test_size'', PInt 2)]"
        and rc = "Some ''kedro run --to-nodes=split_data_node''"
        and loc' = "''response''" and pl = None and im = None and td = None
        and pv = None and path = "''''" and ot = "''''" and tys = "[]"]
  note a5 = node_variants [where kw = "[]" and prm = "[]" and i = "''''" and nm = "''''" and ts = "[]"
        and ps = "[]" and ty = "''pandas.CSVDataSet''" and mps = "[]"
        and loc = "''nodes''" and ly = None and dt = None
        and st = "Some [(KStr ''rows'', PInt 29768)]" and kw' = example_data_metadata
        and ins = "[]" and outs = "[]" and code = None
        and fp = "Some ''data/01_raw/companies.csv''" and oprm = None
        and rc = "Some ''kedro run --to-outputs=companies''" and loc' = "''response''"
        and pl = None and im = None and td = None and pv = None and path = "''''"
        and ot = "''''" and tys = "[]"]
  note a6 = node_variants [where kw = "[]" and prm = "[]" and i = "''''" and nm = "''''" and ts = "[]"
        and ps = "[]" and ty = "''''" and mps = "[]" and loc = "''nodes''" and ly = None
        and dt = None and st = None and kw' = example_transcoded_metadata and ins = "[]"
        and outs = "[]" and code = None and fp = None and oprm = None and rc = None
        and loc' = "''response''" and pl = None and im = None and td = None
        and pv = None and path = "''data/01_raw/cars.pq''"
        and ot = "''spark.SparkDataSet''"
        and tys = "[''pandas.ParquetDataSet'', ''spark.SparkDataSet'']"]
  note a7 = node_variants [where kw = "[]" and prm = "[(KStr ''test_size'', PInt 2)]" and i = "''''"
        and nm = "''''" and ts = "[]" and ps = "[]" and ty = "''''" and mps = "[]"
        and loc = "''nodes''" and ly = None and dt = None and st = None
        and kw' = "[(''parameters'', PDict [(KStr ''test_size'', PInt 2)])]"
        and ins = "[]" and outs = "[]" and code = None and fp = None and oprm = None
        and rc = None and loc' = "''response''" and pl = None and im = None
        and td = None and pv = None and path = "''''" and ot = "''''" and tys = "[]"]
  show ?thesis
    apply (intro conjI)
    subgoal using a1 by (simp add: example_task_node_def)
    subgoal using a2 by (simp add: example_parameters_node_def)
    subgoal using a3 by (simp add: example_hybrid_node_def)
    subgoal using a4 by (simp add: example_task_metadata_def)
    subgoal using a5 by (simp add: example_data_metadata_def)
    subgoal using a6 by (simp add: example_transcoded_metadata_def)
    subgoal using a7 by simp
    done
qed

section \<open>Fields of a flat node\<close>

lemma data_node_defaults:
  assumes "new_DataNodeAPIResponse kw = Inr d"
  shows "(map_of kw ''layer'' = None \<longrightarrow> dn_layer d = None) \<and>
         (map_of kw ''dataset_type'' = None \<longrightarrow> dn_dataset_type d = None) \<and>
         (map_of kw ''stats'' = None \<longrightarrow> dn_stats d = None) \<and>
         (map_of kw ''modular_pipelines'' = None \<longrightarrow> n_modular_pipelines d = None)"
  using assms unfolding new_DataNodeAPIResponse_def
  by (auto simp: ap_Inr_iff defaulted_def DataNodeAPIResponse.make_def)

lemma task_node_defaults:
  assumes "new_TaskNodeAPIResponse kw = Inr t"
  shows "map_of kw ''modular_pipelines'' = None \<longrightarrow> n_modular_pipelines t = None"
  using assms unfolding new_TaskNodeAPIResponse_def
  by (auto simp: ap_Inr_iff defaulted_def TaskNodeAPIResponse.make_def)

lemma node_common_names:
  "take 6 (dumped_names (model_dump_NodeAPIResponse n)) =
     [''id'', ''name'', ''tags'', ''pipelines'', ''type'', ''modular_pipelines'']"
  by (cases n) (simp_all add: dumped_names_def model_dump_TaskNodeAPIResponse_def
      model_dump_DataNodeAPIResponse_def)

lemma data_node_dumped:
  "dumped_names (model_dump_DataNodeAPIResponse d) =
     [''id'', ''name'', ''tags'', ''pipelines'', ''type'', ''modular_pipelines'',
      ''layer'', ''dataset_type'', ''stats''] \<and>
   dumped_field (model_dump_DataNodeAPIResponse d) ''layer'' = Some (dump_Optional PStr (dn_layer d)) \<and>
   dumped_field (model_dump_DataNodeAPIResponse d) ''dataset_type'' =
     Some (dump_Optional PStr (dn_dataset_type d)) \<and>
   dumped_field (model_dump_DataNodeAPIResponse d) ''stats'' = Some (dump_Optional PDict (dn_stats d)) \<and>
   dumped_field (model_dump_DataNodeAPIResponse d) ''modular_pipelines'' =
     Some (dump_Optional dump_strs (n_modular_pipelines d))"
  by (simp add: dumped_names_def dumped_field_def model_dump_DataNodeAPIResponse_def)

lemma task_node_dumped:
  "dumped_names (model_dump_TaskNodeAPIResponse t) =
     [''id'', ''name'', ''tags'', ''pipelines'', ''type'', ''modular_pipelines'', ''parameters''] \<and>
   dumped_field (model_dump_TaskNodeAPIResponse t) ''modular_pipelines'' =
     Some (dump_Optional dump_strs (n_modular_pipelines t))"
  by (simp add: dumped_names_def dumped_field_def model_dump_TaskNodeAPIResponse_def)

text \<open>
  C7. The plain data of every flat node, task or data, starts with the six common fields
  \<^verbatim>\<open>id\<close>, \<^verbatim>\<open>name\<close>, \<^verbatim>\<open>tags\<close>, \<^verbatim>\<open>pipelines\<close>, \<^verbatim>\<open>type\<close> and
  \<^verbatim>\<open>modular_pipelines\<close>. A data node always has the entries \<^verbatim>\<open>layer\<close>,
  \<^verbatim>\<open>dataset_type\<close> and \<^verbatim>\<open>stats\<close>; each of them that the source object lacks is
  \<^verbatim>\<open>None\<close> in the record and is emitted as \<^verbatim>\<open>None\<close>, not left out. The same holds for
  \<^verbatim>\<open>modular_pipelines\<close> of either variant when the source object has none.
\<close>

theorem flat_node_structurally_total:
  "take 6 (dumped_names (model_dump_NodeAPIResponse n)) =
     [''id'', ''name'', ''tags'', ''pipelines'', ''type'', ''modular_pipelines''] \<and>
   dumped_names (model_dump_DataNodeAPIResponse d') =
     [''id'', ''name'', ''tags'', ''pipelines'', ''type'', ''modular_pipelines'',
      ''layer'', ''dataset_type'', ''stats''] \<and>
   (new_DataNodeAPIResponse kw = Inr d \<longrightarrow>
      (map_of kw ''layer'' = None \<longrightarrow>
         dumped_field (model_dump_DataNodeAPIResponse d) ''layer'' = Some PNone) \<and>
      (map_of kw ''dataset_type'' = None \<longrightarrow>
         dumped_field (model_dump_DataNodeAPIResponse d) ''dataset_type'' = Some PNone) \<and>
      (map_of kw ''stats'' = None \<longrightarrow>
         dumped_field (model_dump_DataNodeAPIResponse d) ''stats'' = Some PNone) \<and>
      (map_of kw ''modular_pipelines'' = None \<longrightarrow>
         dumped_field (model_dump_DataNodeAPIResponse d) ''modular_pipelines'' = Some PNone)) \<and>
   (new_TaskNodeAPIResponse kw = Inr t \<longrightarrow>
      (map_of kw ''modular_pipelines'' = None \<longrightarrow>
         dumped_field (model_dump_TaskNodeAPIResponse t) ''modular_pipelines'' = Some PNone))"
  using node_common_names [of n] data_node_dumped [of d'] data_node_dumped [of d]
    task_node_dumped [of t] data_node_defaults [of kw d] task_node_defaults [of kw t]
  by auto

theorem flat_node_structurally_total_witness:
  "new_DataNodeAPIResponse
      [(''id'', PStr ''data_science''), (''name'', PStr ''data_science''),
       (''type'', PStr ''modularPipeline''), (''tags'', PList []), (''pipelines'', PList [])] =
     Inr \<lparr>n_id = ''data_science'', n_name = ''data_science'', n_tags = [], n_pipelines = [],
          n_type = ''modularPipeline'', n_modular_pipelines = None,
          dn_layer = None, dn_dataset_type = None, dn_stats = None\<rparr> \<and>
   model_dump_DataNodeAPIResponse
       \<lparr>n_id = ''data_science'', n_name = ''data_science'', n_tags = [], n_pipelines = [],
        n_type = ''modularPipeline'', n_modular_pipelines = None,
        dn_layer = None, dn_dataset_type = None, dn_stats = None\<rparr> =
     PDict [(KStr ''id'', PStr ''data_science''), (KStr ''name'', PStr ''data_science''),
            (KStr ''tags'', PList []), (KStr ''pipelines'', PList []),
            (KStr ''type'', PStr ''modularPipeline''), (KStr ''modular_pipelines'', PNone),
            (KStr ''layer'', PNone), (KStr ''dataset_type'', PNone), (KStr ''stats'', PNone)] \<and>
   dumped_field (model_dump_DataNodeAPIResponse
       \<lparr>n_id = ''data_science'', n_name = ''data_science'', n_tags = [], n_pipelines = [],
        n_type = ''modularPipeline'', n_modular_pipelines = None,
        dn_layer = None, dn_dataset_type = None, dn_stats = None\<rparr>) ''layer'' = Some PNone \<and>
   new_TaskNodeAPIResponse
      [(''id'', PStr ''A''), (''name'', PStr ''a''), (''type'', PStr ''task''),
       (''tags'', PList []), (''pipelines'', PList []), (''parameters'', PDict [])] =
     Inr \<lparr>n_id = ''A'', n_name = ''a'', n_tags = [], n_pipelines = [], n_type = ''task'',
          n_modular_pipelines = None, tn_parameters = []\<rparr> \<and>
   dumped_field (model_dump_TaskNodeAPIResponse
       \<lparr>n_id = ''A'', n_name = ''a'', n_tags = [], n_pipelines = [], n_type = ''task'',
        n_modular_pipelines = None, tn_parameters = []\<rparr>) ''modular_pipelines'' = Some PNone"
  using flat_node_structurally_total [where kw =
      "[(''id'', PStr ''data_science''), (''name'', PStr ''data_science''),
        (''type'', PStr ''modularPipeline''), (''tags'', PList []), (''pipelines'', PList [])]"
      and d = "\<lparr>n_id = ''data_science'', n_name = ''data_science'', n_tags = [], n_pipelines = [],
        n_type = ''modularPipeline'', n_modular_pipelines = None,
        dn_layer = None, dn_dataset_type = None, dn_stats = None\<rparr>"]
    flat_node_structurally_total [where kw =
      "[(''id'', PStr ''A''), (''name'', PStr ''a''), (''type'', PStr ''task''),
        (''tags'', PList []), (''pipelines'', PList []), (''parameters'', PDict [])]"
      and t = "\<lparr>n_id = ''A'', n_name = ''a'', n_tags = [], n_pipelines = [], n_type = ''task'',
        n_modular_pipelines = None, tn_parameters = []\<rparr>"]
  by (simp add: new_DataNodeAPIResponse_def new_TaskNodeAPIResponse_def required_def defaulted_def
      ap_def DataNodeAPIResponse.make_def TaskNodeAPIResponse.make_def
      model_dump_DataNodeAPIResponse_def dump_strs_def)

section \<open>Metadata of a transcoded dataset\<close>

lemma smart_union_four_member:
  "smart_union [(a, na), (b, nb), (c, nc), (d, nd)] = Inr y \<Longrightarrow>
   a = Inr y \<or> b = Inr y \<or> c = Inr y \<or> d = Inr y"
  using smart_union_member [of "[(a, na), (b, nb), (c, nc), (d, nd)]" y] by auto

lemma data_metadata_needs_type:
  assumes "validate_NodeMetadataAPIResponse loc (PObject kw) = Inr (DataNodeMetadata d)"
  shows "map_of kw ''type'' \<noteq> None"
proof
  assume n: "map_of kw ''type'' = None"
  have i: "isl (validate_DataNodeMetadataAPIResponse loc (PObject kw))"
    using n by (simp add: isl_ap validate_DataNodeMetadataAPIResponse_def model_input_PObject
        new_DataNodeMetadataAPIResponse_def required_missing)
  from assms have "validate_DataNodeMetadataAPIResponse loc (PObject kw) = Inr d"
    unfolding validate_NodeMetadataAPIResponse_def
    by (auto dest!: smart_union_four_member simp: ap_Inr_iff)
  with i show False by simp
qed

text \<open>
  C8. A dataset registered under more than one concrete type gets the transcoded
  variant of the metadata, whose \<^verbatim>\<open>transcoded_types\<close> are all its registered types
  (two of them for two registered types), and never the plain data variant. The plain
  data variant is only ever produced from an object that has a \<^verbatim>\<open>type\<close>, which the
  transcoded description has not.
\<close>

theorem transcoded_dataset_metadata:
  "(1 < length (ds_types ds) \<longrightarrow>
      dataset_metadata_response ds =
        Some (Inr (TranscodedDataNodeMetadata
          \<lparr>xm_filepath = ds_filepath ds, xm_original_type = ds_original_type ds,
           xm_transcoded_types = ds_types ds, xm_run_command = ds_run_command ds,
           xm_stats = ds_stats ds\<rparr>)) \<and>
      (\<forall>d. dataset_metadata_response ds \<noteq> Some (Inr (DataNodeMetadata d)))) \<and>
   (ds_types ds = [ta, tb] \<longrightarrow>
      (\<exists>x. dataset_metadata_response ds = Some (Inr (TranscodedDataNodeMetadata x)) \<and>
           length (xm_transcoded_types x) = 2)) \<and>
   (validate_NodeMetadataAPIResponse loc (PObject kw) = Inr (DataNodeMetadata d') \<longrightarrow>
      map_of kw ''type'' \<noteq> None)"
proof -
  have A: "dataset_metadata_response ds =
        Some (Inr (TranscodedDataNodeMetadata
          \<lparr>xm_filepath = ds_filepath ds, xm_original_type = ds_original_type ds,
           xm_transcoded_types = ds_types ds, xm_run_command = ds_run_command ds,
           xm_stats = ds_stats ds\<rparr>))" if "1 < length (ds_types ds)"
  proof -
    from that obtain a b rest where ty: "ds_types ds = a # b # rest"
      by (cases "ds_types ds"; cases "tl (ds_types ds)") auto
    show ?thesis
      unfolding dataset_metadata_response_def dataset_metadata_def ty
      by (simp add: transcoded_metadata_variant dump_strs_def)
  qed
  have B: "ds_types ds = [ta, tb] \<Longrightarrow> 1 < length (ds_types ds)"
    by simp
  show ?thesis
    using A B data_metadata_needs_type [of loc kw d'] by auto
qed

theorem transcoded_dataset_metadata_witness:
  "dataset_metadata_response example_dataset =
     Some (Inr (TranscodedDataNodeMetadata
       \<lparr>xm_filepath = ''data/01_raw/cars.csv'', xm_original_type = ''spark.SparkDataSet'',
        xm_transcoded_types = [''pandas.ParquetDataSet'', ''spark.SparkDataSet''],
        xm_run_command = None, xm_stats = None\<rparr>)) \<and>
   validate_NodeMetadataAPIResponse ''response''
       (PObject [(''filepath'', PStr ''data/cars.csv''), (''type'', PStr ''pandas.CSVDataSet'')]) =
     Inr (DataNodeMetadata
       \<lparr>dm_filepath = Some ''data/cars.csv'', dm_type = ''pandas.CSVDataSet'', dm_plot = None,
        dm_image = None, dm_tracking_data = None, dm_run_command = None, dm_preview = None,
        dm_stats = None\<rparr>) \<and>
   map_of [(''filepath'', PStr ''data/cars.csv''), (''type'', PStr ''pandas.CSVDataSet'')] ''type''
     \<noteq> None"
proof -
  have v: "validate_NodeMetadataAPIResponse ''response''
       (PObject [(''filepath'', PStr ''data/cars.csv''), (''type'', PStr ''pandas.CSVDataSet'')]) =
     Inr (DataNodeMetadata
       \<lparr>dm_filepath = Some ''data/cars.csv'', dm_type = ''pandas.CSVDataSet'', dm_plot = None,
        dm_image = None, dm_tracking_data = None, dm_run_command = None, dm_preview = None,
        dm_stats = None\<rparr>)"
    by (simp add: validate_NodeMetadataAPIResponse_def smart_union_def ap_def
        validate_TaskNodeMetadataAPIResponse_def validate_TranscodedDataNodeMetadataAPIReponse_def
        validate_ParametersNodeMetadataAPIResponse_def new_TranscodedDataNodeMetadataAPIReponse_def
        new_ParametersNodeMetadataAPIResponse_def validate_DataNodeMetadataAPIResponse_def
        model_input_def new_TaskNodeMetadataAPIResponse_def new_DataNodeMetadataAPIResponse_def
        required_def defaulted_def DataNodeMetadataAPIResponse.make_def)
  show ?thesis
    using transcoded_dataset_metadata [where ds = example_dataset
        and ta = "''pandas.ParquetDataSet''" and tb = "''spark.SparkDataSet''"
        and loc = "''response''"
        and kw = "[(''filepath'', PStr ''data/cars.csv''), (''type'', PStr ''pandas.CSVDataSet'')]"
        and d' = "\<lparr>dm_filepath = Some ''data/cars.csv'', dm_type = ''pandas.CSVDataSet'',
          dm_plot = None, dm_image = None, dm_tracking_data = None, dm_run_command = None,
          dm_preview = None, dm_stats = None\<rparr>"] v
    by (simp add: example_dataset_def)
qed

section \<open>Decoding what the encoder wrote\<close>

lemma of_char_digit_char: "n < 10 \<Longrightarrow> (of_char (digit_char n) :: nat) = 48 + n"
  by (simp add: digit_char_def)

lemma is_digit_digit_char: "n < 10 \<Longrightarrow> is_digit (digit_char n)"
  by (simp add: is_digit_def of_char_digit_char)

lemma dec_digits: "c \<in> set (dec n) \<Longrightarrow> is_digit c"
proof (induction n arbitrary: c rule: dec.induct)
  case (1 n)
  show ?case
  proof (cases "n < 10")
    case True
    with "1.prems" show ?thesis
      by (subst (asm) dec.simps) (simp add: is_digit_digit_char)
  next
    case False
    with "1.prems" have "c \<in> set (dec (n div 10)) \<or> c = digit_char (n mod 10)"
      by (subst (asm) dec.simps) auto
    with False "1.IH" show ?thesis
      by (auto simp: is_digit_digit_char)
  qed
qed

lemma dec_nonempty: "dec n \<noteq> []"
  by (subst dec.simps) simp

lemma digits_val_snoc: "digits_val (ds @ [c]) = 10 * digits_val ds + (of_char c - 48)"
  by (simp add: digits_val_def)

lemma digits_val_dec: "digits_val (dec n) = n"
proof (induction n rule: dec.induct)
  case (1 n)
  show ?case
  proof (cases "n < 10")
    case True
    then show ?thesis
      by (subst dec.simps) (simp add: digits_val_def of_char_digit_char)
  next
    case False
    with "1.IH" show ?thesis
      by (subst dec.simps) (simp add: digits_val_snoc of_char_digit_char)
  qed
qed

lemma dec_hd: "0 < n \<Longrightarrow> hd (dec n) \<noteq> CHR ''0''"
proof (induction n rule: dec.induct)
  case (1 n)
  show ?case
  proof (cases "n < 10")
    case True
    have "(of_char (digit_char n) :: nat) \<noteq> of_char (CHR ''0'')"
      using True "1.prems" by (simp add: of_char_digit_char)
    then have "digit_char n \<noteq> CHR ''0''" by auto
    with True show ?thesis
      by (subst dec.simps) simp
  next
    case False
    then have "0 < n div 10" by simp
    with "1.IH" False have "hd (dec (n div 10)) \<noteq> CHR ''0''" by simp
    with False show ?thesis
      by (subst dec.simps) (simp add: dec_nonempty)
  qed
qed

lemma dec_length_one: "n < 10 \<Longrightarrow> length (dec n) = 1"
  by (subst dec.simps) simp

lemma dec_leading: "1 < length (dec n) \<Longrightarrow> hd (dec n) \<noteq> CHR ''0''"
proof -
  assume l: "1 < length (dec n)"
  have "\<not> n < 10" using l dec_length_one [of n] by auto
  then show ?thesis using dec_hd [of n] by simp
qed

lemma takeWhile_dec: "num_end rest \<Longrightarrow> takeWhile is_digit (dec n @ rest) = dec n"
  by (cases rest) (auto simp: num_end_def takeWhile_append dec_digits takeWhile_eq_all_conv[THEN iffD2]
      intro!: takeWhile_eq_all_conv[THEN iffD2])

lemma dropWhile_dec: "num_end rest \<Longrightarrow> dropWhile is_digit (dec n @ rest) = rest"
  by (cases rest) (auto simp: num_end_def dropWhile_append dec_digits)

lemma minus_not_digit: "\<not> is_digit (CHR ''-'')"
  by (simp add: is_digit_def)

lemma hd_dec_not_minus: "hd (dec n) \<noteq> CHR ''-''"
  using dec_digits [of "hd (dec n)" n] dec_nonempty [of n] minus_not_digit by auto

lemma num_end_tail: "num_end rest \<Longrightarrow> \<not> (rest \<noteq> [] \<and> hd rest \<in> {CHR ''.'', CHR ''e'', CHR ''E''})"
  by (auto simp: num_end_def)

lemma parse_number_show_int:
  assumes "num_end rest"
  shows "parse_number (show_int i @ rest) = Some (i, rest)"
proof -
  let ?n = "if i < 0 then nat (- i) else nat i"
  have tw: "takeWhile is_digit (dec ?n @ rest) = dec ?n"
    and dw: "dropWhile is_digit (dec ?n @ rest) = rest"
    using assms by (rule takeWhile_dec, rule dropWhile_dec)
  have lead: "\<not> (1 < length (dec ?n) \<and> hd (dec ?n) = CHR ''0'')"
    using dec_leading [of ?n] by blast
  have tail: "\<not> (rest \<noteq> [] \<and> hd rest \<in> {CHR ''.'', CHR ''e'', CHR ''E''})"
    using assms by (rule num_end_tail)
  show ?thesis
  proof (cases "i < 0")
    case True
    then have s: "show_int i @ rest = CHR ''-'' # (dec ?n @ rest)"
      by (simp add: show_int_def)
    show ?thesis
      unfolding s parse_number_def Let_def
      using True tw dw lead tail by (simp add: dec_nonempty digits_val_dec)
  next
    case False
    then have s: "show_int i @ rest = dec ?n @ rest"
      by (simp add: show_int_def)
    have h: "hd (dec ?n @ rest) \<noteq> CHR ''-''"
      using hd_dec_not_minus [of ?n] dec_nonempty [of ?n] by simp
    show ?thesis
      unfolding s parse_number_def Let_def
      using False tw dw lead tail h by (simp add: dec_nonempty digits_val_dec)
  qed
qed

lemma hex_val_hex_char: "k < 16 \<Longrightarrow> hex_val (hex_char k) = Some k"
  by (auto simp: hex_val_def hex_char_def Let_def)

lemma unicode_escape_control:
  assumes "(of_char c :: nat) < 32"
  shows "unicode_escape [CHR ''0'', CHR ''0'', hex_char (of_char c div 16), hex_char (of_char c mod 16)]
    = Some c"
proof -
  let ?n = "of_char c :: nat"
  have a: "hex_val (hex_char (?n div 16)) = Some (?n div 16)"
    using assms by (intro hex_val_hex_char) simp
  have b: "hex_val (hex_char (?n mod 16)) = Some (?n mod 16)"
    by (intro hex_val_hex_char) simp
  have z: "hex_val (CHR ''0'') = Some 0"
    by (simp add: hex_val_def)
  have d: "?n div 16 < 8" using assms by simp
  have "char_of (16 * (?n div 16) + ?n mod 16) = c"
    by simp
  then show ?thesis
    using d by (simp add: unicode_escape_def a b z)
qed

lemma parse_chars_escape:
  "parse_chars (escape_char c @ t) = map_option (\<lambda>(u, r). (c # u, r)) (parse_chars t)"
proof -
  consider "c = CHR 0x22" | "c = CHR 0x5C" | "c = CHR 0x08" | "c = CHR 0x09" | "c = CHR 0x0A"
    | "c = CHR 0x0C" | "c = CHR 0x0D"
    | (ctl) "c \<notin> {CHR 0x22, CHR 0x5C, CHR 0x08, CHR 0x09, CHR 0x0A, CHR 0x0C, CHR 0x0D}"
        "(of_char c :: nat) < 32"
    | (plain) "c \<notin> {CHR 0x22, CHR 0x5C, CHR 0x08, CHR 0x09, CHR 0x0A, CHR 0x0C, CHR 0x0D}"
        "\<not> (of_char c :: nat) < 32"
    by blast
  then show ?thesis
  proof cases
    case ctl
    then show ?thesis
      by (simp add: escape_char_def unicode_escape_control)
  next
    case plain
    then show ?thesis
      by (simp add: escape_char_def)
  qed (simp_all add: escape_char_def unescape_def)
qed

lemma parse_chars_quote_body:
  "parse_chars (concat (map escape_char s) @ CHR 0x22 # rest) = Some (s, rest)"
  by (induction s) (simp_all add: parse_chars_escape)

lemma parse_chars_quote: "parse_chars (tl (quote s) @ rest) = Some (s, rest)"
  by (simp add: quote_def parse_chars_quote_body)

lemma skip_ws_ws: "\<forall>c\<in>set w. is_ws c \<Longrightarrow> skip_ws (w @ s) = skip_ws s"
  by (simp add: skip_ws_def dropWhile_append)

lemma skip_ws_nonws: "\<not> is_ws c \<Longrightarrow> skip_ws (c # cs) = c # cs"
  by (simp add: skip_ws_def)

lemma nl_ws: "\<forall>c\<in>set (nl d). is_ws c"
  by (simp add: nl_def is_ws_def)

lemma parse_value_ws: "\<forall>c\<in>set w. is_ws c \<Longrightarrow> parse_value n (w @ s) = parse_value n s"
  by (cases n) (simp_all add: skip_ws_ws)

lemma parse_elems_ws: "\<forall>c\<in>set w. is_ws c \<Longrightarrow> parse_elems n (w @ s) = parse_elems n s"
  by (cases n) (simp_all add: parse_value_ws)

lemma parse_members_ws: "\<forall>c\<in>set w. is_ws c \<Longrightarrow> parse_members n (w @ s) = parse_members n s"
  by (cases n) (simp_all add: skip_ws_ws)

lemma parse_value_close:
  "skip_ws t = CHR '']'' # cs \<Longrightarrow> parse_value n t = None"
  "skip_ws t = CHR ''}'' # cs \<Longrightarrow> parse_value n t = None"
  "skip_ws t = [] \<Longrightarrow> parse_value n t = None"
  by (cases n; simp add: is_digit_def)+

lemma parse_value_head:
  assumes "parse_value n t = Some r"
  shows "\<exists>c cs. skip_ws t = c # cs \<and> c \<noteq> CHR '']'' \<and> c \<noteq> CHR ''}''"
proof (cases "skip_ws t")
  case Nil
  with assms show ?thesis by (simp add: parse_value_close)
next
  case (Cons c cs)
  with assms parse_value_close(1,2) [of t cs n] show ?thesis by auto
qed

lemma parse_elems_head:
  assumes "parse_elems n t = Some r"
  shows "\<exists>c cs. skip_ws t = c # cs \<and> c \<noteq> CHR '']''"
proof (cases n)
  case 0
  with assms show ?thesis by simp
next
  case (Suc m)
  with assms obtain r' where "parse_value m t = Some r'"
    by (cases "parse_value m t") auto
  then show ?thesis using parse_value_head by blast
qed

lemma parse_members_close:
  "skip_ws t = CHR ''}'' # cs \<Longrightarrow> parse_members n t = None"
  "skip_ws t = [] \<Longrightarrow> parse_members n t = None"
  by (cases n; simp)+

lemma parse_members_head:
  assumes "parse_members n t = Some r"
  shows "\<exists>c cs. skip_ws t = c # cs \<and> c \<noteq> CHR ''}''"
proof (cases "skip_ws t")
  case Nil
  with assms show ?thesis by (simp add: parse_members_close)
next
  case (Cons c cs)
  with assms parse_members_close(1) [of t cs n] show ?thesis by auto
qed

lemma num_end_ws: "is_ws c \<Longrightarrow> num_end (c # cs)"
  by (auto simp: num_end_def is_ws_def is_digit_def)

lemma num_end_close:
  "\<forall>c\<in>set e. is_ws c \<Longrightarrow> num_end (e @ CHR '']'' # rest)"
  "\<forall>c\<in>set e. is_ws c \<Longrightarrow> num_end (e @ CHR ''}'' # rest)"
  "num_end (CHR '','' # rest)"
proof -
  have b: "num_end (CHR '']'' # rest)" "num_end (CHR ''}'' # rest)"
    by (simp_all add: num_end_def is_digit_def)
  show "\<forall>c\<in>set e. is_ws c \<Longrightarrow> num_end (e @ CHR '']'' # rest)"
    using b(1) by (cases e) (simp_all add: num_end_ws)
  show "\<forall>c\<in>set e. is_ws c \<Longrightarrow> num_end (e @ CHR ''}'' # rest)"
    using b(2) by (cases e) (simp_all add: num_end_ws)
  show "num_end (CHR '','' # rest)"
    by (simp add: num_end_def is_digit_def)
qed

lemma skip_ws_close: "\<forall>c\<in>set e. is_ws c \<Longrightarrow> skip_ws (e @ CHR '']'' # rest) = CHR '']'' # rest"
  "\<forall>c\<in>set e. is_ws c \<Longrightarrow> skip_ws (e @ CHR ''}'' # rest) = CHR ''}'' # rest"
  "skip_ws (CHR '','' # rest) = CHR '','' # rest"
  by (simp_all add: skip_ws_ws skip_ws_nonws is_ws_def)

lemma parse_elems_join:
  assumes "list_all2 (\<lambda>s x. \<forall>n rest. F x \<le> n \<longrightarrow> num_end rest \<longrightarrow>
              parse_value n (s @ rest) = Some (N x, rest)) items xs"
    and sep: "\<forall>c\<in>set sep. is_ws c" and e: "\<forall>c\<in>set e. is_ws c"
    and "items \<noteq> []"
    and "sum_list (map (\<lambda>x. Suc (F x)) xs) \<le> n"
  shows "parse_elems n (join_items sep items @ e @ CHR '']'' # rest) = Some (map N xs, rest)"
  using assms(1,4,5)
proof (induction items xs arbitrary: n rule: list_all2_induct)
  case Nil
  then show ?case by simp
next
  case (Cons s items x xs)
  from Cons.prems obtain m where n: "n = Suc m" and mx: "F x \<le> m"
    and mxs: "sum_list (map (\<lambda>x. Suc (F x)) xs) \<le> m"
    by (cases n) auto
  show ?case
  proof (cases items)
    case Nil
    have "parse_value m (s @ e @ CHR '']'' # rest) = Some (N x, e @ CHR '']'' # rest)"
      using Cons.hyps(1) mx num_end_close(1) [OF e] by blast
    with Nil Cons.hyps(2) show ?thesis
      by (simp add: n skip_ws_close(1) [OF e])
  next
    case (Cons y ys)
    let ?t = "sep @ join_items sep items @ e @ CHR '']'' # rest"
    have pv: "parse_value m (s @ CHR '','' # ?t) = Some (N x, CHR '','' # ?t)"
      using Cons.hyps(1) mx num_end_close(3) by blast
    have "parse_elems m (join_items sep items @ e @ CHR '']'' # rest) = Some (map N xs, rest)"
      using Cons.IH mxs Cons by simp
    then have "parse_elems m ?t = Some (map N xs, rest)"
      using parse_elems_ws [OF sep] by simp
    with pv Cons show ?thesis
      by (simp add: n skip_ws_close(3))
  qed
qed

lemma quote_Cons: "quote k = CHR 0x22 # tl (quote k)"
  by (simp add: quote_def)

lemma parse_members_join:
  assumes "list_all2 (\<lambda>m p. fst m = K p \<and> (\<forall>n rest. F p \<le> n \<longrightarrow> num_end rest \<longrightarrow>
              parse_value n (snd m @ rest) = Some (N p, rest))) ms kvs"
    and sep: "\<forall>c\<in>set sep. is_ws c" and e: "\<forall>c\<in>set e. is_ws c"
    and "ms \<noteq> []"
    and "sum_list (map (\<lambda>p. Suc (F p)) kvs) \<le> n"
  shows "parse_members n (join_items sep (map (member pretty) ms) @ e @ CHR ''}'' # rest) =
    Some (map (\<lambda>p. (K p, N p)) kvs, rest)"
  using assms(1,4,5)
proof (induction ms kvs arbitrary: n rule: list_all2_induct)
  case Nil
  then show ?case by simp
next
  case (Cons m ms p kvs)
  from Cons.prems obtain k where n: "n = Suc k" and mx: "F p \<le> k"
    and mxs: "sum_list (map (\<lambda>p. Suc (F p)) kvs) \<le> k"
    by (cases n) auto
  let ?colon = "if pretty then [CHR '' ''] else []"
  have colon_ws: "\<forall>c\<in>set ?colon. is_ws c"
    by (simp add: is_ws_def)
  have mem: "member pretty m @ t = CHR 0x22 # tl (quote (K p)) @ CHR '':'' # ?colon @ snd m @ t" for t
    using Cons.hyps(1) quote_Cons [of "K p"] by (simp add: member_def)
  have val: "parse_value k (?colon @ snd m @ t) = Some (N p, t)" if "num_end t" for t
    using Cons.hyps(1) mx that parse_value_ws [OF colon_ws, of k "snd m @ t"] by simp
  have step: "parse_members (Suc k) (member pretty m @ t) =
      (case skip_ws t of
         [] \<Rightarrow> None
       | c' # cs \<Rightarrow>
           if c' = CHR '','' then map_option (\<lambda>(ps, r). ((K p, N p) # ps, r)) (parse_members k cs)
           else if c' = CHR ''}'' then Some ([(K p, N p)], cs)
           else None)" if "num_end t" for t
    unfolding mem
    by (simp add: skip_ws_nonws is_ws_def parse_chars_quote val [OF that])
  show ?case
  proof (cases ms)
    case Nil
    with Cons.hyps(2) have "kvs = []" by simp
    with Nil show ?thesis
      using step [OF num_end_close(2) [OF e, of rest]]
      by (simp add: n skip_ws_close(2) [OF e])
  next
    case (Cons y ys)
    let ?t = "sep @ join_items sep (map (member pretty) ms) @ e @ CHR ''}'' # rest"
    have "parse_members k (join_items sep (map (member pretty) ms) @ e @ CHR ''}'' # rest) =
        Some (map (\<lambda>p. (K p, N p)) kvs, rest)"
      using Cons.IH mxs Cons by simp
    then have "parse_members k ?t = Some (map (\<lambda>p. (K p, N p)) kvs, rest)"
      using parse_members_ws [OF sep] by simp
    with Cons show ?thesis
      using step [OF num_end_close(3), of ?t]
      by (simp add: n skip_ws_close(3))
  qed
qed

lemma parse_value_list:
  assumes items: "list_all2 (\<lambda>s x. \<forall>n rest. F x \<le> n \<longrightarrow> num_end rest \<longrightarrow>
              parse_value n (s @ rest) = Some (N x, rest)) items xs"
    and m: "sum_list (map (\<lambda>x. Suc (F x)) xs) \<le> m"
  shows "parse_value (Suc m) (container pretty d (CHR ''['') (CHR '']'') items @ rest) =
    Some (PList (map N xs), rest)"
proof (cases "items = []")
  case True
  with items have "xs = []" by simp
  with True show ?thesis
    by (simp add: container_def skip_ws_nonws is_ws_def is_digit_def)
next
  case False
  let ?sep = "if pretty then nl (Suc d) else []"
  let ?e = "if pretty then nl d else []"
  have sep: "\<forall>c\<in>set ?sep. is_ws c" and e: "\<forall>c\<in>set ?e. is_ws c"
    using nl_ws by auto
  let ?T = "join_items ?sep items @ ?e @ CHR '']'' # rest"
  have c: "container pretty d (CHR ''['') (CHR '']'') items @ rest = CHR ''['' # ?sep @ ?T"
    using False by (simp add: container_def)
  have pe: "parse_elems m ?T = Some (map N xs, rest)"
    using parse_elems_join [OF items sep e False m] .
  then obtain c' cs' where h: "skip_ws ?T = c' # cs'" "c' \<noteq> CHR '']''"
    using parse_elems_head by blast
  have sk: "skip_ws (?sep @ ?T) = c' # cs'"
    using skip_ws_ws [OF sep, of ?T] h(1) by simp
  have pe': "parse_elems m (?sep @ ?T) = Some (map N xs, rest)"
    using parse_elems_ws [OF sep, of m ?T] pe by simp
  show ?thesis
    unfolding c
    using sk h(2) pe' by (simp add: skip_ws_nonws is_ws_def is_digit_def)
qed

lemma parse_value_dict:
  assumes ms: "list_all2 (\<lambda>m p. fst m = K p \<and> (\<forall>n rest. F p \<le> n \<longrightarrow> num_end rest \<longrightarrow>
              parse_value n (snd m @ rest) = Some (N p, rest))) ms kvs"
    and m: "sum_list (map (\<lambda>p. Suc (F p)) kvs) \<le> m"
  shows "parse_value (Suc m) (container pretty d (CHR ''{'') (CHR ''}'') (map (member pretty) ms) @ rest) =
    Some (PDict (dict_of_pairs (map (\<lambda>p. (K p, N p)) kvs)), rest)"
proof (cases "ms = []")
  case True
  with ms have "kvs = []" by simp
  with True show ?thesis
    by (simp add: container_def skip_ws_nonws is_ws_def is_digit_def dict_of_pairs_def)
next
  case False
  let ?sep = "if pretty then nl (Suc d) else []"
  let ?e = "if pretty then nl d else []"
  have sep: "\<forall>c\<in>set ?sep. is_ws c" and e: "\<forall>c\<in>set ?e. is_ws c"
    using nl_ws by auto
  let ?T = "join_items ?sep (map (member pretty) ms) @ ?e @ CHR ''}'' # rest"
  have c: "container pretty d (CHR ''{'') (CHR ''}'') (map (member pretty) ms) @ rest =
      CHR ''{'' # ?sep @ ?T"
    using False by (simp add: container_def)
  have pe: "parse_members m ?T = Some (map (\<lambda>p. (K p, N p)) kvs, rest)"
    using parse_members_join [OF ms sep e False m] .
  then obtain c' cs' where h: "skip_ws ?T = c' # cs'" "c' \<noteq> CHR ''}''"
    using parse_members_head by blast
  have sk: "skip_ws (?sep @ ?T) = c' # cs'"
    using skip_ws_ws [OF sep, of ?T] h(1) by simp
  have pe': "parse_members m (?sep @ ?T) = Some (map (\<lambda>p. (K p, N p)) kvs, rest)"
    using parse_members_ws [OF sep, of m ?T] pe by simp
  show ?thesis
    unfolding c
    using sk h(2) pe' by (simp add: skip_ws_nonws is_ws_def is_digit_def)
qed

lemma parse_value_null: "parse_value (Suc m) (''null'' @ rest) = Some (PNone, rest)"
  by (simp add: skip_ws_nonws is_ws_def literal_def)

lemma parse_value_bool:
  "parse_value (Suc m) ((if b then ''true'' else ''false'') @ rest) = Some (PBool b, rest)"
  by (simp add: skip_ws_nonws is_ws_def literal_def)

lemma parse_value_str: "parse_value (Suc m) (quote s @ rest) = Some (PStr s, rest)"
proof -
  have "parse_value (Suc m) (CHR 0x22 # tl (quote s) @ rest) = Some (PStr s, rest)"
    by (simp add: skip_ws_nonws is_ws_def parse_chars_quote)
  then show ?thesis
    by (subst quote_Cons) simp
qed

lemma show_int_head: "\<exists>c cs. show_int i = c # cs \<and> (c = CHR ''-'' \<or> is_digit c)"
proof (cases "i < 0")
  case True
  then show ?thesis by (simp add: show_int_def)
next
  case False
  obtain c cs where d: "dec (nat i) = c # cs"
    using dec_nonempty [of "nat i"] by (cases "dec (nat i)") auto
  then have "is_digit c" using dec_digits [of c "nat i"] by simp
  with False d show ?thesis by (simp add: show_int_def)
qed

lemma digit_not_other:
  assumes "is_digit c"
  shows "c \<noteq> CHR ''n''" "c \<noteq> CHR ''t''" "c \<noteq> CHR ''f''" "c \<noteq> CHR 0x22" "\<not> is_ws c"
  using assms by (auto simp: is_digit_def is_ws_def)

lemma parse_value_number:
  assumes "c = CHR ''-'' \<or> is_digit c"
  shows "parse_value (Suc m) (c # cs) = map_option (\<lambda>(i, r). (PInt i, r)) (parse_number (c # cs))"
proof (cases "c = CHR ''-''")
  case True
  then show ?thesis
    by (simp add: skip_ws_nonws is_ws_def)
next
  case False
  with assms have d: "is_digit c" by simp
  show ?thesis
    using d digit_not_other [OF d] by (simp add: skip_ws_nonws)
qed

lemma parse_value_int:
  assumes "num_end rest"
  shows "parse_value (Suc m) (show_int i @ rest) = Some (PInt i, rest)"
proof -
  obtain c cs where h: "show_int i = c # cs" "c = CHR ''-'' \<or> is_digit c"
    using show_int_head by blast
  have "parse_value (Suc m) ((c # cs) @ rest) =
      map_option (\<lambda>(i, r). (PInt i, r)) (parse_number ((c # cs) @ rest))"
    using parse_value_number [OF h(2)] by simp
  then show ?thesis
    using parse_number_show_int [OF assms, of i] h(1) by simp
qed

lemma dumps_list_all2:
  "dumps_list opt d xs = Inr items \<Longrightarrow> list_all2 (\<lambda>s x. dumps_val opt d x = Inr s) items xs"
  by (induction xs arbitrary: items) (auto split: sum.splits)

lemma dumps_dict_all2:
  "dumps_dict opt d kvs = Inr ms \<Longrightarrow>
   list_all2 (\<lambda>m p. dumps_key opt (fst p) = Inr (fst m) \<and> dumps_val opt d (snd p) = Inr (snd m)) ms kvs"
  by (induction kvs arbitrary: ms) (auto split: sum.splits)

lemma dumps_key_text: "dumps_key opt k = Inr s \<Longrightarrow> s = key_text k"
  by (cases k) (auto split: if_splits)

lemma parse_dumps_nd:
  "num_end rest \<Longrightarrow> fuel_nd a \<le> n \<Longrightarrow>
   parse_value n (dumps_nd pretty d a @ rest) = Some (tolist a, rest)"
proof (induction a arbitrary: d n rest)
  case (Scalar w)
  then obtain m where "n = Suc m" by (cases n) auto
  with Scalar show ?case by (simp add: parse_value_int del: parse_value.simps)
next
  case (Axis xs)
  then obtain m where n: "n = Suc m" and m: "sum_list (map (\<lambda>x. Suc (fuel_nd x)) xs) \<le> m"
    by (cases n) auto
  have "list_all2 (\<lambda>s x. \<forall>n rest. fuel_nd x \<le> n \<longrightarrow> num_end rest \<longrightarrow>
              parse_value n (s @ rest) = Some (tolist x, rest)) (map (dumps_nd pretty (Suc d)) xs) xs"
    using Axis.IH by (simp add: list.rel_map list_all2_same)
  from parse_value_list [OF this m, of pretty d rest] show ?case
    by (simp add: n comp_def del: parse_value.simps)
qed

lemma parse_dumps:
  "dumps_val opt d v = Inr s \<Longrightarrow> \<not> has_opt opt OPT_SORT_KEYS \<Longrightarrow> num_end rest \<Longrightarrow>
   fuel v \<le> n \<Longrightarrow> parse_value n (s @ rest) = Some (norm v, rest)"
proof (induction v arbitrary: d s rest n)
  case PNone
  then obtain m where "n = Suc m" by (cases n) auto
  with PNone show ?case using parse_value_null [of m rest] by (simp del: parse_value.simps)
next
  case (PBool b)
  then obtain m where "n = Suc m" by (cases n) auto
  with PBool show ?case using parse_value_bool [of m b rest] by (auto simp del: parse_value.simps)
next
  case (PInt i)
  then obtain m where "n = Suc m" by (cases n) auto
  with PInt show ?case using parse_value_int [of rest m i]
    by (auto split: if_splits simp del: parse_value.simps)
next
  case (PStr t)
  then obtain m where "n = Suc m" by (cases n) auto
  with PStr show ?case using parse_value_str [of m t rest] by (auto simp del: parse_value.simps)
next
  case (PList xs)
  from PList.prems obtain m where n: "n = Suc m"
    and m: "sum_list (map (\<lambda>x. Suc (fuel x)) xs) \<le> m"
    by (cases n) auto
  from PList.prems(1) obtain items where it: "dumps_list opt (Suc d) xs = Inr items"
    and s: "s = container (has_opt opt OPT_INDENT_2) d (CHR ''['') (CHR '']'') items"
    by (auto split: if_splits sum.splits)
  have "list_all2 (\<lambda>s x. \<forall>n rest. fuel x \<le> n \<longrightarrow> num_end rest \<longrightarrow>
              parse_value n (s @ rest) = Some (norm x, rest)) items xs"
    using dumps_list_all2 [OF it] PList.IH PList.prems(2)
    by (elim list.rel_mono_strong) blast
  from parse_value_list [OF this m, of "has_opt opt OPT_INDENT_2" d rest] show ?case
    by (simp add: n s del: parse_value.simps)
next
  case (PDict kvs)
  from PDict.prems obtain m where n: "n = Suc m"
    and m: "sum_list (map (\<lambda>p. Suc (fuel (snd p))) kvs) \<le> m"
    by (cases n) auto
  from PDict.prems(1,2) obtain ms where it: "dumps_dict opt (Suc d) kvs = Inr ms"
    and s: "s = container (has_opt opt OPT_INDENT_2) d (CHR ''{'') (CHR ''}'')
      (map (member (has_opt opt OPT_INDENT_2)) ms)"
    by (auto split: if_splits sum.splits)
  have "list_all2 (\<lambda>m p. fst m = key_text (fst p) \<and>
            (\<forall>n rest. fuel (snd p) \<le> n \<longrightarrow> num_end rest \<longrightarrow>
              parse_value n (snd m @ rest) = Some (norm (snd p), rest))) ms kvs"
    using dumps_dict_all2 [OF it]
  proof (elim list.rel_mono_strong, intro conjI allI impI)
    fix m p
    assume "dumps_key opt (fst p) = Inr (fst m) \<and> dumps_val opt (Suc d) (snd p) = Inr (snd m)"
    then show "fst m = key_text (fst p)" using dumps_key_text by blast
  next
    fix m p n rest
    assume a: "dumps_key opt (fst p) = Inr (fst m) \<and> dumps_val opt (Suc d) (snd p) = Inr (snd m)"
      and p: "p \<in> set kvs" and f: "fuel (snd p) \<le> n" and r: "num_end rest"
    have "snd p \<in> Basic_BNFs.snds p" by (cases p) simp
    from PDict.IH [OF p this _ PDict.prems(2) r f] a
    show "parse_value n (snd m @ rest) = Some (norm (snd p), rest)" by blast
  qed
  from parse_value_dict [OF this m, of "has_opt opt OPT_INDENT_2" d rest] show ?case
    by (simp add: n s del: parse_value.simps)
next
  case (PNdarray a)
  then show ?case
    using parse_dumps_nd [of rest a n "has_opt opt OPT_INDENT_2" d]
    by (auto split: if_splits simp del: parse_value.simps)
next
  case (PObject attrs)
  then show ?case by simp
qed

lemma length_join:
  "items \<noteq> [] \<Longrightarrow> sum_list (map (\<lambda>s. Suc (length s)) items) \<le> Suc (length (join_items sep items))"
  by (induction sep items rule: join_items.induct) auto

lemma length_container:
  "Suc (sum_list (map (\<lambda>s. Suc (length s)) items)) \<le> length (container pretty d l r items)"
proof (cases "items = []")
  case True
  then show ?thesis by (simp add: container_def)
next
  case False
  then show ?thesis
    using length_join [OF False, of "nl (Suc d)"] length_join [OF False, of "[]"]
    by (simp add: container_def)
qed

lemma sum_list_all2_mono:
  "list_all2 (\<lambda>a b. f b \<le> g a) as bs \<Longrightarrow>
   sum_list (map (\<lambda>b. Suc (f b)) bs) \<le> sum_list (map (\<lambda>a. Suc (g a)) as)"
  by (induction as bs rule: list_all2_induct) auto

lemma show_int_nonempty: "show_int i \<noteq> []"
  by (simp add: show_int_def dec_nonempty)

lemma show_int_length: "Suc 0 \<le> length (show_int i)"
  using show_int_nonempty [of i] by (cases "show_int i") simp_all

lemma fuel_nd_le_length: "fuel_nd a \<le> length (dumps_nd pretty d a)"
proof (induction a arbitrary: d)
  case (Scalar w)
  show ?case using show_int_length [of "sint w"] by simp
next
  case (Axis xs)
  have "list_all2 (\<lambda>s x. fuel_nd x \<le> length s) (map (dumps_nd pretty (Suc d)) xs) xs"
    using Axis.IH by (simp add: list.rel_map list_all2_same)
  from sum_list_all2_mono [OF this]
    length_container [of "map (dumps_nd pretty (Suc d)) xs" pretty d "CHR ''[''" "CHR '']''"]
  show ?case by simp
qed

lemma fuel_le_length: "dumps_val opt d v = Inr s \<Longrightarrow> fuel v \<le> length s"
proof (induction v arbitrary: d s)
  case (PInt i)
  then show ?case using show_int_length [of i]
    by (auto split: if_splits)
next
  case (PList xs)
  from PList.prems obtain items where it: "dumps_list opt (Suc d) xs = Inr items"
    and s: "s = container (has_opt opt OPT_INDENT_2) d (CHR ''['') (CHR '']'') items"
    by (auto split: if_splits sum.splits)
  have "list_all2 (\<lambda>s x. fuel x \<le> length s) items xs"
    using dumps_list_all2 [OF it] PList.IH
    by (elim list.rel_mono_strong) blast
  from sum_list_all2_mono [OF this]
    length_container [of items "has_opt opt OPT_INDENT_2" d "CHR ''[''" "CHR '']''"]
  show ?case by (simp add: s)
next
  case (PDict kvs)
  from PDict.prems obtain ms where it: "dumps_dict opt (Suc d) kvs = Inr ms"
    and s: "length s = length (container (has_opt opt OPT_INDENT_2) d (CHR ''{'') (CHR ''}'')
      (map (member (has_opt opt OPT_INDENT_2)) (if has_opt opt OPT_SORT_KEYS then sort_by_key ms else ms)))"
    by (auto split: if_splits sum.splits)
  have a: "list_all2 (\<lambda>m p. fuel (snd p) \<le> length (member (has_opt opt OPT_INDENT_2) m)) ms kvs"
    using dumps_dict_all2 [OF it]
  proof (elim list.rel_mono_strong)
    fix m p
    assume h: "dumps_key opt (fst p) = Inr (fst m) \<and> dumps_val opt (Suc d) (snd p) = Inr (snd m)"
      and p: "p \<in> set kvs"
    have "snd p \<in> Basic_BNFs.snds p" by (cases p) simp
    from PDict.IH [OF p this] h have "fuel (snd p) \<le> length (snd m)" by blast
    then show "fuel (snd p) \<le> length (member (has_opt opt OPT_INDENT_2) m)"
      by (simp add: member_def)
  qed
  have srt: "sum_list (map (\<lambda>a. Suc (length (member b a))) (sort_by_key ms)) =
      sum_list (map (\<lambda>a. Suc (length (member b a))) ms)" for b
  proof -
    have ins: "sum_list (map f (insert_by_key q qs)) = f q + sum_list (map f qs)"
      for f :: "string \<times> string \<Rightarrow> nat" and q qs
      by (induction qs) auto
    show ?thesis
      unfolding sort_by_key_def by (induction ms) (simp_all add: ins)
  qed
  let ?b = "has_opt opt OPT_INDENT_2"
  let ?ms = "if has_opt opt OPT_SORT_KEYS then sort_by_key ms else ms"
  have e: "sum_list (map (\<lambda>a. Suc (length (member ?b a))) ?ms) =
      sum_list (map (\<lambda>a. Suc (length (member ?b a))) ms)"
    using srt [of ?b] by simp
  have l: "Suc (sum_list (map (\<lambda>a. Suc (length (member ?b a))) ?ms)) \<le> length s"
    using length_container [of "map (member ?b) ?ms" ?b d "CHR ''{''" "CHR ''}''"]
    unfolding s by (simp only: map_map comp_def)
  from sum_list_all2_mono [OF a] e l show ?case by simp
next
  case (PNdarray a)
  then show ?case using fuel_nd_le_length by (auto split: if_splits)
qed (auto simp: quote_def)

lemma decode_dumps:
  assumes "orjson_dumps v option = Inr s" and "\<not> has_opt option OPT_SORT_KEYS"
  shows "decode s = Some (norm v)"
proof -
  from assms(1) have d: "dumps_val option 0 v = Inr s"
    by (auto simp: orjson_dumps_def split: sum.splits)
  have e: "num_end []" by (simp add: num_end_def)
  have "parse_value (length s) (s @ []) = Some (norm v, [])"
    using parse_dumps [OF d assms(2) e fuel_le_length [OF d]] .
  then show ?thesis
    by (simp add: decode_def skip_ws_def)
qed

lemma human_options:
  "has_opt (OPT_INDENT_2 OR OPT_NON_STR_KEYS OR OPT_SERIALIZE_NUMPY) OPT_INDENT_2"
  "has_opt (OPT_INDENT_2 OR OPT_NON_STR_KEYS OR OPT_SERIALIZE_NUMPY) OPT_NON_STR_KEYS"
  "has_opt (OPT_INDENT_2 OR OPT_NON_STR_KEYS OR OPT_SERIALIZE_NUMPY) OPT_SERIALIZE_NUMPY"
  "\<not> has_opt (OPT_INDENT_2 OR OPT_NON_STR_KEYS OR OPT_SERIALIZE_NUMPY) OPT_SORT_KEYS"
  by (simp_all add: has_opt_def OPT_INDENT_2_def OPT_NON_STR_KEYS_def OPT_SERIALIZE_NUMPY_def
      OPT_SORT_KEYS_def)

lemma decode_encode:
  "encode_to_human_readable v = Inr s \<Longrightarrow> decode s = Some (norm v)"
  unfolding encode_to_human_readable_def
  by (rule decode_dumps [OF _ human_options(4)])


section \<open>Values the encoder accepts, arrays and indentation\<close>

lemma dict_set_fresh: "k \<notin> fst ` set acc \<Longrightarrow> dict_set acc k v = acc @ [(k, v)]"
  by (induction acc) auto

lemma dict_of_pairs_distinct_aux:
  "distinct (map fst acc @ map (\<lambda>p. KStr (fst p)) ps) \<Longrightarrow>
   foldl (\<lambda>acc p. dict_set acc (KStr (fst p)) (snd p)) acc ps =
     acc @ map (\<lambda>p. (KStr (fst p), snd p)) ps"
proof (induction ps arbitrary: acc)
  case Nil
  then show ?case by simp
next
  case (Cons p ps)
  have f: "KStr (fst p) \<notin> fst ` set acc"
    using Cons.prems by auto
  have d: "distinct (map fst (acc @ [(KStr (fst p), snd p)]) @ map (\<lambda>p. KStr (fst p)) ps)"
    using Cons.prems by auto
  show ?case
    using Cons.IH [OF d] by (simp add: dict_set_fresh [OF f])
qed

lemma dict_of_pairs_distinct:
  "distinct (map (\<lambda>p. KStr (fst p)) ps) \<Longrightarrow>
   dict_of_pairs ps = map (\<lambda>p. (KStr (fst p), snd p)) ps"
  unfolding dict_of_pairs_def
  using dict_of_pairs_distinct_aux [of "[]" ps] by simp

lemma norm_plain: "plain_json v \<Longrightarrow> norm v = v"
proof (induction v)
  case (PList xs)
  then show ?case by (auto simp: list_all_iff intro: map_idI)
next
  case (PDict kvs)
  let ?ps = "map (\<lambda>p. (key_text (fst p), norm (snd p))) kvs"
  have each: "(KStr (key_text (fst p)), norm (snd p)) = p" if "p \<in> set kvs" for p
  proof -
    have s: "snd p \<in> Basic_BNFs.snds p" by (cases p) simp
    from PDict.prems that have k: "case fst p of KStr s \<Rightarrow> True | _ \<Rightarrow> False"
      and pv: "plain_json (snd p)"
      by (auto simp: list_all_iff)
    from k have "KStr (key_text (fst p)) = fst p" by (cases "fst p") auto
    with PDict.IH [OF that s pv] show ?thesis by (cases p) auto
  qed
  have m: "map (\<lambda>p. (KStr (fst p), snd p)) ?ps = kvs"
    using each by (simp add: comp_def map_idI)
  have k: "map (\<lambda>p. KStr (fst p)) ?ps = map fst kvs"
    using each by (auto simp: comp_def intro!: map_cong)
  have "distinct (map (\<lambda>p. KStr (fst p)) ?ps)"
    unfolding k using PDict.prems by simp
  from dict_of_pairs_distinct [OF this] m show ?case by simp
qed auto

lemma in64_sint: "in64 (sint (w :: 64 word))"
  using sint_ge [of w] sint_lt [of w] by (simp add: in64_def)

lemma dumps_list_map:
  assumes "\<And>x. x \<in> set xs \<Longrightarrow> dumps_val opt d (f x) = Inr (g x)"
  shows "dumps_list opt d (map f xs) = Inr (map g xs)"
  using assms by (induction xs) auto

lemma dumps_tolist:
  "encodable d (tolist a) \<Longrightarrow>
   dumps_val opt d (tolist a) = Inr (dumps_nd (has_opt opt OPT_INDENT_2) d a)"
proof (induction a arbitrary: d)
  case (Scalar w)
  then show ?case by (simp add: in64_sint)
next
  case (Axis xs)
  have "dumps_list opt (Suc d) (map tolist xs) =
      Inr (map (dumps_nd (has_opt opt OPT_INDENT_2) (Suc d)) xs)"
    using Axis by (intro dumps_list_map) (auto simp: list_all_iff)
  with Axis.prems show ?case by simp
qed

lemma dumps_key_ok:
  "has_opt opt OPT_NON_STR_KEYS \<Longrightarrow> (\<exists>s. dumps_key opt k = Inr s) \<longleftrightarrow> key_ok k"
  by (cases k) auto

lemma dumps_list_ok:
  "(\<exists>items. dumps_list opt d xs = Inr items) \<longleftrightarrow> (\<forall>x\<in>set xs. \<exists>s. dumps_val opt d x = Inr s)"
  by (induction xs) (auto split: sum.splits)

lemma dumps_dict_ok:
  "(\<exists>ms. dumps_dict opt d kvs = Inr ms) \<longleftrightarrow>
   (\<forall>p\<in>set kvs. (\<exists>s. dumps_key opt (fst p) = Inr s) \<and> (\<exists>s. dumps_val opt d (snd p) = Inr s))"
  by (induction kvs) (auto split: sum.splits)

lemma dumps_val_ok:
  assumes "has_opt opt OPT_NON_STR_KEYS" "has_opt opt OPT_SERIALIZE_NUMPY"
  shows "(\<exists>s. dumps_val opt d v = Inr s) \<longleftrightarrow> encodable d v"
proof (induction v arbitrary: d)
  case (PList xs)
  have "(\<exists>s. dumps_val opt d (PList xs) = Inr s) \<longleftrightarrow>
      d < RECURSION_LIMIT \<and> (\<exists>items. dumps_list opt (Suc d) xs = Inr items)"
    by (auto split: sum.splits)
  with PList show ?case
    by (simp add: dumps_list_ok list_all_iff)
next
  case (PDict kvs)
  have "(\<exists>s. dumps_val opt d (PDict kvs) = Inr s) \<longleftrightarrow>
      d < RECURSION_LIMIT \<and> (\<exists>ms. dumps_dict opt (Suc d) kvs = Inr ms)"
    by (auto split: sum.splits)
  moreover have "(\<exists>s. dumps_val opt (Suc d) (snd p) = Inr s) \<longleftrightarrow> encodable (Suc d) (snd p)"
    if "p \<in> set kvs" for p
    using PDict [OF that, of "snd p" "Suc d"] by (cases p) simp
  ultimately show ?case
    by (auto simp: dumps_dict_ok list_all_iff dumps_key_ok [OF assms(1)])
qed (use assms in auto)

lemma indents_append:
  "a \<noteq> [] \<Longrightarrow> last a \<noteq> CHR 0x0A \<Longrightarrow> last a \<noteq> CHR '' '' \<Longrightarrow>
   indents st (a @ b) = indents st a @ indents None b"
proof (induction a arbitrary: st)
  case Nil
  then show ?case by simp
next
  case (Cons c cs)
  show ?case
  proof (cases "cs = []")
    case True
    with Cons.prems show ?thesis by (cases st) simp_all
  next
    case False
    with Cons.prems have "last cs \<noteq> CHR 0x0A" "last cs \<noteq> CHR '' ''" by simp_all
    from Cons.IH [OF False this] show ?thesis by (cases st) simp_all
  qed
qed

lemma indents_spaces:
  "c \<noteq> CHR 0x0A \<Longrightarrow> c \<noteq> CHR '' '' \<Longrightarrow>
   indents (Some j) (replicate m (CHR '' '') @ c # cs) = (j + m) # indents None cs"
  by (induction m arbitrary: j) simp_all

lemma indents_nl:
  "c \<noteq> CHR 0x0A \<Longrightarrow> c \<noteq> CHR '' '' \<Longrightarrow>
   indents None (nl k @ c # cs) = 2 * k # indents None cs"
  using indents_spaces [of c 0 "2 * k" cs] by (simp add: nl_def)

lemma indents_plain: "c \<noteq> CHR 0x0A \<Longrightarrow> indents None (c # cs) = indents None cs"
  by simp

lemma indents_no_newline: "CHR 0x0A \<notin> set s \<Longrightarrow> indents None s = []"
  by (induction s) auto

lemma hex_char_not_newline: "k < 16 \<Longrightarrow> hex_char k \<noteq> CHR 0x0A"
proof
  assume k: "k < 16" and e: "hex_char k = CHR 0x0A"
  have "48 \<le> (of_char (hex_char k) :: nat)"
    using k by (simp add: hex_char_def)
  with e show False by simp
qed

lemma escape_char_no_newline: "CHR 0x0A \<notin> set (escape_char c)"
proof (cases "(of_char c :: nat) < 32")
  case True
  then have "of_char c div 16 < (16 :: nat)" by simp
  from hex_char_not_newline [OF this] hex_char_not_newline [of "of_char c mod 16"]
  show ?thesis by (auto simp: escape_char_def)
next
  case False
  then show ?thesis by (auto simp: escape_char_def)
qed

lemma quote_no_newline: "CHR 0x0A \<notin> set (quote s)"
  by (induction s) (auto simp: quote_def escape_char_no_newline)

lemma digit_not_space: "is_digit c \<Longrightarrow> c \<noteq> CHR 0x0A \<and> c \<noteq> CHR '' ''"
  by (auto simp: is_digit_def)

lemma show_int_chars: "c \<in> set (show_int i) \<Longrightarrow> c \<noteq> CHR 0x0A \<and> c \<noteq> CHR '' ''"
  using digit_not_space dec_digits by (auto simp: show_int_def split: if_splits)

lemma show_int_no_newline: "CHR 0x0A \<notin> set (show_int i)"
  using show_int_chars by blast

lemma token_show_int: "token (show_int i)"
proof -
  have n: "show_int i \<noteq> []" by (rule show_int_nonempty)
  then have "hd (show_int i) \<in> set (show_int i)" "last (show_int i) \<in> set (show_int i)"
    by simp_all
  with n show_int_chars show ?thesis unfolding token_def by blast
qed

lemma token_quote: "token (quote s)"
  by (simp add: token_def quote_def)

lemma token_container:
  "l \<noteq> CHR 0x0A \<Longrightarrow> l \<noteq> CHR '' '' \<Longrightarrow> r \<noteq> CHR 0x0A \<Longrightarrow> r \<noteq> CHR '' '' \<Longrightarrow>
   token (container pretty d l r items)"
  by (simp add: token_def container_def)

lemma token_dumps_nd: "token (dumps_nd pretty d a)"
  by (cases a) (simp_all add: token_show_int token_container)

lemma token_dumps: "dumps_val opt d v = Inr s \<Longrightarrow> token s"
proof (cases v)
  case PNone
  assume "dumps_val opt d v = Inr s"
  with PNone show ?thesis by (auto simp: token_def)
next
  case (PBool b)
  assume "dumps_val opt d v = Inr s"
  with PBool show ?thesis by (cases b) (auto simp: token_def)
next
  case (PInt i)
  assume "dumps_val opt d v = Inr s"
  with PInt show ?thesis by (auto simp: token_show_int split: if_splits)
next
  case (PStr t)
  assume "dumps_val opt d v = Inr s"
  with PStr show ?thesis by (auto simp: token_quote)
next
  case (PList xs)
  assume "dumps_val opt d v = Inr s"
  with PList show ?thesis by (auto simp: token_container split: if_splits sum.splits)
next
  case (PDict kvs)
  assume "dumps_val opt d v = Inr s"
  with PDict show ?thesis by (auto simp: token_container split: if_splits sum.splits)
next
  case (PNdarray a)
  assume "dumps_val opt d v = Inr s"
  with PNdarray show ?thesis by (auto simp: token_dumps_nd split: if_splits)
next
  case (PObject attrs)
  assume "dumps_val opt d v = Inr s"
  with PObject show ?thesis by simp
qed

lemma indents_token_append:
  "token a \<Longrightarrow> indents None (a @ b) = indents None a @ indents None b"
  by (simp add: token_def indents_append)

lemma indents_nl_token: "token t \<Longrightarrow> indents None (nl k @ t) = 2 * k # indents None t"
proof -
  assume t: "token t"
  then obtain c cs where c: "t = c # cs" "c \<noteq> CHR 0x0A" "c \<noteq> CHR '' ''"
    by (cases t) (auto simp: token_def)
  then show ?thesis using indents_nl [of c k cs] by simp
qed

lemma token_append: "token a \<Longrightarrow> token b \<Longrightarrow> token (a @ b)"
  by (auto simp: token_def)

lemma hd_join: "items \<noteq> [] \<Longrightarrow> \<forall>s\<in>set items. token s \<Longrightarrow>
  \<exists>c cs. join_items sep items @ t = c # cs \<and> c \<noteq> CHR 0x0A \<and> c \<noteq> CHR '' ''"
proof (induction sep items rule: join_items.induct)
  case (1 sep)
  then show ?case by simp
next
  case (2 sep x)
  then show ?case by (cases x) (auto simp: token_def)
next
  case (3 sep x y ys)
  then show ?case by (cases x) (auto simp: token_def)
qed

lemma indents_nl_join:
  assumes "items \<noteq> []" "\<forall>s\<in>set items. token s"
  shows "indents None (nl k @ join_items sep items @ t) = 2 * k # indents None (join_items sep items @ t)"
proof -
  obtain c cs where c: "join_items sep items @ t = c # cs" "c \<noteq> CHR 0x0A" "c \<noteq> CHR '' ''"
    using hd_join [OF assms] by blast
  then show ?thesis using indents_nl [of c k cs] by simp
qed

lemma indents_join:
  assumes "items \<noteq> []" "\<forall>s\<in>set items. token s"
    and "\<forall>s\<in>set items. \<forall>k\<in>set (indents None s). Q k"
    and "Q (2 * d)" "Q (2 * Suc d)" "r \<noteq> CHR 0x0A" "r \<noteq> CHR '' ''"
  shows "\<forall>k\<in>set (indents None (join_items (nl (Suc d)) items @ nl d @ [r])). Q k"
  using assms(1,2,3)
proof (induction items)
  case Nil
  then show ?case by simp
next
  case (Cons x items)
  have x: "token x" using Cons.prems by simp
  show ?case
  proof (cases items)
    case Nil
    have "indents None (x @ nl d @ [r]) = indents None x @ [2 * d]"
      using indents_token_append [OF x] indents_nl [of r d "[]"] assms(6,7)
      by simp
    with Nil Cons.prems assms(4) show ?thesis by auto
  next
    case (Cons y ys)
    let ?J = "join_items (nl (Suc d)) items @ nl d @ [r]"
    have i: "items \<noteq> []" "\<forall>s\<in>set items. token s" using Cons Cons.prems by auto
    have "indents None (x @ CHR '','' # nl (Suc d) @ ?J) =
        indents None x @ 2 * Suc d # indents None ?J"
      using indents_token_append [OF x] indents_nl_join [OF i, of "Suc d" "nl (Suc d)" "nl d @ [r]"]
      by simp
    moreover have "\<forall>k\<in>set (indents None ?J). Q k"
      using Cons.IH i Cons.prems by simp
    ultimately show ?thesis
      using Cons Cons.prems assms(5) by auto
  qed
qed

lemma indents_container:
  assumes "\<forall>s\<in>set items. token s"
    and "\<forall>s\<in>set items. \<forall>k\<in>set (indents None s). Q k"
    and "Q (2 * d)" "Q (2 * Suc d)"
    and "l \<noteq> CHR 0x0A" "r \<noteq> CHR 0x0A" "r \<noteq> CHR '' ''"
  shows "\<forall>k\<in>set (indents None (container True d l r items)). Q k"
proof (cases "items = []")
  case True
  with assms(5,6) show ?thesis by (simp add: container_def)
next
  case False
  let ?J = "join_items (nl (Suc d)) items @ nl d @ [r]"
  have "indents None (container True d l r items) = 2 * Suc d # indents None ?J"
    using False assms(5) indents_nl_join [OF False assms(1), of "Suc d" "nl (Suc d)" "nl d @ [r]"]
    by (simp add: container_def)
  with indents_join [OF False assms(1,2,3,4,6,7)] assms(4) show ?thesis by simp
qed

lemma list_all2_set1:
  "list_all2 R xs ys \<Longrightarrow> x \<in> set xs \<Longrightarrow> \<exists>y\<in>set ys. R x y"
  by (induction xs ys rule: list_all2_induct) auto

lemma set_insert_by_key: "set (insert_by_key p qs) = insert p (set qs)"
  by (induction qs) auto

lemma set_sort_by_key: "set (sort_by_key ms) = set ms"
  unfolding sort_by_key_def by (induction ms) (simp_all add: set_insert_by_key)

lemma token_member: "token (snd m) \<Longrightarrow> token (member pretty m)"
  by (auto simp: token_def member_def quote_def)

lemma indents_member: "indents None (member True m) = indents None (snd m)"
  using indents_token_append [OF token_quote, of "fst m" "'': '' @ snd m"]
    indents_no_newline [OF quote_no_newline, of "fst m"]
  by (simp add: member_def)

lemma indents_dumps_nd:
  "\<forall>k\<in>set (indents None (dumps_nd True d a)). even k \<and> 2 * d \<le> k"
proof (induction a arbitrary: d)
  case (Scalar w)
  then show ?case by (simp add: indents_no_newline show_int_no_newline)
next
  case (Axis xs)
  have "\<forall>k\<in>set (indents None (container True d (CHR ''['') (CHR '']'')
      (map (dumps_nd True (Suc d)) xs))). even k \<and> 2 * d \<le> k"
  proof (rule indents_container)
    show "\<forall>s\<in>set (map (dumps_nd True (Suc d)) xs). token s"
      by (simp add: token_dumps_nd)
    show "\<forall>s\<in>set (map (dumps_nd True (Suc d)) xs). \<forall>k\<in>set (indents None s). even k \<and> 2 * d \<le> k"
      using Axis.IH [of _ "Suc d"] by fastforce
  qed simp_all
  then show ?case by simp
qed

lemma indents_dumps:
  "dumps_val opt d v = Inr s \<Longrightarrow> has_opt opt OPT_INDENT_2 \<Longrightarrow>
   \<forall>k\<in>set (indents None s). even k \<and> 2 * d \<le> k"
proof (induction v arbitrary: d s)
  case PNone
  then show ?case by auto
next
  case (PBool b)
  then show ?case by (cases b) auto
next
  case (PInt i)
  then show ?case by (auto simp: indents_no_newline show_int_no_newline split: if_splits)
next
  case (PStr t)
  then show ?case by (auto simp: indents_no_newline quote_no_newline)
next
  case (PList xs)
  from PList.prems obtain items where it: "dumps_list opt (Suc d) xs = Inr items"
    and s: "s = container True d (CHR ''['') (CHR '']'') items"
    by (auto split: if_splits sum.splits)
  have each: "token i \<and> (\<forall>k\<in>set (indents None i). even k \<and> 2 * d \<le> k)" if h: "i \<in> set items" for i
  proof -
    obtain x where x: "x \<in> set xs" "dumps_val opt (Suc d) x = Inr i"
      using list_all2_set1 [OF dumps_list_all2 [OF it] h] by blast
    from PList.IH [OF x PList.prems(2)] token_dumps [OF x(2)] show ?thesis by fastforce
  qed
  show ?case
    unfolding s by (rule indents_container) (use each in simp_all)
next
  case (PDict kvs)
  from PDict.prems obtain ms where it: "dumps_dict opt (Suc d) kvs = Inr ms"
    and s: "s = container True d (CHR ''{'') (CHR ''}'')
      (map (member True) (if has_opt opt OPT_SORT_KEYS then sort_by_key ms else ms))"
    by (auto split: if_splits sum.splits)
  have each: "token (member True m) \<and>
      (\<forall>k\<in>set (indents None (member True m)). even k \<and> 2 * d \<le> k)" if h: "m \<in> set ms" for m
  proof -
    obtain p where p: "p \<in> set kvs" "dumps_val opt (Suc d) (snd p) = Inr (snd m)"
      using list_all2_set1 [OF dumps_dict_all2 [OF it] h] by blast
    have "snd p \<in> Basic_BNFs.snds p" by (cases p) simp
    from PDict.IH [OF p(1) this p(2) PDict.prems(2)] token_dumps [OF p(2)]
    show ?thesis by (fastforce simp: indents_member token_member)
  qed
  show ?case
    unfolding s by (rule indents_container) (use each in \<open>auto simp: set_sort_by_key\<close>)
next
  case (PNdarray a)
  then show ?case using indents_dumps_nd by (auto split: if_splits)
next
  case (PObject attrs)
  then show ?case by simp
qed

end
